(* ===== verification/Prelude.thy ===== *)
theory Prelude
  imports Main
begin

text \<open>
  Shared vocabulary of the development: the named collections the component theories
  extend, the sum over the rows a query selects, and list lemmas about keyed rows.
\<close>

named_theorems frame_simps \<open>which tables an operation leaves unchanged\<close>
named_theorems inv_intros \<open>operations preserve their component's invariant\<close>
named_theorems step_defs \<open>definitions unfolded when an operation is executed\<close>

section \<open>Sums over selected rows\<close>

text \<open>
  \<open>sum_where f P xs\<close> is the value of \<open>aggregate({ where: P, _sum: { f } })._sum.f ?? 0\<close>:
  the sum of the column \<open>f\<close> over the rows that satisfy \<open>P\<close>, 0 when there is none.
\<close>

definition sum_where :: "('a \<Rightarrow> int) \<Rightarrow> ('a \<Rightarrow> bool) \<Rightarrow> 'a list \<Rightarrow> int" where
  "sum_where f P xs = sum_list (map f (filter P xs))"

lemma sum_where_Nil [simp]: "sum_where f P [] = 0"
  by (simp add: sum_where_def)

lemma sum_where_Cons [simp]:
  "sum_where f P (x # xs) = (if P x then f x else 0) + sum_where f P xs"
  by (simp add: sum_where_def)

lemma sum_where_append [simp]:
  "sum_where f P (xs @ ys) = sum_where f P xs + sum_where f P ys"
  by (simp add: sum_where_def)

lemma sum_where_cong:
  "(\<And>x. x \<in> set xs \<Longrightarrow> P x = Q x) \<Longrightarrow> sum_where f P xs = sum_where f Q xs"
  by (induction xs) auto

lemma sum_where_none: "(\<And>x. x \<in> set xs \<Longrightarrow> \<not> P x) \<Longrightarrow> sum_where f P xs = 0"
  by (induction xs) auto

lemma sum_where_split:
  assumes "\<And>x. x \<in> set xs \<Longrightarrow> P x \<longleftrightarrow> Q x \<or> R x"
    and "\<And>x. x \<in> set xs \<Longrightarrow> \<not> (Q x \<and> R x)"
  shows "sum_where f P xs = sum_where f Q xs + sum_where f R xs"
  using assms by (induction xs) auto

lemma sum_where_nonneg:
  "(\<And>x. x \<in> set xs \<Longrightarrow> 0 \<le> f x) \<Longrightarrow> 0 \<le> sum_where f P xs"
  by (induction xs) auto

lemma sum_where_mono:
  assumes "\<And>x. x \<in> set xs \<Longrightarrow> 0 \<le> f x" and "\<And>x. x \<in> set xs \<Longrightarrow> P x \<Longrightarrow> Q x"
  shows "sum_where f P xs \<le> sum_where f Q xs"
  using assms by (induction xs) (auto intro: add_increasing)

section \<open>Rows with a unique key\<close>

text \<open>A row update keeps the keys, so a table with distinct keys keeps them distinct.\<close>

lemma map_key_update:
  assumes "\<And>r. key (g r) = key r"
  shows "map key (map (\<lambda>r. if P r then g r else r) rows) = map key rows"
  using assms by (induction rows) auto

text \<open>Adding to the one row with a key adds to the sums that select this row, once.\<close>

lemma sum_where_bump:
  assumes "distinct (map key rows)" and "k \<in> key ` set rows"
    and keys: "\<And>r. key (g r) = key r" and bump: "\<And>r. f (g r) = f r + n"
    and sel: "\<And>r. P r \<longleftrightarrow> Q (key r)"
  shows "sum_where f P (map (\<lambda>r. if key r = k then g r else r) rows)
       = sum_where f P rows + (if Q k then n else 0)"
  using assms(1,2)
proof (induction rows)
  case Nil
  then show ?case by simp
next
  case (Cons r rows)
  show ?case
  proof (cases "key r = k")
    case True
    with Cons.prems(1) have "\<And>r'. r' \<in> set rows \<Longrightarrow> key r' \<noteq> k"
      by (metis distinct.simps(2) image_eqI list.simps(9) set_map)
    then have "map (\<lambda>r. if key r = k then g r else r) rows = rows"
      by (auto intro!: map_idI)
    with True show ?thesis by (auto simp: sel keys bump)
  next
    case False
    with Cons show ?thesis by (auto simp: sel)
  qed
qed

lemma key_unique:
  assumes "distinct (map key rows)" "r \<in> set rows" "r' \<in> set rows" "key r = key r'"
  shows "r = r'"
  using assms by (auto simp: distinct_map inj_on_def)

text \<open>Swapping a double sum over two tables.\<close>

lemma sum_where_swap:
  "sum_list (map (\<lambda>x. sum_list (map (\<lambda>y. h x y) ys)) xs)
   = sum_list (map (\<lambda>y. sum_list (map (\<lambda>x. (h x y :: int)) xs)) ys)"
  by (induction xs) (simp_all add: sum_list_addf)

lemma sum_where_if:
  "sum_where f P xs = sum_list (map (\<lambda>x. if P x then f x else 0) xs)"
  by (induction xs) auto

text \<open>With distinct keys, at most one row of the table answers to a key.\<close>

lemma sum_list_unique_key:
  assumes "distinct (map key rows)"
  shows "sum_list (map (\<lambda>r. if key r = k then (c :: int) else 0) rows)
       = (if k \<in> key ` set rows then c else 0)"
  using assms
proof (induction rows)
  case Nil
  then show ?case by simp
next
  case (Cons r rows)
  then show ?case by auto
qed

end
