(* ===== verification/Effects.thy ===== *)
theory Effects
  imports Prelude
begin

text \<open>
  Errors and effects. \<open>exn\<close> are the values the code throws: an \<open>AppError\<close> (code, message,
  HTTP status, details), a Prisma error (its \<open>code\<close>, \<open>meta.target\<close> and message), an error of
  the Stripe client (its \<open>type\<close>, \<open>code\<close> and message) or any other error. An asynchronous method is a \<open>prog\<close>: from the state to a result, thrown or returned,
  and the state it leaves. What was written before a throw stays written, unless the writes are
  inside \<open>$transaction\<close> (\<open>tx\<close>), which restores the state.
\<close>

datatype error_code =
    INTERNAL_ERROR | HTTP_ERROR | BAD_REQUEST | UNAUTHORIZED | FORBIDDEN | NOT_FOUND
  | PRODUCT_NOT_FOUND | PRODUCT_NOT_READY | PLAN_NOT_FOUND | SUBSCRIPTION_NOT_FOUND
  | KEY_NOT_FOUND | SUBSCRIPTION_NOT_ACTIVE | PLAN_INACTIVE | ALREADY_SUBSCRIBED
  | SUBSCRIPTION_PENDING | INVOICE_NOT_FOUND | VERSION_NOT_FOUND | NOT_OWNER
  | PRODUCT_NOT_PUBLIC | FORBIDDEN_ROLE | MOCK_PAYMENT_FORBIDDEN | USAGE_INGEST_FORBIDDEN
  | CONFLICT | VERSION_ALREADY_EXISTS | VALIDATION_ERROR | PAYMENT_PROVIDER_NOT_ENABLED
  | STRIPE_WEBHOOK_INVALID | CHECKOUT_SESSION_NOT_FOUND | INVALID_API_KEY
  | NO_ACTIVE_SUBSCRIPTION | QUOTA_EXCEEDED | RATE_LIMIT_EXCEEDED
  | GATEWAY_REQUEST_BODY_TOO_LARGE | GATEWAY_TARGET_NOT_CONFIGURED
  | GATEWAY_UPSTREAM_UNAVAILABLE | GATEWAY_RESPONSE_BODY_TOO_LARGE | UNSAFE_EXTERNAL_URL
  | LLM_NOT_CONFIGURED | LLM_UPSTREAM_UNAVAILABLE | ML_SUGGESTIONS_DISABLED
  | ML_UPSTREAM_UNAVAILABLE

datatype detail = DNull | DNum int | DStr string

datatype exn =
    AppError error_code string int "(string \<times> detail) list"
  | PrismaError string "string list" string
  | StripeError string "string option" string
  | OtherError string

fun exn_message :: "exn \<Rightarrow> string" where
  "exn_message (AppError c m s d) = m"
| "exn_message (PrismaError c t m) = m"
| "exn_message (StripeError ty c m) = m"
| "exn_message (OtherError m) = m"

fun exn_prisma_code :: "exn \<Rightarrow> string option" where
  "exn_prisma_code (PrismaError c t m) = Some c"
| "exn_prisma_code _ = None"

fun exn_meta_target :: "exn \<Rightarrow> string list" where
  "exn_meta_target (PrismaError c t m) = t"
| "exn_meta_target _ = []"

fun exn_code :: "exn \<Rightarrow> error_code option" where
  "exn_code (AppError c m s d) = Some c"
| "exn_code _ = None"

fun exn_status :: "exn \<Rightarrow> int option" where
  "exn_status (AppError c m s d) = Some s"
| "exn_status _ = None"

section \<open>Programs\<close>

type_synonym ('s, 'a) prog = "'s \<Rightarrow> (exn + 'a) \<times> 's"

definition ret :: "'a \<Rightarrow> ('s, 'a) prog" where
  "ret x = (\<lambda>s. (Inr x, s))"

definition raise :: "exn \<Rightarrow> ('s, 'a) prog" where
  "raise e = (\<lambda>s. (Inl e, s))"

definition bnd :: "('s, 'a) prog \<Rightarrow> ('a \<Rightarrow> ('s, 'b) prog) \<Rightarrow> ('s, 'b) prog" where
  "bnd m f = (\<lambda>s. case m s of (Inl e, s') \<Rightarrow> (Inl e, s') | (Inr x, s') \<Rightarrow> f x s')"

definition gets :: "('s \<Rightarrow> 'a) \<Rightarrow> ('s, 'a) prog" where
  "gets f = (\<lambda>s. (Inr (f s), s))"

definition from_result :: "exn + 'a \<Rightarrow> ('s, 'a) prog" where
  "from_result r = (\<lambda>s. (r, s))"

text \<open>A write to the state that may be refused by the database.\<close>

definition writes :: "('s \<Rightarrow> exn + 's) \<Rightarrow> ('s, unit) prog" where
  "writes f = (\<lambda>s. case f s of Inl e \<Rightarrow> (Inl e, s) | Inr s' \<Rightarrow> (Inr (), s'))"

definition tx :: "('s, 'a) prog \<Rightarrow> ('s, 'a) prog" where
  "tx m = (\<lambda>s. case m s of (Inl e, s') \<Rightarrow> (Inl e, s) | (Inr x, s') \<Rightarrow> (Inr x, s'))"

definition try_catch :: "('s, 'a) prog \<Rightarrow> (exn \<Rightarrow> ('s, 'a) prog) \<Rightarrow> ('s, 'a) prog" where
  "try_catch m h = (\<lambda>s. case m s of (Inl e, s') \<Rightarrow> h e s' | (Inr x, s') \<Rightarrow> (Inr x, s'))"

text \<open>An external event that makes a database call fail: \<open>None\<close> when it goes through.\<close>

definition may_fail :: "exn option \<Rightarrow> ('s, unit) prog" where
  "may_fail fault = (case fault of None \<Rightarrow> ret () | Some e \<Rightarrow> raise e)"

lemmas prog_defs = ret_def raise_def bnd_def gets_def from_result_def writes_def tx_def
  try_catch_def may_fail_def

lemma bnd_ret [simp]: "bnd (ret x) f = f x"
  by (simp add: bnd_def ret_def)

lemma bnd_raise [simp]: "bnd (raise e) f = raise e"
  by (simp add: bnd_def raise_def)

lemma bnd_Inr:
  "bnd m f s = (Inr y, s'') \<longleftrightarrow> (\<exists>x s'. m s = (Inr x, s') \<and> f x s' = (Inr y, s''))"
  by (auto simp: bnd_def split: prod.splits sum.splits)

lemma tx_Inr: "tx m s = (Inr x, s') \<longleftrightarrow> m s = (Inr x, s')"
  by (auto simp: tx_def split: prod.splits sum.splits)

text \<open>A transaction that throws leaves the state as it was.\<close>

lemma tx_Inl: "tx m s = (Inl e, s') \<Longrightarrow> s' = s"
  by (auto simp: tx_def split: prod.splits sum.splits)

lemma writes_Inr: "writes f s = (Inr u, s') \<longleftrightarrow> f s = Inr s'"
  by (cases u) (auto simp: writes_def split: sum.splits)

lemma writes_Inl: "writes f s = (Inl e, s') \<longleftrightarrow> f s = Inl e \<and> s' = s"
  by (auto simp: writes_def split: sum.splits)

lemma writes_cases:
  assumes "writes f s = (res, s')"
  obtains e where "f s = Inl e" "res = Inl e" "s' = s"
  | "f s = Inr s'" "res = Inr ()"
proof (cases "f s")
  case (Inl e)
  then have "res = Inl e" "s' = s" using assms by (simp_all add: writes_def)
  then show ?thesis by (rule that(1) [OF Inl])
next
  case (Inr t)
  then have "res = Inr ()" "s' = t" using assms by (simp_all add: writes_def)
  then show ?thesis using Inr that(2) by blast
qed

section \<open>Properties of programs by composition\<close>

text \<open>Every run of the program is a run of steps of \<open>R\<close>.\<close>

definition by_steps :: "('s \<Rightarrow> 's \<Rightarrow> bool) \<Rightarrow> ('s, 'a) prog \<Rightarrow> bool" where
  "by_steps R m \<longleftrightarrow> (\<forall>d. R\<^sup>*\<^sup>* d (snd (m d)))"

named_theorems steps_intros

lemma by_stepsD: "by_steps R m \<Longrightarrow> m d = (r, d') \<Longrightarrow> R\<^sup>*\<^sup>* d d'"
  unfolding by_steps_def by (metis snd_conv)

lemma by_steps_step:
  assumes "\<And>d r d'. m d = (r, d') \<Longrightarrow> R d d'"
  shows "by_steps R m"
  unfolding by_steps_def by (metis assms r_into_rtranclp surj_pair snd_conv)

lemma by_steps_ret [steps_intros]: "by_steps R (ret x)"
  and by_steps_raise [steps_intros]: "by_steps R (raise e)"
  and by_steps_gets [steps_intros]: "by_steps R (gets f)"
  and by_steps_from_result [steps_intros]: "by_steps R (from_result res)"
  by (simp_all add: by_steps_def prog_defs)

lemma by_steps_bnd [steps_intros]:
  assumes "by_steps R m" "\<And>x. by_steps R (f x)"
  shows "by_steps R (bnd m f)"
proof -
  have "R\<^sup>*\<^sup>* d (snd (bnd m f d))" for d
  proof -
    obtain r d1 where m: "m d = (r, d1)" by (cases "m d")
    have first: "R\<^sup>*\<^sup>* d d1" by (rule by_stepsD [OF assms(1) m])
    show ?thesis
    proof (cases r)
      case (Inl e)
      then show ?thesis using m first by (simp add: bnd_def)
    next
      case (Inr x)
      have "R\<^sup>*\<^sup>* d1 (snd (f x d1))" using assms(2) by (simp add: by_steps_def)
      then show ?thesis using m first Inr by (simp add: bnd_def)
    qed
  qed
  then show ?thesis by (simp add: by_steps_def)
qed

lemma by_steps_try [steps_intros]:
  assumes "by_steps R m" "\<And>e. by_steps R (h e)"
  shows "by_steps R (try_catch m h)"
proof -
  have "R\<^sup>*\<^sup>* d (snd (try_catch m h d))" for d
  proof -
    obtain r d1 where m: "m d = (r, d1)" by (cases "m d")
    have first: "R\<^sup>*\<^sup>* d d1" by (rule by_stepsD [OF assms(1) m])
    show ?thesis
    proof (cases r)
      case (Inl e)
      have "R\<^sup>*\<^sup>* d1 (snd (h e d1))" using assms(2) by (simp add: by_steps_def)
      then show ?thesis using m first Inl by (simp add: try_catch_def)
    next
      case (Inr x)
      then show ?thesis using m first by (simp add: try_catch_def)
    qed
  qed
  then show ?thesis by (simp add: by_steps_def)
qed

lemma by_steps_if [steps_intros]: "by_steps R m \<Longrightarrow> by_steps R m' \<Longrightarrow> by_steps R (if b then m else m')"
  by simp

lemma by_steps_tx [steps_intros]:
  assumes "by_steps R m"
  shows "by_steps R (tx m)"
proof -
  have "R\<^sup>*\<^sup>* d (snd (tx m d))" for d
    using by_stepsD [OF assms, of d] by (cases "m d") (auto simp: tx_def split: sum.splits)
  then show ?thesis by (simp add: by_steps_def)
qed

lemma by_steps_option [steps_intros]:
  "by_steps R m \<Longrightarrow> (\<And>x. by_steps R (f x)) \<Longrightarrow> by_steps R (case v of None \<Rightarrow> m | Some x \<Rightarrow> f x)"
  by (cases v) simp_all

text \<open>Every error the program can end in satisfies \<open>P\<close>.\<close>

definition fails_with :: "(exn \<Rightarrow> bool) \<Rightarrow> ('s, 'a) prog \<Rightarrow> bool" where
  "fails_with P m \<longleftrightarrow> (\<forall>d e d'. m d = (Inl e, d') \<longrightarrow> P e)"

named_theorems fails_intros

lemma fails_withD: "fails_with P m \<Longrightarrow> m d = (Inl e, d') \<Longrightarrow> P e"
  unfolding fails_with_def by blast

lemma fails_with_ret [fails_intros]: "fails_with P (ret x)"
  and fails_with_gets [fails_intros]: "fails_with P (gets f)"
  and fails_with_raise [fails_intros]: "P e \<Longrightarrow> fails_with P (raise e)"
  by (simp_all add: fails_with_def prog_defs)

lemma fails_with_result [fails_intros]: "(\<And>e. res = Inl e \<Longrightarrow> P e) \<Longrightarrow> fails_with P (from_result res)"
  by (simp add: fails_with_def prog_defs)

lemma fails_with_bnd [fails_intros]:
  assumes "fails_with P m" "\<And>x. fails_with P (f x)"
  shows "fails_with P (bnd m f)"
  unfolding fails_with_def bnd_def
  using assms by (auto simp: fails_with_def split: prod.splits sum.splits)

lemma fails_with_try:
  assumes "fails_with Q m" "\<And>e. Q e \<Longrightarrow> fails_with P (h e)"
  shows "fails_with P (try_catch m h)"
  unfolding fails_with_def
proof (intro allI impI)
  fix d e d' assume "try_catch m h d = (Inl e, d')"
  then obtain e1 d1 where r: "m d = (Inl e1, d1)" "h e1 d1 = (Inl e, d')"
    by (auto simp: try_catch_def split: prod.splits sum.splits)
  show "P e" by (rule fails_withD [OF assms(2) [OF fails_withD [OF assms(1) r(1)]] r(2)])
qed

lemma fails_with_if [fails_intros]:
  "(b \<Longrightarrow> fails_with P m) \<Longrightarrow> (\<not> b \<Longrightarrow> fails_with P m') \<Longrightarrow> fails_with P (if b then m else m')"
  by simp

lemma fails_with_option [fails_intros]:
  "fails_with P m \<Longrightarrow> (\<And>x. fails_with P (f x)) \<Longrightarrow> fails_with P (case v of None \<Rightarrow> m | Some x \<Rightarrow> f x)"
  by (cases v) simp_all

lemma fails_with_pair [fails_intros]:
  "(\<And>x y. fails_with P (f x y)) \<Longrightarrow> fails_with P (case p of (x, y) \<Rightarrow> f x y)"
  by (cases p) simp

lemma fails_with_mono: "fails_with P m \<Longrightarrow> (\<And>e. P e \<Longrightarrow> Q e) \<Longrightarrow> fails_with Q m"
  by (auto simp: fails_with_def)

section \<open>Batches\<close>

text \<open>
  The loop of the background workers: each item is processed on its own, an error is counted
  and logged and the loop goes on. The step returns whether the item counts as processed.
\<close>

fun run_batch :: "('x \<Rightarrow> ('s, bool) prog) \<Rightarrow> 'x list \<Rightarrow> int \<times> int \<Rightarrow> 's \<Rightarrow> (int \<times> int) \<times> 's" where
  "run_batch f [] (processed, failed) s = ((processed, failed), s)"
| "run_batch f (x # xs) (processed, failed) s =
     (case f x s of
        (Inl e, s') \<Rightarrow> run_batch f xs (processed, failed + 1) s'
      | (Inr b, s') \<Rightarrow> run_batch f xs (if b then processed + 1 else processed, failed) s')"

lemma run_batch_invariant:
  assumes "\<And>x s r s'. x \<in> set xs \<Longrightarrow> I s \<Longrightarrow> f x s = (r, s') \<Longrightarrow> I s'"
    and "I s" and "run_batch f xs c s = (c', s')"
  shows "I s'"
  using assms
proof (induction xs arbitrary: s c)
  case Nil
  then show ?case by (cases c) auto
next
  case (Cons x xs)
  obtain r s1 where step: "f x s = (r, s1)" by (cases "f x s")
  then have "I s1" using Cons.prems(1,2) by (metis list.set_intros(1))
  moreover obtain c1 where "run_batch f xs c1 s1 = (c', s')"
    using Cons.prems(3) step by (cases c; cases r) auto
  ultimately show ?case using Cons.IH [of s1 c1] Cons.prems(1) by (metis list.set_intros(2))
qed

lemma run_batch_counts:
  assumes "run_batch f xs (p, q) s = ((p', q'), s')"
  shows "p \<le> p' \<and> q \<le> q' \<and> p' + q' \<le> p + q + int (length xs)"
  using assms
proof (induction xs arbitrary: p q s)
  case Nil
  then show ?case by simp
next
  case (Cons x xs)
  then show ?case by (fastforce split: prod.splits sum.splits if_splits)
qed

text \<open>When every successful step counts, the two counters partition the batch.\<close>

lemma run_batch_partition:
  assumes "\<And>x s b s'. f x s = (Inr b, s') \<Longrightarrow> b"
    and "run_batch f xs (p, q) s = ((p', q'), s')"
  shows "p' + q' = p + q + int (length xs)"
  using assms(2)
proof (induction xs arbitrary: p q s)
  case Nil
  then show ?case by simp
next
  case (Cons x xs)
  then show ?case using assms(1) by (fastforce split: prod.splits sum.splits if_splits)
qed

end
