(* ===== verification/JsDate.thy ===== *)
theory JsDate
  imports Prelude
begin

text \<open>
  The part of ECMAScript's \<open>Date\<close> the code uses: a date is its time value, the milliseconds
  since the epoch, as an \<open>int\<close> (the limit of \<open>8.64e15\<close> and invalid dates are outside the
  model). The UTC setters are the specification's: \<open>setUTCMonth\<close> and \<open>setUTCDate\<close> go through
  \<open>MakeDay\<close>, so a day number past the end of a month runs into the next month.
\<close>

type_synonym date = int

abbreviation ms_per_day :: int where "ms_per_day \<equiv> 86400000"

section \<open>Day numbers and the proleptic Gregorian calendar\<close>

definition day :: "date \<Rightarrow> int" where
  "day t = t div ms_per_day"

definition time_within_day :: "date \<Rightarrow> int" where
  "time_within_day t = t mod ms_per_day"

definition day_from_year :: "int \<Rightarrow> int" where
  "day_from_year y =
     365 * (y - 1970) + (y - 1969) div 4 - (y - 1901) div 100 + (y - 1601) div 400"

definition leap_year :: "int \<Rightarrow> bool" where
  "leap_year y \<longleftrightarrow> (4 dvd y \<and> \<not> 100 dvd y) \<or> 400 dvd y"

definition days_in_year :: "int \<Rightarrow> int" where
  "days_in_year y = (if leap_year y then 366 else 365)"

definition year_from_day :: "int \<Rightarrow> int" where
  "year_from_day d =
     (let y = 1970 + (400 * d) div 146097 in
      if d < day_from_year y then y - 1
      else if day_from_year (y + 1) \<le> d then y + 1 else y)"

text \<open>The day within the year on which month \<open>m\<close> (0 to 11) starts.\<close>

definition month_start :: "bool \<Rightarrow> int \<Rightarrow> int" where
  "month_start leap m = (let l = (if leap then 1 else 0) in
     if m \<le> 0 then 0 else if m = 1 then 31 else if m = 2 then 59 + l
     else if m = 3 then 90 + l else if m = 4 then 120 + l else if m = 5 then 151 + l
     else if m = 6 then 181 + l else if m = 7 then 212 + l else if m = 8 then 243 + l
     else if m = 9 then 273 + l else if m = 10 then 304 + l else 334 + l)"

definition month_of_day :: "bool \<Rightarrow> int \<Rightarrow> int" where
  "month_of_day leap doy =
     (let after = (\<lambda>m. month_start leap m \<le> doy) in
     if after 11 then 11 else if after 10 then 10 else if after 9 then 9
     else if after 8 then 8 else if after 7 then 7 else if after 6 then 6
     else if after 5 then 5 else if after 4 then 4 else if after 3 then 3
     else if after 2 then 2 else if after 1 then 1 else 0)"

definition make_day :: "int \<Rightarrow> int \<Rightarrow> int \<Rightarrow> int" where
  "make_day y m dt =
     (let ym = y + m div 12 in
      day_from_year ym + month_start (leap_year ym) (m mod 12) + dt - 1)"

definition make_date :: "int \<Rightarrow> int \<Rightarrow> date" where
  "make_date d time = d * ms_per_day + time"

section \<open>Getters and setters\<close>

definition get_utc_full_year :: "date \<Rightarrow> int" where
  "get_utc_full_year t = year_from_day (day t)"

definition day_of_year :: "date \<Rightarrow> int" where
  "day_of_year t = day t - day_from_year (get_utc_full_year t)"

definition get_utc_month :: "date \<Rightarrow> int" where
  "get_utc_month t = month_of_day (leap_year (get_utc_full_year t)) (day_of_year t)"

definition get_utc_date :: "date \<Rightarrow> int" where
  "get_utc_date t =
     day_of_year t - month_start (leap_year (get_utc_full_year t)) (get_utc_month t) + 1"

definition get_utc_hours :: "date \<Rightarrow> int" where
  "get_utc_hours t = (t div 3600000) mod 24"

definition get_utc_minutes :: "date \<Rightarrow> int" where
  "get_utc_minutes t = (t div 60000) mod 60"

definition get_utc_seconds :: "date \<Rightarrow> int" where
  "get_utc_seconds t = (t div 1000) mod 60"

definition get_utc_milliseconds :: "date \<Rightarrow> int" where
  "get_utc_milliseconds t = t mod 1000"

definition set_utc_midnight :: "date \<Rightarrow> date" where
  \<comment> \<open>\<open>setUTCHours(0, 0, 0, 0)\<close>\<close>
  "set_utc_midnight t = make_date (day t) 0"

definition set_utc_date :: "date \<Rightarrow> int \<Rightarrow> date" where
  "set_utc_date t dt =
     make_date (make_day (get_utc_full_year t) (get_utc_month t) dt) (time_within_day t)"

definition set_utc_month :: "date \<Rightarrow> int \<Rightarrow> date" where
  "set_utc_month t m =
     make_date (make_day (get_utc_full_year t) m (get_utc_date t)) (time_within_day t)"

section \<open>Calendar facts\<close>

lemma div_next:
  assumes "0 < (k :: int)"
  shows "(x + 1) div k = x div k + (if k dvd x + 1 then 1 else 0)"
proof -
  define q r where "q = x div k" and "r = x mod k"
  have x: "x = k * q + r" "0 \<le> r" "r < k" using assms by (auto simp: q_def r_def)
  show ?thesis
  proof (cases "r + 1 = k")
    case True
    then have "x + 1 = k * (q + 1)" using x by (simp add: distrib_left)
    moreover from this have "(x + 1) div k = q + 1" using assms by simp
    ultimately show ?thesis by (simp add: q_def)
  next
    case False
    then have r1: "0 \<le> r + 1" "r + 1 < k" "r + 1 \<noteq> 0" using x(2,3) by auto
    have e: "x + 1 = k * q + (r + 1)" using x(1) by linarith
    have "(x + 1) div k = q" by (rule int_div_pos_eq [OF e r1(1,2)])
    moreover have "(x + 1) mod k = r + 1" by (rule int_mod_pos_eq [OF e r1(1,2)])
    ultimately show ?thesis using r1(3) by (simp only: q_def dvd_eq_mod_eq_0) simp
  qed
qed

lemma day_from_year_next: "day_from_year (y + 1) = day_from_year y + days_in_year y"
proof -
  have shift: "4 dvd y - 1968 \<longleftrightarrow> 4 dvd y" "100 dvd y - 1900 \<longleftrightarrow> 100 dvd y"
    "400 dvd y - 1600 \<longleftrightarrow> 400 dvd y"
    by (rule dvd_diff_left_iff, simp)+
  have "(y + 1 - 1969) div 4 = (y - 1969) div 4 + (if 4 dvd y then 1 else 0)"
    using div_next [of 4 "y - 1969"] by (simp add: shift)
  moreover have "(y + 1 - 1901) div 100 = (y - 1901) div 100 + (if 100 dvd y then 1 else 0)"
    using div_next [of 100 "y - 1901"] by (simp add: shift)
  moreover have "(y + 1 - 1601) div 400 = (y - 1601) div 400 + (if 400 dvd y then 1 else 0)"
    using div_next [of 400 "y - 1601"] by (simp add: shift)
  moreover have "400 dvd y \<Longrightarrow> 100 dvd y" "100 dvd y \<Longrightarrow> 4 dvd y"
    using dvd_trans [of 100 400 y] dvd_trans [of 4 100 y] by simp_all
  ultimately show ?thesis
    by (auto simp: day_from_year_def days_in_year_def leap_year_def)
qed

lemma make_day_of_date:
  "make_day (get_utc_full_year t) (get_utc_month t) dt = day t + dt - get_utc_date t"
proof -
  have "0 \<le> get_utc_month t" "get_utc_month t \<le> 11"
    by (auto simp: get_utc_month_def month_of_day_def Let_def)
  then show ?thesis
    by (simp add: make_day_def Let_def get_utc_date_def day_of_year_def div_pos_pos_trivial)
qed

text \<open>\<open>d.setUTCDate(d.getUTCDate() + n)\<close> moves the date by exactly \<open>n\<close> days.\<close>

lemma set_utc_date_add: "set_utc_date t (get_utc_date t + n) = t + n * ms_per_day"
  by (simp add: set_utc_date_def make_day_of_date make_date_def day_def time_within_day_def
      algebra_simps)

lemma set_utc_midnight_le: "set_utc_midnight t \<le> t"
  by (simp add: set_utc_midnight_def make_date_def day_def)

text \<open>
  \<open>d.setUTCMonth(d.getUTCMonth() + 1)\<close> moves the date by the number of days of its month,
  28 to 31: from the 31st it lands in the month after next.
\<close>

lemma set_utc_month_next_bounds:
  "t + 28 * ms_per_day \<le> set_utc_month t (get_utc_month t + 1) \<and>
   set_utc_month t (get_utc_month t + 1) \<le> t + 31 * ms_per_day"
proof -
  let ?y = "get_utc_full_year t" and ?m = "get_utc_month t"
  have m: "0 \<le> ?m" "?m \<le> 11"
    by (auto simp: get_utc_month_def month_of_day_def Let_def)
  have base: "make_day ?y ?m (get_utc_date t) = day t"
    using make_day_of_date [of t "get_utc_date t"] by simp
  have "make_day ?y ?m (get_utc_date t) + 28 \<le> make_day ?y (?m + 1) (get_utc_date t) \<and>
        make_day ?y (?m + 1) (get_utc_date t) \<le> make_day ?y ?m (get_utc_date t) + 31"
  proof (cases "?m = 11")
    case True
    then show ?thesis
      using day_from_year_next [of ?y]
      by (simp add: make_day_def Let_def month_start_def days_in_year_def)
  next
    case False
    with m have "(?m + 1) div 12 = 0" "(?m + 1) mod 12 = ?m + 1" "?m div 12 = 0" "?m mod 12 = ?m"
      by (auto simp: div_pos_pos_trivial mod_pos_pos_trivial)
    moreover have "?m \<in> {0, 1, 2, 3, 4, 5, 6, 7, 8, 9, 10}" using m False by (simp, presburger)
    ultimately show ?thesis by (auto simp: make_day_def Let_def month_start_def)
  qed
  then have "(day t + 28) * ms_per_day \<le> make_day ?y (?m + 1) (get_utc_date t) * ms_per_day"
    "make_day ?y (?m + 1) (get_utc_date t) * ms_per_day \<le> (day t + 31) * ms_per_day"
    unfolding base by (auto intro: mult_right_mono)
  moreover have "day t * ms_per_day + time_within_day t = t"
    by (simp add: day_def time_within_day_def)
  ultimately show ?thesis unfolding set_utc_month_def make_date_def distrib_right by linarith
qed

end
