(* ===== verification/Tables.thy ===== *)
theory Tables
  imports Effects JsDate "HOL-Library.Product_Lexorder"
begin

text \<open>
  The Prisma calls the services use, on a table held as the list of its rows in storage order.
  A query with \<open>orderBy\<close> sorts the selected rows (stably, so rows that tie keep their storage
  order: theorems quantify over the table, hence over every way the database breaks ties); a
  \<open>create\<close> or \<open>update\<close> that would break a unique constraint is refused with \<open>P2002\<close>, an
  \<open>update\<close> of a missing row with \<open>P2025\<close>. Nulls sort as PostgreSQL sorts them: last in an
  ascending order, first in a descending one.
\<close>

section \<open>Queries\<close>

definition find_unique :: "('r \<Rightarrow> bool) \<Rightarrow> 'r list \<Rightarrow> 'r option" where
  "find_unique p rows = List.find p rows"

definition find_many :: "('r \<Rightarrow> 'k::linorder) \<Rightarrow> ('r \<Rightarrow> bool) \<Rightarrow> 'r list \<Rightarrow> 'r list" where
  "find_many k p rows = sort_key k (filter p rows)"

definition find_first :: "('r \<Rightarrow> 'k::linorder) \<Rightarrow> ('r \<Rightarrow> bool) \<Rightarrow> 'r list \<Rightarrow> 'r option" where
  "find_first k p rows = (case find_many k p rows of [] \<Rightarrow> None | r # rs \<Rightarrow> Some r)"

definition asc_nulls_last :: "int option \<Rightarrow> int \<times> int" where
  "asc_nulls_last v = (case v of None \<Rightarrow> (1, 0) | Some x \<Rightarrow> (0, x))"

definition desc_nulls_first :: "int option \<Rightarrow> int \<times> int" where
  "desc_nulls_first v = (case v of None \<Rightarrow> (0, 0) | Some x \<Rightarrow> (1, - x))"

lemma find_unique_Some: "find_unique p rows = Some r \<Longrightarrow> r \<in> set rows \<and> p r"
  by (auto simp: find_unique_def find_Some_iff)

lemma find_unique_None: "find_unique p rows = None \<longleftrightarrow> (\<forall>r \<in> set rows. \<not> p r)"
  by (auto simp: find_unique_def find_None_iff)

lemma set_find_many [simp]: "set (find_many k p rows) = {r \<in> set rows. p r}"
  by (simp add: find_many_def)

lemma sorted_find_many: "sorted (map k (find_many k p rows))"
  by (simp add: find_many_def)

lemma distinct_find_many: "distinct rows \<Longrightarrow> distinct (find_many k p rows)"
  by (simp add: find_many_def)

lemma find_first_Some:
  assumes "find_first k p rows = Some r"
  shows "r \<in> set rows" "p r" "\<And>r'. r' \<in> set rows \<Longrightarrow> p r' \<Longrightarrow> k r \<le> k r'"
proof -
  obtain rs where rs: "find_many k p rows = r # rs"
    using assms by (auto simp: find_first_def split: list.splits)
  then have "r \<in> set (find_many k p rows)" by simp
  then show "r \<in> set rows" "p r" by auto
  fix r' assume "r' \<in> set rows" "p r'"
  then have "r' \<in> set (r # rs)" using rs set_find_many [of k p rows] by auto
  moreover have "sorted (map k (r # rs))" using rs sorted_find_many [of k p rows] by simp
  ultimately show "k r \<le> k r'" by auto
qed

lemma find_first_None: "find_first k p rows = None \<longleftrightarrow> (\<forall>r \<in> set rows. \<not> p r)"
proof -
  have "find_many k p rows = [] \<longleftrightarrow> (\<forall>r \<in> set rows. \<not> p r)"
    by (metis (no_types, lifting) Collect_empty_eq empty_set set_empty set_find_many)
  then show ?thesis by (auto simp: find_first_def split: list.splits)
qed

section \<open>Writes\<close>

definition unique_violation :: "string \<Rightarrow> exn" where
  "unique_violation column = PrismaError ''P2002'' [column] ''Unique constraint failed''"

definition record_missing :: exn where
  "record_missing = PrismaError ''P2025'' [] ''Record to update not found''"

definition insert_unique ::
  "('r \<Rightarrow> 'r \<Rightarrow> exn option) \<Rightarrow> 'r \<Rightarrow> 'r list \<Rightarrow> exn + 'r list" where
  "insert_unique viol row rows =
     (case List.map_filter (viol row) rows of
        [] \<Rightarrow> Inr (rows @ [row])
      | e # _ \<Rightarrow> Inl e)"

definition update_unique ::
  "('r \<Rightarrow> 'r \<Rightarrow> exn option) \<Rightarrow> ('r \<Rightarrow> bool) \<Rightarrow> ('r \<Rightarrow> 'r) \<Rightarrow> 'r list \<Rightarrow> exn + 'r list" where
  "update_unique viol p g rows =
     (case find_unique p rows of
        None \<Rightarrow> Inl record_missing
      | Some r \<Rightarrow>
          (case List.map_filter (viol (g r)) (filter (\<lambda>r'. \<not> p r') rows) of
             [] \<Rightarrow> Inr (map (\<lambda>r'. if p r' then g r' else r') rows)
           | e # _ \<Rightarrow> Inl e))"

lemma map_filter_Nil: "List.map_filter f xs = [] \<longleftrightarrow> (\<forall>x \<in> set xs. f x = None)"
  by (induction xs) (auto simp: List.map_filter_simps split: option.splits)

lemma set_map_filter: "set (List.map_filter f xs) = {y. \<exists>x \<in> set xs. f x = Some y}"
  by (induction xs) (auto simp: List.map_filter_simps split: option.splits)

lemma insert_unique_Inl:
  "insert_unique viol row rows = Inl e \<Longrightarrow> \<exists>r \<in> set rows. viol row r = Some e"
proof -
  assume "insert_unique viol row rows = Inl e"
  then have "e \<in> set (List.map_filter (viol row) rows)"
    by (auto simp: insert_unique_def split: list.splits)
  then show ?thesis by (simp add: set_map_filter)
qed

lemma insert_unique_Inr:
  "insert_unique viol row rows = Inr rows' \<longleftrightarrow>
   (\<forall>r \<in> set rows. viol row r = None) \<and> rows' = rows @ [row]"
  by (auto simp: insert_unique_def map_filter_Nil [symmetric] split: list.splits)

lemma update_unique_Inr:
  "update_unique viol p g rows = Inr rows' \<longleftrightarrow>
   (\<exists>r. find_unique p rows = Some r \<and> (\<forall>r' \<in> set rows. \<not> p r' \<longrightarrow> viol (g r) r' = None)) \<and>
   rows' = map (\<lambda>r'. if p r' then g r' else r') rows"
proof -
  have none: "List.map_filter (viol (g r)) (filter (\<lambda>r'. \<not> p r') rows) = [] \<longleftrightarrow>
        (\<forall>r' \<in> set rows. \<not> p r' \<longrightarrow> viol (g r) r' = None)" for r
    by (auto simp: map_filter_Nil)
  show ?thesis
  proof (cases "find_unique p rows")
    case None
    then show ?thesis by (simp add: update_unique_def)
  next
    case (Some r)
    then show ?thesis using none [of r]
      by (cases "List.map_filter (viol (g r)) (filter (\<lambda>r'. \<not> p r') rows)")
        (auto simp: update_unique_def)
  qed
qed

section \<open>Unique columns\<close>

text \<open>A nullable column is unique when no two rows share a non-null value.\<close>

definition col_unique :: "('r \<Rightarrow> 'k option) \<Rightarrow> 'r list \<Rightarrow> bool" where
  "col_unique col rows = sorted_wrt (\<lambda>a b. col a = None \<or> col a \<noteq> col b) rows"

lemma col_unique_Nil [simp]: "col_unique col []"
  by (simp add: col_unique_def)

lemma col_unique_row:
  assumes "col_unique col rows" "a \<in> set rows" "b \<in> set rows" "col a = Some k" "col b = Some k"
  shows "a = b"
  using assms by (induction rows) (auto simp: col_unique_def)

lemma col_unique_distinct:
  assumes "col_unique col rows" "\<And>r. r \<in> set rows \<Longrightarrow> col r \<noteq> None"
  shows "distinct rows"
  using assms by (induction rows) (auto simp: col_unique_def)

lemma distinct_map_by_wrt: "distinct (map f rows) \<longleftrightarrow> sorted_wrt (\<lambda>a b. f a \<noteq> f b) rows"
  by (induction rows) auto

lemma col_unique_ids: "col_unique (\<lambda>r. Some (f r)) rows \<longleftrightarrow> distinct (map f rows)"
  by (simp add: col_unique_def distinct_map_by_wrt)

lemma distinct_map_find_many:
  "distinct (map f rows) \<Longrightarrow> distinct (map f (take n (find_many k p rows)))"
proof -
  assume "distinct (map f rows)"
  then have "distinct rows" "inj_on f (set rows)" by (simp_all add: distinct_map)
  then have "distinct (find_many k p rows)" "inj_on f (set (find_many k p rows))"
    by (simp_all add: find_many_def) (simp add: inj_on_def)
  then show ?thesis by (metis distinct_map distinct_take take_map)
qed

lemma find_unique_col:
  assumes "col_unique col rows" "r \<in> set rows" "col r = Some k"
  shows "find_unique (\<lambda>r. col r = Some k) rows = Some r"
proof (cases "find_unique (\<lambda>r. col r = Some k) rows")
  case None
  then show ?thesis using assms by (simp add: find_unique_None)
next
  case (Some r')
  then show ?thesis using find_unique_Some [OF Some] col_unique_row [OF assms(1)] assms(2,3) by blast
qed

lemma col_unique_map:
  assumes "\<And>r. r \<in> set rows \<Longrightarrow> col (g r) = col r"
  shows "col_unique col (map g rows) = col_unique col rows"
proof -
  have "sorted_wrt (\<lambda>a b. col (g a) = None \<or> col (g a) \<noteq> col (g b)) rows
      = sorted_wrt (\<lambda>a b. col a = None \<or> col a \<noteq> col b) rows"
    using assms by (induction rows) auto
  then show ?thesis by (simp add: col_unique_def sorted_wrt_map)
qed

text \<open>
  The contract of a unique column: the table's constraint check refuses a row that repeats a
  value. What follows holds for every such column of every table.
\<close>

locale unique_column =
  fixes col :: "'r \<Rightarrow> 'k option" and viol :: "'r \<Rightarrow> 'r \<Rightarrow> exn option"
  assumes viol_sound: "viol r r' = None \<Longrightarrow> col r = Some k \<Longrightarrow> col r' \<noteq> Some k"
begin

lemma viol_col: "viol r r' = None \<Longrightarrow> col r = None \<or> col r \<noteq> col r'"
  using viol_sound [of r r'] by (metis not_None_eq)

lemma insert_keeps_unique:
  assumes "insert_unique viol row rows = Inr rows'" "col_unique col rows"
  shows "col_unique col rows'"
proof -
  have rows': "rows' = rows @ [row]" and "\<And>r. r \<in> set rows \<Longrightarrow> viol row r = None"
    using assms(1) by (auto simp: insert_unique_Inr)
  then have "\<And>r. r \<in> set rows \<Longrightarrow> col r = None \<or> col r \<noteq> col row"
    using viol_col by metis
  then show ?thesis using assms(2) by (simp add: rows' col_unique_def sorted_wrt_append)
qed

lemma update_keeps_unique:
  assumes upd: "update_unique viol p g rows = Inr rows'" and uniq: "col_unique col rows"
    and one: "\<And>a b. a \<in> set rows \<Longrightarrow> b \<in> set rows \<Longrightarrow> p a \<Longrightarrow> p b \<Longrightarrow> a = b"
    and single: "sorted_wrt (\<lambda>a b. \<not> (p a \<and> p b)) rows"
  shows "col_unique col rows'"
proof -
  let ?g = "\<lambda>r'. if p r' then g r' else r'"
  let ?R = "\<lambda>a b. col a = None \<or> col a \<noteq> col b"
  obtain r where r: "r \<in> set rows" "p r" "\<And>r'. r' \<in> set rows \<Longrightarrow> \<not> p r' \<Longrightarrow> viol (g r) r' = None"
    and rows': "rows' = map ?g rows"
    using upd find_unique_Some by (fastforce simp: update_unique_Inr)
  have new: "?R (g a) b" "?R b (g a)" if "a \<in> set rows" "p a" "b \<in> set rows" "\<not> p b" for a b
    using viol_col [of "g r" b] r(3) [of b] one [of a r] that r(1,2) by auto
  have "sorted_wrt (\<lambda>a b. ?R a b \<and> \<not> (p a \<and> p b)) rows"
    using uniq single by (simp add: col_unique_def sorted_wrt_iff_nth_less)
  then have "sorted_wrt (\<lambda>a b. ?R (?g a) (?g b)) rows"
    by (rule sorted_wrt_mono_rel [rotated]) (use new in auto)
  then show ?thesis by (simp add: rows' col_unique_def sorted_wrt_map)
qed

lemma update_by_col_keeps_unique:
  assumes "update_unique viol (\<lambda>r. c r = Some k) g rows = Inr rows'"
    and "col_unique col rows" "col_unique c rows"
  shows "col_unique col rows'"
proof (rule update_keeps_unique [OF assms(1,2)])
  show "a = b" if "a \<in> set rows" "b \<in> set rows" "c a = Some k" "c b = Some k" for a b
    using col_unique_row [OF assms(3)] that by blast
  show "sorted_wrt (\<lambda>a b. \<not> (c a = Some k \<and> c b = Some k)) rows"
    using assms(3) unfolding col_unique_def by (rule sorted_wrt_mono_rel [rotated]) auto
qed

end

end
