(* ===== verification/JsNumber.thy ===== *)
theory JsNumber
  imports Complex_Main Prelude
begin

text \<open>
  The JavaScript numbers the code computes with. Counts, cents and milliseconds are
  integers of at most 53 bits, which IEEE-754 binary64 represents exactly, and are
  modelled as \<open>int\<close>. Where the code divides (quota percentage, overage units, token refill)
  the result is a rational, and every operation rounds to the nearest double, ties to even:
  \<open>dbl\<close> is this rounding, as an executable function on \<open>rat\<close>. The exponent range is not
  bounded: infinities, NaN and subnormal numbers are outside the model.
\<close>

section \<open>Binary exponent\<close>

fun lg :: "nat \<Rightarrow> nat" where
  "lg n = (if n < 2 then 0 else Suc (lg (n div 2)))"

declare lg.simps [simp del]

lemma lg_bounds: "0 < n \<Longrightarrow> 2 ^ lg n \<le> n \<and> n < 2 ^ Suc (lg n)"
proof (induction n rule: lg.induct)
  case (1 n)
  show ?case
  proof (cases "n < 2")
    case True
    with 1 show ?thesis by (simp add: lg.simps [of n])
  next
    case False
    then have "2 ^ lg (n div 2) \<le> n div 2 \<and> n div 2 < 2 ^ Suc (lg (n div 2))"
      using 1 by simp
    then show ?thesis using False by (simp add: lg.simps [of n]) linarith
  qed
qed

definition pow2 :: "int \<Rightarrow> rat" where
  "pow2 k = (if 0 \<le> k then 2 ^ nat k else 1 / 2 ^ nat (- k))"

definition expo :: "rat \<Rightarrow> int" where
  "expo x = (if 1 \<le> x then int (lg (nat \<lfloor>x\<rfloor>)) else - int (lg (nat \<lceil>1 / x\<rceil> - 1)) - 1)"

lemma pow2_powi: "pow2 k = 2 powi k"
  by (simp add: pow2_def power_int_def divide_simps)

lemma pow2_pos [simp]: "0 < pow2 k"
  by (simp add: pow2_def)

lemma pow2_nonneg [simp]: "0 \<le> pow2 k"
  by (simp add: less_imp_le)

lemma pow2_nonzero [simp]: "pow2 k \<noteq> 0"
  by (simp add: pow2_def)

lemma pow2_add: "pow2 (a + b) = pow2 a * pow2 b"
  by (simp add: pow2_powi power_int_add)

lemma pow2_diff: "pow2 (a - b) = pow2 a / pow2 b"
  by (simp add: pow2_powi power_int_diff)

lemma pow2_mono: "a \<le> b \<Longrightarrow> pow2 a \<le> pow2 b"
  by (simp add: pow2_powi power_int_increasing)

lemma pow2_strict_mono: "a < b \<Longrightarrow> pow2 a < pow2 b"
  by (simp add: pow2_powi power_int_strict_increasing)

lemma pow2_less_iff: "pow2 a < pow2 b \<longleftrightarrow> a < b"
  using pow2_mono [of b a] pow2_strict_mono [of a b] by (auto simp: not_less [symmetric])

lemma pow2_nat: "0 \<le> k \<Longrightarrow> pow2 k = of_int (2 ^ nat k)"
  by (simp add: pow2_def)

lemma lg_floor:
  assumes "1 \<le> (x :: rat)"
  shows "2 ^ lg (nat \<lfloor>x\<rfloor>) \<le> x \<and> x < 2 ^ Suc (lg (nat \<lfloor>x\<rfloor>))"
proof -
  define n where "n = nat \<lfloor>x\<rfloor>"
  have n: "of_nat n = (of_int \<lfloor>x\<rfloor> :: rat)" "0 < n"
    using assms by (auto simp: n_def le_floor_iff)
  have "(2 ^ lg n :: rat) \<le> of_nat n" "of_nat n + 1 \<le> (2 ^ Suc (lg n) :: rat)"
    using lg_bounds [OF n(2)]
    by (metis numeral_power_le_of_nat_cancel_iff,
        metis Suc_leI of_nat_Suc of_nat_le_numeral_power_cancel_iff add.commute)
  then show ?thesis using n(1) floor_correct [of x] unfolding n_def by linarith
qed

lemma lg_ceil:
  assumes "0 < (x :: rat)" "x < 1"
  defines "j \<equiv> lg (nat \<lceil>1 / x\<rceil> - 1)"
  shows "2 ^ j < 1 / x \<and> 1 / x \<le> 2 ^ Suc j"
proof -
  define m where "m = nat \<lceil>1 / x\<rceil>"
  have "1 < 1 / x" using assms by simp
  then have "1 < \<lceil>1 / x\<rceil>" by (simp add: less_ceiling_iff)
  then have m: "(of_nat m :: rat) = of_int \<lceil>1 / x\<rceil>" "1 < m" by (auto simp: m_def)
  then have b: "2 ^ j \<le> m - 1" "m - 1 < 2 ^ Suc j"
    using lg_bounds [of "m - 1"] unfolding j_def m_def by auto
  have "(2 ^ j :: rat) \<le> of_nat (m - 1)"
    using b(1) by (metis numeral_power_le_of_nat_cancel_iff)
  moreover have "of_nat m \<le> (2 ^ Suc j :: rat)"
    using b(2) m(2) by (metis Suc_diff_1 Suc_leI of_nat_le_numeral_power_cancel_iff
        less_trans zero_less_one)
  moreover have "(of_nat (m - 1) :: rat) = of_nat m - 1" using m(2) by (simp add: of_nat_diff)
  ultimately show ?thesis using m(1) ceiling_correct [of "1 / x"] by linarith
qed

lemma expo_bounds:
  assumes "0 < x"
  shows "pow2 (expo x) \<le> x \<and> x < pow2 (expo x + 1)"
proof (cases "1 \<le> x")
  case True
  then show ?thesis
    using lg_floor [OF True] True by (simp add: expo_def pow2_def nat_add_distrib)
next
  case False
  then have x: "0 < x" "x < 1" using assms by auto
  define j where "j = lg (nat \<lceil>1 / x\<rceil> - 1)"
  have e: "expo x = - int (Suc j)" using False by (simp add: expo_def j_def)
  have "pow2 (expo x) = 1 / 2 ^ Suc j" unfolding e by (simp add: pow2_def del: of_nat_Suc)
  moreover have "pow2 (expo x + 1) = 1 / 2 ^ j"
    unfolding e by (cases "j = 0") (auto simp: pow2_def)
  moreover have "1 / 2 ^ Suc j \<le> x" "x < 1 / 2 ^ j"
    using lg_ceil [OF x] x unfolding j_def [symmetric] by (simp_all add: field_simps)
  ultimately show ?thesis by simp
qed

lemma expo_unique: "0 < x \<Longrightarrow> pow2 k \<le> x \<Longrightarrow> x < pow2 (k + 1) \<Longrightarrow> expo x = k"
  using expo_bounds [of x] pow2_less_iff [of k "expo x + 1"] pow2_less_iff [of "expo x" "k + 1"]
  by linarith

section \<open>Round to nearest, ties to even\<close>

definition rne :: "rat \<Rightarrow> int" where
  "rne x = (let n = \<lfloor>x\<rfloor>; r = x - of_int n in
     if r < 1 / 2 then n else if 1 / 2 < r then n + 1 else if even n then n else n + 1)"

lemma rne_of_int [simp]: "rne (of_int n) = n"
  by (simp add: rne_def)

lemma rne_error: "\<bar>of_int (rne x) - x\<bar> \<le> 1 / 2"
  using floor_correct [of x] by (auto simp: rne_def Let_def abs_le_iff)

lemma rne_mono:
  assumes "x \<le> y"
  shows "rne x \<le> rne y"
proof (cases "\<lfloor>x\<rfloor> = \<lfloor>y\<rfloor>")
  case True
  then show ?thesis using assms by (auto simp: rne_def Let_def)
next
  case False
  then have "\<lfloor>x\<rfloor> + 1 \<le> \<lfloor>y\<rfloor>" using floor_mono [OF assms] by linarith
  moreover have "rne x \<le> \<lfloor>x\<rfloor> + 1" "\<lfloor>y\<rfloor> \<le> rne y" by (auto simp: rne_def Let_def)
  ultimately show ?thesis by linarith
qed

lemma rne_le: "x \<le> of_int n \<Longrightarrow> rne x \<le> n"
  using rne_mono [of x "of_int n"] by simp

lemma rne_ge: "of_int n \<le> x \<Longrightarrow> n \<le> rne x"
  using rne_mono [of "of_int n" x] by simp

section \<open>Rounding to a double\<close>

text \<open>The unit in the last place of \<open>x\<close>: binary64 keeps 53 significant bits.\<close>

definition ulp :: "rat \<Rightarrow> rat" where
  "ulp x = pow2 (expo x - 52)"

definition dbl_pos :: "rat \<Rightarrow> rat" where
  "dbl_pos x = of_int (rne (x / ulp x)) * ulp x"

definition dbl :: "rat \<Rightarrow> rat" where
  "dbl x = (if x = 0 then 0 else if x < 0 then - dbl_pos (- x) else dbl_pos x)"

lemma ulp_pos [simp]: "0 < ulp x"
  by (simp add: ulp_def)

lemma ulp_nonzero [simp]: "ulp x \<noteq> 0"
  by (simp add: ulp_def)

lemma ulp_nonneg [simp]: "0 \<le> ulp x"
  by (simp add: less_imp_le)

lemma ulp_significand:
  "of_int (2 ^ 52) * ulp x = pow2 (expo x)" "of_int (2 ^ 53) * ulp x = pow2 (expo x + 1)"
  using pow2_add [of 52 "expo x - 52"] pow2_add [of 53 "expo x - 52"]
  by (simp_all add: ulp_def pow2_def [of 52] pow2_def [of 53] add.commute)

lemma ulp_scaled:
  assumes "0 < x"
  shows "of_int (2 ^ 52) \<le> x / ulp x \<and> x / ulp x < of_int (2 ^ 53)"
  using expo_bounds [OF assms] unfolding ulp_significand [symmetric]
  by (simp add: pos_le_divide_eq pos_divide_less_eq)

lemma dbl_pos_bounds:
  assumes "0 < x"
  shows "pow2 (expo x) \<le> dbl_pos x \<and> dbl_pos x \<le> pow2 (expo x + 1)"
proof -
  let ?r = "rne (x / ulp x)"
  have r: "2 ^ 52 \<le> ?r" "?r \<le> 2 ^ 53"
    using ulp_scaled [OF assms] by (auto intro: rne_ge rne_le)
  have "of_int (2 ^ 52) * ulp x \<le> dbl_pos x" "dbl_pos x \<le> of_int (2 ^ 53) * ulp x"
    unfolding dbl_pos_def using r by (intro mult_right_mono; simp only: of_int_le_iff ulp_nonneg)+
  then show ?thesis unfolding ulp_significand by simp
qed

lemma dbl_pos_positive: "0 < x \<Longrightarrow> 0 < dbl_pos x"
  using dbl_pos_bounds [of x] pow2_pos [of "expo x"] by linarith

lemma expo_mono:
  assumes "0 < x" "x \<le> y"
  shows "expo x \<le> expo y"
proof -
  have "pow2 (expo x) < pow2 (expo y + 1)"
    using expo_bounds [of x] expo_bounds [of y] assms by linarith
  then show ?thesis by (simp add: pow2_less_iff)
qed

lemma dbl_pos_mono:
  assumes "0 < x" "x \<le> y"
  shows "dbl_pos x \<le> dbl_pos y"
proof (cases "expo x = expo y")
  case True
  then have u: "ulp x = ulp y" by (simp add: ulp_def)
  have "x / ulp y \<le> y / ulp y" using assms by (simp add: divide_right_mono less_imp_le)
  then have "rne (x / ulp y) \<le> rne (y / ulp y)" by (rule rne_mono)
  then show ?thesis unfolding dbl_pos_def u by (intro mult_right_mono) (auto intro: less_imp_le)
next
  case False
  with expo_mono [OF assms] have "pow2 (expo x + 1) \<le> pow2 (expo y)" by (intro pow2_mono) simp
  then show ?thesis
    using dbl_pos_bounds [of x] dbl_pos_bounds [of y] assms by linarith
qed

lemma dbl_zero [simp]: "dbl 0 = 0"
  by (simp add: dbl_def)

lemma dbl_nonneg: "0 \<le> x \<Longrightarrow> 0 \<le> dbl x"
  using dbl_pos_positive [of x] by (cases "x = 0") (simp_all add: dbl_def less_imp_le)

lemma dbl_mono: "x \<le> y \<Longrightarrow> dbl x \<le> dbl y"
  using dbl_pos_mono [of x y] dbl_pos_mono [of "- y" "- x"] dbl_pos_positive [of y]
    dbl_pos_positive [of "- x"]
  by (auto simp: dbl_def)

text \<open>
  A rational is a double when rounding leaves it alone; equivalently its significand fits in
  53 bits.
\<close>

definition is_double :: "rat \<Rightarrow> bool" where
  "is_double x \<longleftrightarrow> dbl x = x"

definition fits53 :: "rat \<Rightarrow> bool" where
  "fits53 x \<longleftrightarrow> (\<exists>m k. x = of_int m * pow2 k \<and> \<bar>m\<bar> \<le> 2 ^ 53)"

lemma dbl_pos_exact_strict:
  assumes "0 < x" and x: "x = of_int m * pow2 k" and m: "m < 2 ^ 53"
  shows "dbl_pos x = x"
proof -
  have "pow2 (expo x) \<le> x" using expo_bounds [OF assms(1)] by simp
  also have "x < of_int (2 ^ 53) * pow2 k" unfolding x using m by (intro mult_strict_right_mono) (simp_all only: of_int_less_iff pow2_pos)
  also have "\<dots> = pow2 (53 + k)" by (simp add: pow2_add pow2_def [of 53])
  finally have e: "expo x - 52 \<le> k" by (simp add: pow2_less_iff)
  have "x / ulp x = of_int m * pow2 (k - (expo x - 52))"
    by (subst (1) x) (simp add: ulp_def pow2_diff)
  also have "\<dots> = of_int (m * 2 ^ nat (k - (expo x - 52)))"
    using e by (simp add: pow2_def)
  finally have scaled: "x / ulp x = of_int (m * 2 ^ nat (k - (expo x - 52)))" .
  have "of_int (rne (x / ulp x)) = x / ulp x" unfolding scaled by (simp only: rne_of_int)
  then show ?thesis by (simp add: dbl_pos_def)
qed

lemma dbl_pos_exact:
  assumes "0 < x" "x = of_int m * pow2 k" "m \<le> 2 ^ 53"
  shows "dbl_pos x = x"
proof (cases "m = 2 ^ 53")
  case True
  have "x = of_int (2 ^ 52) * pow2 (k + 1)"
    using assms(2) True by (simp add: pow2_add pow2_def [of 1])
  then show ?thesis by (rule dbl_pos_exact_strict [OF assms(1)]) simp
next
  case False
  then show ?thesis using assms by (intro dbl_pos_exact_strict) auto
qed

lemma dbl_exact: "fits53 x \<Longrightarrow> dbl x = x"
proof -
  assume "fits53 x"
  then obtain m k where x: "x = of_int m * pow2 k" "\<bar>m\<bar> \<le> 2 ^ 53" by (auto simp: fits53_def)
  have "0 < x \<Longrightarrow> dbl_pos x = x" using x by (intro dbl_pos_exact [of _ m k]) auto
  moreover have "0 < - x \<Longrightarrow> dbl_pos (- x) = - x"
    using x by (intro dbl_pos_exact [of _ "- m" k]) auto
  ultimately show ?thesis by (auto simp: dbl_def)
qed

lemma fits53_of_int: "\<bar>n\<bar> \<le> 2 ^ 53 \<Longrightarrow> fits53 (of_int n)"
  unfolding fits53_def by (rule exI [of _ n], rule exI [of _ 0]) (simp add: pow2_def)

lemma dbl_of_int: "\<bar>n\<bar> \<le> 2 ^ 53 \<Longrightarrow> dbl (of_int n) = of_int n"
  by (simp add: dbl_exact fits53_of_int)

lemma dbl_numeral [simp]: "(numeral k :: int) \<le> 2 ^ 53 \<Longrightarrow> dbl (numeral k) = numeral k"
  using dbl_of_int [of "numeral k"] by simp

lemma dbl_one [simp]: "dbl 1 = 1"
  using dbl_of_int [of 1] by simp

lemma dbl_fits53: "fits53 (dbl x)"
proof -
  have pos: "fits53 (dbl_pos y)" if "0 < y" for y
  proof -
    have "0 \<le> rne (y / ulp y)" "rne (y / ulp y) \<le> 2 ^ 53"
      using ulp_scaled [OF that] that by (auto intro: rne_le rne_ge)
    then show ?thesis unfolding fits53_def dbl_pos_def ulp_def
      by (intro exI [of _ "rne (y / pow2 (expo y - 52))"] exI [of _ "expo y - 52"]) (simp add: ulp_def)
  qed
  have neg: "fits53 (- z)" if "fits53 z" for z
  proof -
    from that obtain m k where "z = of_int m * pow2 k" "\<bar>m\<bar> \<le> 2 ^ 53" by (auto simp: fits53_def)
    then show ?thesis unfolding fits53_def by (intro exI [of _ "- m"] exI [of _ k]) simp
  qed
  have "fits53 0" using fits53_of_int [of 0] by simp
  then show ?thesis using pos [of x] pos [of "- x"] neg by (auto simp: dbl_def)
qed

lemma is_double_iff: "is_double x \<longleftrightarrow> fits53 x"
  using dbl_exact dbl_fits53 [of x] by (auto simp: is_double_def)

lemma dbl_dbl [simp]: "dbl (dbl x) = dbl x"
  by (rule dbl_exact [OF dbl_fits53])

lemma is_double_dbl [simp]: "is_double (dbl x)"
  by (simp add: is_double_def)

lemma dbl_le_int: "x \<le> of_int n \<Longrightarrow> \<bar>n\<bar> \<le> 2 ^ 53 \<Longrightarrow> dbl x \<le> of_int n"
  using dbl_mono [of x "of_int n"] by (simp add: dbl_of_int)

lemma dbl_ge_int: "of_int n \<le> x \<Longrightarrow> \<bar>n\<bar> \<le> 2 ^ 53 \<Longrightarrow> of_int n \<le> dbl x"
  using dbl_mono [of "of_int n" x] by (simp add: dbl_of_int)

section \<open>Rounding error\<close>

lemma dbl_error:
  assumes "0 < x"
  shows "\<bar>dbl x - x\<bar> \<le> x / 2 ^ 53"
proof -
  have d: "dbl x - x = (of_int (rne (x / ulp x)) - x / ulp x) * ulp x"
    using assms by (simp add: dbl_def dbl_pos_def left_diff_distrib)
  have "\<bar>dbl x - x\<bar> = \<bar>of_int (rne (x / ulp x)) - x / ulp x\<bar> * ulp x"
    unfolding d by (simp add: abs_mult)
  also have "\<dots> \<le> 1 / 2 * ulp x" by (intro mult_right_mono rne_error ulp_nonneg)
  also have "\<dots> \<le> x / 2 ^ 53"
    using expo_bounds [OF assms] unfolding ulp_significand(1) [symmetric] by simp
  finally show ?thesis .
qed

text \<open>Subtracting a smaller integer from a double below \<open>2 ^ 53\<close> is exact.\<close>

lemma dbl_sub_int_exact:
  assumes t: "is_double t" and n: "0 \<le> n" "of_int n \<le> t" "t \<le> 2 ^ 53"
  shows "dbl (t - of_int n) = t - of_int n"
proof -
  from t obtain m k where tk: "t = of_int m * pow2 k" "\<bar>m\<bar> \<le> 2 ^ 53"
    by (auto simp: is_double_iff fits53_def)
  show ?thesis
  proof (cases "0 \<le> k")
    case True
    define i where "i = m * 2 ^ nat k"
    have ti: "t = of_int i" using True by (simp add: tk i_def pow2_def)
    have "i \<le> 2 ^ 53" using n(3) unfolding ti by (metis of_int_le_numeral_power_cancel_iff)
    then have "\<bar>i - n\<bar> \<le> 2 ^ 53" using n(1,2) unfolding ti by simp
    then show ?thesis unfolding ti by (metis dbl_of_int of_int_diff)
  next
    case False
    define q where "q = m - n * 2 ^ nat (- k)"
    have q: "t - of_int n = of_int q * pow2 k"
      using False by (simp add: tk q_def pow2_def diff_divide_distrib)
    have "0 \<le> of_int q * pow2 k" using n(2) q by simp
    then have "0 \<le> q" using pow2_pos [of k] by (simp add: zero_le_mult_iff not_le)
    moreover have "q \<le> m" using n(1) by (simp add: q_def)
    ultimately have "fits53 (t - of_int n)"
      using tk(2) unfolding fits53_def q by (intro exI [of _ q] exI [of _ k]) auto
    then show ?thesis by (rule dbl_exact)
  qed
qed

section \<open>Quotients of integers\<close>

text \<open>
  \<open>Math.ceil(a / b)\<close> on integers: the division rounds to a double, but for a dividend below
  \<open>2 ^ 53\<close> never across an integer, so the result is the exact ceiling.
\<close>

definition js_ceil_div :: "int \<Rightarrow> int \<Rightarrow> int" where
  "js_ceil_div a b = \<lceil>dbl (of_int a / of_int b)\<rceil>"

lemma js_ceil_div_exact:
  assumes a: "0 \<le> a" "a < 2 ^ 53" and b: "0 < b"
  shows "js_ceil_div a b = \<lceil>of_int a / (of_int b :: rat)\<rceil>"
proof (cases "a = 0")
  case True
  then show ?thesis by (simp add: js_ceil_div_def)
next
  case False
  define x where "x = (of_int a / of_int b :: rat)"
  define n where "n = \<lceil>x\<rceil>"
  have x: "0 < x" using a b False by (simp add: x_def)
  have xa: "x \<le> of_int a" using a b by (simp add: x_def divide_le_eq mult_le_cancel_left1)
  have n: "0 < n" "n \<le> a" "of_int n - 1 < x" "x \<le> of_int n"
    using x xa ceiling_correct [of x] by (auto simp: n_def ceiling_le_iff)
  have up: "dbl x \<le> of_int n" using n a by (intro dbl_le_int) auto
  have b': "(0 :: rat) < of_int b" using b by simp
  have "of_int (b * (n - 1)) < (of_int a :: rat)"
    using n(3) b' by (simp add: x_def less_divide_eq mult.commute)
  then have "b * (n - 1) + 1 \<le> a" by (simp only: of_int_less_iff zless_imp_add1_zle)
  then have "of_int (b * (n - 1) + 1) \<le> (of_int a :: rat)" by (simp only: of_int_le_iff)
  then have "(of_int n - 1) * of_int b + 1 \<le> (of_int a :: rat)" by (simp add: mult.commute)
  then have "((of_int n - 1) * of_int b + 1) / of_int b \<le> x"
    unfolding x_def using b' by (simp only: divide_right_mono less_imp_le)
  then have step: "of_int n - 1 + 1 / of_int b \<le> x" using b' by (simp add: add_divide_distrib)
  have "(of_int a :: rat) < 2 ^ 53" using a(2) by (metis of_int_less_numeral_power_cancel_iff)
  then have "of_int a / 2 ^ 53 / of_int b < 1 / (of_int b :: rat)"
    using b' by (intro divide_strict_right_mono) auto
  then have "x / 2 ^ 53 < 1 / of_int b" by (simp add: x_def)
  then have "of_int n - 1 < dbl x" using dbl_error [OF x] step by linarith
  with up show ?thesis unfolding js_ceil_div_def x_def [symmetric] n_def [symmetric]
    by (intro ceiling_unique)
qed

lemma js_ceil_div_bounds:
  assumes "0 \<le> a" "a < 2 ^ 53" "0 < b"
  shows "a \<le> js_ceil_div a b * b \<and> js_ceil_div a b * b < a + b"
proof -
  let ?q = "of_int a / (of_int b :: rat)"
  have b': "(0 :: rat) < of_int b" using assms(3) by simp
  have "?q \<le> of_int \<lceil>?q\<rceil>" "of_int \<lceil>?q\<rceil> < ?q + 1" using ceiling_correct [of ?q] by auto
  then have "?q * of_int b \<le> of_int \<lceil>?q\<rceil> * of_int b" "of_int \<lceil>?q\<rceil> * of_int b < (?q + 1) * of_int b"
    using b' by (intro mult_right_mono mult_strict_right_mono; simp)+
  then have "(of_int a :: rat) \<le> of_int (\<lceil>?q\<rceil> * b)" "(of_int (\<lceil>?q\<rceil> * b) :: rat) < of_int (a + b)"
    using b' by (simp_all add: distrib_right del: ceiling_le_iff le_of_int_ceiling)
  then show ?thesis unfolding js_ceil_div_exact [OF assms] of_int_le_iff of_int_less_iff by simp
qed

end
