(* ===== verification/Schema.thy ===== *)
theory Schema
  imports Tables JsNumber
begin

text \<open>
  The data model of \<open>prisma/schema.prisma\<close>: the enums as datatypes, one record per table
  (columns under a table prefix, a nullable column as an \<open>option\<close>) and the database as the
  record of its tables. Row ids of tables whose rows are never looked up by id (usage records,
  daily aggregates) and the \<open>updatedAt\<close> columns no query reads are left out. Identifiers and
  texts are \<open>string\<close>, \<open>DateTime\<close> is a \<^typ>\<open>date\<close>, \<open>Int\<close> is an \<^typ>\<open>int\<close> that the
  database refuses outside 32 bits.
\<close>

section \<open>Enumerations\<close>

datatype role = BUYER | SELLER | ADMIN
datatype product_status = PDraft | PPublished | PHidden
datatype version_status = VDraft | VPublished
datatype plan_period = MONTH
datatype subscription_status = PENDING | ACTIVE | CANCELED | PAST_DUE
datatype invoice_status = IDraft | IPaid | IPastDue | IVoid
datatype invoice_kind = SUBSCRIPTION | OVERAGE
datatype billing_provider = MOCK | STRIPE
datatype job_status = JPending | JFailed | JProcessed

section \<open>Rows\<close>

record user_row =
  usr_id :: string
  usr_email :: string
  usr_role :: role
  usr_stripe_customer :: "string option"
  usr_password :: string
  usr_created :: date

record refresh_token_row =
  rt_id :: string
  rt_user :: string
  rt_hash :: string
  rt_expires :: date

record product_row =
  prod_id :: string
  prod_owner :: string
  prod_title :: string
  prod_status :: product_status
  prod_created :: date
  prod_description :: string
  prod_category :: string
  prod_tags :: "string list"
  prod_updated :: date

record version_row =
  ver_id :: string
  ver_product :: string
  ver_version :: string
  ver_status :: version_status
  ver_openapi_url :: string
  ver_openapi_snapshot :: "string option"
  ver_created :: date
  ver_fetched :: "date option"

record plan_row =
  plan_id :: string
  plan_product :: string
  plan_name :: string
  plan_price_cents :: int
  plan_currency :: string
  plan_per :: plan_period
  plan_quota :: int
  plan_rpm :: "int option"
  plan_allow_overage :: bool
  plan_overage_unit :: "int option"
  plan_overage_price :: "int option"
  plan_active :: bool
  plan_created :: date

record sub_row =
  sub_id :: string
  sub_user :: string
  sub_plan :: string
  sub_provider :: billing_provider
  sub_external :: "string option"
  sub_status :: subscription_status
  sub_start :: "date option"
  sub_end :: "date option"
  sub_grace :: "date option"
  sub_cancel :: bool
  sub_created :: date
  sub_updated :: date

record managed_retry_state =
  mr_count :: int
  mr_next :: "date option"
  mr_last :: "date option"
  mr_exhausted :: "date option"
  mr_error :: "string option"

record invoice_row =
  inv_id :: string
  inv_sub :: string
  inv_provider :: billing_provider
  inv_kind :: invoice_kind
  inv_session :: "string option"
  inv_external :: "string option"
  inv_source :: "string option"
  inv_processed :: "date option"
  inv_overage_requests :: "int option"
  inv_overage_units :: "int option"
  inv_amount :: int
  inv_currency :: string
  inv_status :: invoice_status
  inv_attempts :: int
  inv_next_attempt :: "date option"
  inv_retry :: managed_retry_state
  inv_start :: date
  inv_end :: date
  inv_created :: date

record lease_row =
  lease_name :: string
  lease_owner :: string
  lease_expires :: date

record api_key_row =
  key_id :: string
  key_user :: string
  key_hash :: string
  key_active :: bool
  key_revoked :: "date option"
  key_label :: string
  key_created :: date

record usage_row =
  ur_sub :: string
  ur_job :: "string option"
  ur_aggregated :: "date option"
  ur_at :: date
  ur_endpoint :: string
  ur_count :: int

record job_row =
  job_id :: string
  job_sub :: string
  job_at :: date
  job_endpoint :: string
  job_count :: int
  job_stat :: job_status
  job_attempts :: int
  job_available :: date
  job_processed :: "date option"
  job_error :: "string option"
  job_created :: date

record daily_row =
  da_sub :: string
  da_bucket :: date
  da_count :: int

record endpoint_row =
  ea_sub :: string
  ea_bucket :: date
  ea_endpoint :: string
  ea_count :: int

record bucket_row =
  bk_key :: string
  bk_tokens :: rat
  bk_refill :: date

text \<open>The JSON values of the \<open>details\<close> columns: objects of numbers, texts and truth values.\<close>

datatype scalar = SNum int | SStr string | SBool bool | SNull

record audit_row =
  log_request :: "string option"
  log_actor :: "(string \<times> string \<times> role) option"
  log_action :: string
  log_resource :: string
  log_resource_id :: string
  log_details :: "(string \<times> scalar) list"
  log_created :: date

record alert_row =
  al_kind :: string
  al_fingerprint :: string
  al_severity :: string
  al_title :: string
  al_message :: string
  al_details :: "(string \<times> scalar) list option"
  al_first :: date
  al_last :: date
  al_resolved :: "date option"
  al_delivered :: "date option"
  al_attempt :: "date option"
  al_count :: int
  al_failures :: int
  al_error :: "string option"
  al_updated :: date

record target_row =
  tg_kind :: string
  tg_key :: string
  tg_fingerprint :: string
  tg_resolved :: "date option"
  tg_delivered :: "date option"
  tg_attempt :: "date option"
  tg_count :: int
  tg_failures :: int
  tg_error :: "string option"
  tg_updated :: date

record metrics_snapshot =
  ms_pending :: int
  ms_failed :: int
  ms_oldest_age :: int
  ms_usage_lease :: bool
  ms_usage_expiry :: int
  ms_reconciliation_lease :: bool
  ms_reconciliation_expiry :: int
  ms_overage_lease :: bool
  ms_overage_expiry :: int
  ms_past_due :: int
  ms_audit_logs :: int

record point_row =
  pt_at :: date
  pt_metrics :: metrics_snapshot

record view_row =
  pv_product :: string
  pv_viewer :: "string option"
  pv_at :: date

record db =
  users :: "user_row list"
  products :: "product_row list"
  versions :: "version_row list"
  plans :: "plan_row list"
  subs :: "sub_row list"
  invoices :: "invoice_row list"
  leases :: "lease_row list"
  api_keys :: "api_key_row list"
  usages :: "usage_row list"
  jobs :: "job_row list"
  dailies :: "daily_row list"
  endpoints :: "endpoint_row list"
  buckets :: "bucket_row list"
  refresh_tokens :: "refresh_token_row list"
  product_views :: "view_row list"
  audit_logs :: "audit_row list"
  alert_states :: "alert_row list"
  target_states :: "target_row list"
  points :: "point_row list"

definition empty_db :: db where
  "empty_db = \<lparr>users = [], products = [], versions = [], plans = [], subs = [], invoices = [],
     leases = [], api_keys = [], usages = [], jobs = [], dailies = [], endpoints = [],
     buckets = [], refresh_tokens = [], product_views = [], audit_logs = [], alert_states = [],
     target_states = [], points = []\<rparr>"

text \<open>The caller of an authenticated request.\<close>

record auth_user =
  au_id :: string
  au_email :: string
  au_role :: role

section \<open>32-bit columns\<close>

text \<open>PostgreSQL refuses to store a value outside the range of an \<open>Int\<close> column.\<close>

definition int4_ok :: "int \<Rightarrow> bool" where
  "int4_ok n \<longleftrightarrow> - (2 ^ 31) \<le> n \<and> n < 2 ^ 31"

definition int4_overflow :: exn where
  "int4_overflow = PrismaError ''P2020'' [] ''Value out of range for the type''"

section \<open>Relations\<close>

definition plan_of :: "db \<Rightarrow> sub_row \<Rightarrow> plan_row option" where
  "plan_of d s = find_unique (\<lambda>p. plan_id p = sub_plan s) (plans d)"

definition product_of_plan :: "db \<Rightarrow> plan_row \<Rightarrow> product_row option" where
  "product_of_plan d p = find_unique (\<lambda>r. prod_id r = plan_product p) (products d)"

definition user_of :: "db \<Rightarrow> sub_row \<Rightarrow> user_row option" where
  "user_of d s = find_unique (\<lambda>u. usr_id u = sub_user s) (users d)"

definition sub_of :: "db \<Rightarrow> invoice_row \<Rightarrow> sub_row option" where
  "sub_of d i = find_unique (\<lambda>s. sub_id s = inv_sub i) (subs d)"

text \<open>
  A query that selects a required relation returns the row joined with it. The foreign keys of
  the schema make the relation present; a row without it is not in the join.
\<close>

definition sub_joins :: "db \<Rightarrow> (sub_row \<times> plan_row \<times> product_row) list" where
  "sub_joins d = List.map_filter (\<lambda>s. case plan_of d s of None \<Rightarrow> None
     | Some p \<Rightarrow> (case product_of_plan d p of None \<Rightarrow> None | Some r \<Rightarrow> Some (s, p, r))) (subs d)"

lemma sub_joins_iff:
  "(s, p, r) \<in> set (sub_joins d) \<longleftrightarrow>
   s \<in> set (subs d) \<and> plan_of d s = Some p \<and> product_of_plan d p = Some r"
  by (auto simp: sub_joins_def set_map_filter split: option.splits)

section \<open>Unique constraints\<close>

definition clash :: "('r \<Rightarrow> 'k option) \<Rightarrow> 'r \<Rightarrow> 'r \<Rightarrow> bool" where
  "clash col r r' \<longleftrightarrow> col r \<noteq> None \<and> col r = col r'"

definition sub_viol :: "sub_row \<Rightarrow> sub_row \<Rightarrow> exn option" where
  "sub_viol r r' =
     (if sub_id r = sub_id r' then Some (unique_violation ''id'')
      else if clash sub_external r r' then Some (unique_violation ''externalSubscriptionId'')
      else None)"

definition invoice_viol :: "invoice_row \<Rightarrow> invoice_row \<Rightarrow> exn option" where
  "invoice_viol r r' =
     (if inv_id r = inv_id r' then Some (unique_violation ''id'')
      else if clash inv_session r r' then Some (unique_violation ''externalCheckoutSessionId'')
      else if clash inv_external r r' then Some (unique_violation ''externalInvoiceId'')
      else if clash inv_source r r' then Some (unique_violation ''overageSourceInvoiceId'')
      else None)"

definition lease_viol :: "lease_row \<Rightarrow> lease_row \<Rightarrow> exn option" where
  "lease_viol r r' = (if lease_name r = lease_name r' then Some (unique_violation ''name'') else None)"

definition usage_viol :: "usage_row \<Rightarrow> usage_row \<Rightarrow> exn option" where
  "usage_viol r r' = (if clash ur_job r r' then Some (unique_violation ''sourceJobId'') else None)"

definition job_viol :: "job_row \<Rightarrow> job_row \<Rightarrow> exn option" where
  "job_viol r r' = (if job_id r = job_id r' then Some (unique_violation ''id'') else None)"

definition bucket_viol :: "bucket_row \<Rightarrow> bucket_row \<Rightarrow> exn option" where
  "bucket_viol r r' = (if bk_key r = bk_key r' then Some (unique_violation ''key'') else None)"

interpretation sub_ids: unique_column "\<lambda>r. Some (sub_id r)" sub_viol
  by unfold_locales (auto simp: sub_viol_def split: if_splits)

interpretation sub_externals: unique_column sub_external sub_viol
  by unfold_locales (auto simp: sub_viol_def clash_def split: if_splits)

interpretation invoice_ids: unique_column "\<lambda>r. Some (inv_id r)" invoice_viol
  by unfold_locales (auto simp: invoice_viol_def split: if_splits)

interpretation invoice_sessions: unique_column inv_session invoice_viol
  by unfold_locales (auto simp: invoice_viol_def clash_def split: if_splits)

interpretation invoice_externals: unique_column inv_external invoice_viol
  by unfold_locales (auto simp: invoice_viol_def clash_def split: if_splits)

interpretation invoice_sources: unique_column inv_source invoice_viol
  by unfold_locales (auto simp: invoice_viol_def clash_def split: if_splits)

interpretation lease_names: unique_column "\<lambda>r. Some (lease_name r)" lease_viol
  by unfold_locales (auto simp: lease_viol_def split: if_splits)

interpretation usage_jobs: unique_column ur_job usage_viol
  by unfold_locales (auto simp: usage_viol_def clash_def split: if_splits)

interpretation job_ids: unique_column "\<lambda>r. Some (job_id r)" job_viol
  by unfold_locales (auto simp: job_viol_def split: if_splits)

interpretation bucket_keys: unique_column "\<lambda>r. Some (bk_key r)" bucket_viol
  by unfold_locales (auto simp: bucket_viol_def split: if_splits)

section \<open>Configuration\<close>

text \<open>The getters of \<open>AppConfigService\<close> the modelled services read, by group.\<close>

record billing_config =
  payment_provider :: billing_provider
  grace_period_days :: int
  reconciliation_enabled :: bool
  reconciliation_interval :: int
  reconciliation_batch :: nat
  retry_enabled :: bool
  retry_interval :: int
  retry_batch :: nat
  retry_delays :: "int list"
  overage_enabled :: bool
  overage_interval :: int
  overage_batch :: nat

record usage_config =
  api_key_salt :: string
  ingest_secret :: string
  queue_enabled :: bool
  queue_interval :: int
  queue_batch :: nat

record gateway_config =
  upstream_timeout :: int
  burst_enabled :: bool
  burst_window :: int
  burst_multiplier :: rat
  burst_min :: int
  burst_max :: int
  request_limit :: int
  response_limit :: int

text \<open>What \<open>envSchema\<close> accepts for these settings.\<close>

definition valid_billing_env :: "billing_config \<Rightarrow> bool" where
  "valid_billing_env c \<longleftrightarrow> 0 \<le> grace_period_days c
     \<and> 0 < reconciliation_interval c \<and> 0 < reconciliation_batch c
     \<and> 0 < retry_interval c \<and> 0 < retry_batch c \<and> list_all (\<lambda>m. 0 < m) (retry_delays c)
     \<and> 0 < overage_interval c \<and> 0 < overage_batch c"

definition valid_usage_env :: "usage_config \<Rightarrow> bool" where
  "valid_usage_env c \<longleftrightarrow> api_key_salt c \<noteq> [] \<and> ingest_secret c \<noteq> []
     \<and> 0 < queue_interval c \<and> 0 < queue_batch c"

definition valid_gateway_env :: "gateway_config \<Rightarrow> bool" where
  "valid_gateway_env c \<longleftrightarrow> 0 < upstream_timeout c \<and> 0 < burst_window c
     \<and> 0 < burst_multiplier c \<and> 0 < burst_min c \<and> 0 < burst_max c
     \<and> 0 < request_limit c \<and> 0 < response_limit c"

text \<open>A configuration for examples.\<close>

definition sample_usage_config :: usage_config where
  "sample_usage_config = \<lparr>api_key_salt = ''salt'', ingest_secret = ''secret'',
     queue_enabled = True, queue_interval = 60, queue_batch = 100\<rparr>"

end
