(* ===== verification/UsageAggregation.thy ===== *)
theory UsageAggregation
  imports Schema
begin

text \<open>
  \<open>src/modules/usage/usage-aggregation.service.ts\<close>: usage records are rolled up, in the
  transaction that stores them, into one counter per subscription and UTC day and one per
  subscription, day and endpoint. Window reads take the counters for the full days and the raw
  records for the partial days at both ends. The two counter tables share one contract, the
  locale \<open>rollup\<close>; the reads are proved equal to a plain sum over the raw records.
\<close>

section \<open>Counters rolled up from records\<close>

text \<open>\<open>upsert\<close> with \<open>update: { requestCount: { increment: n } }\<close>.\<close>

definition rollup_upsert ::
  "('r \<Rightarrow> 'k) \<Rightarrow> ('r \<Rightarrow> int) \<Rightarrow> (int \<Rightarrow> 'r \<Rightarrow> 'r) \<Rightarrow> ('k \<Rightarrow> int \<Rightarrow> 'r) \<Rightarrow>
   'k \<Rightarrow> int \<Rightarrow> 'r list \<Rightarrow> exn + 'r list" where
  "rollup_upsert key cnt bump mk k n rows =
     (case find_unique (\<lambda>r. key r = k) rows of
        None \<Rightarrow> if int4_ok n then Inr (rows @ [mk k n]) else Inl int4_overflow
      | Some r \<Rightarrow>
          if int4_ok (cnt r + n) then Inr (map (\<lambda>r. if key r = k then bump n r else r) rows)
          else Inl int4_overflow)"

text \<open>
  The counters agree with the records: one row per key, each row the sum of the rolled-up
  records with its key, and a row for every rolled-up record.
\<close>

definition rollup_consistent ::
  "('r \<Rightarrow> 'k) \<Rightarrow> ('r \<Rightarrow> int) \<Rightarrow> ('u \<Rightarrow> 'k) \<Rightarrow> ('u \<Rightarrow> int) \<Rightarrow> ('u \<Rightarrow> bool) \<Rightarrow>
   'r list \<Rightarrow> 'u list \<Rightarrow> bool" where
  "rollup_consistent key cnt rkey rcnt rolled rows recs \<longleftrightarrow>
     distinct (map key rows)
     \<and> (\<forall>r \<in> set rows. cnt r = sum_where rcnt (\<lambda>u. rolled u \<and> rkey u = key r) recs)
     \<and> (\<forall>u \<in> set recs. rolled u \<longrightarrow> rkey u \<in> key ` set rows)"

locale rollup =
  fixes key :: "'r \<Rightarrow> 'k" and cnt :: "'r \<Rightarrow> int" and bump :: "int \<Rightarrow> 'r \<Rightarrow> 'r"
    and mk :: "'k \<Rightarrow> int \<Rightarrow> 'r" and rkey :: "'u \<Rightarrow> 'k" and rcnt :: "'u \<Rightarrow> int"
    and rolled :: "'u \<Rightarrow> bool"
  assumes key_bump: "key (bump n r) = key r" and cnt_bump: "cnt (bump n r) = cnt r + n"
    and key_mk: "key (mk k n) = k" and cnt_mk: "cnt (mk k n) = n"
begin

lemma consistent_empty: "rollup_consistent key cnt rkey rcnt rolled [] []"
  by (simp add: rollup_consistent_def)

lemma upsert_consistent:
  assumes ok: "rollup_consistent key cnt rkey rcnt rolled rows recs"
    and ups: "rollup_upsert key cnt bump mk (rkey u) (rcnt u) rows = Inr rows'"
    and "rolled u"
  shows "rollup_consistent key cnt rkey rcnt rolled rows' (recs @ [u])"
proof (cases "find_unique (\<lambda>r. key r = rkey u) rows")
  case None
  then have new: "rkey u \<notin> key ` set rows" by (auto simp: find_unique_None)
  have rows': "rows' = rows @ [mk (rkey u) (rcnt u)]"
    using ups None by (auto simp: rollup_upsert_def split: if_splits)
  have "sum_where rcnt (\<lambda>v. rolled v \<and> rkey v = rkey u) recs = 0"
    using ok new unfolding rollup_consistent_def by (intro sum_where_none) metis
  then show ?thesis
    using ok new \<open>rolled u\<close> unfolding rows' rollup_consistent_def
    by (auto simp: key_mk cnt_mk)
next
  case (Some r0)
  then have old: "rkey u \<in> key ` set rows" using find_unique_Some [OF Some] by (metis imageI)
  let ?b = "\<lambda>r. if key r = rkey u then bump (rcnt u) r else r"
  have rows': "rows' = map ?b rows"
    using ups Some by (auto simp: rollup_upsert_def split: if_splits)
  have keys: "map key rows' = map key rows" unfolding rows' by (rule map_key_update) (rule key_bump)
  have "cnt (?b r) = sum_where rcnt (\<lambda>v. rolled v \<and> rkey v = key (?b r)) (recs @ [u])"
    if "r \<in> set rows" for r
    using ok that \<open>rolled u\<close> by (auto simp: rollup_consistent_def key_bump cnt_bump)
  then have "\<forall>r \<in> set rows'. cnt r = sum_where rcnt (\<lambda>v. rolled v \<and> rkey v = key r) (recs @ [u])"
    unfolding rows' set_map ball_simps by blast
  moreover have "key ` set rows' = key ` set rows" by (metis keys set_map)
  ultimately show ?thesis
    using ok old keys unfolding rollup_consistent_def by auto
qed

text \<open>A sum of counters over any set of keys is the sum of the records with these keys.\<close>

lemma sum_counters:
  assumes "rollup_consistent key cnt rkey rcnt rolled rows recs"
  shows "sum_where cnt (\<lambda>r. Q (key r)) rows = sum_where rcnt (\<lambda>u. rolled u \<and> Q (rkey u)) recs"
proof -
  let ?h = "\<lambda>r u. if Q (key r) \<and> rolled u \<and> rkey u = key r then rcnt u else 0"
  have "sum_where cnt (\<lambda>r. Q (key r)) rows = sum_list (map (\<lambda>r. sum_list (map (?h r) recs)) rows)"
    using assms unfolding sum_where_if rollup_consistent_def
    by (intro arg_cong [of _ _ sum_list] map_cong refl)
      (auto simp: sum_where_if intro!: arg_cong [of _ _ sum_list])
  also have "\<dots> = sum_list (map (\<lambda>u. sum_list (map (\<lambda>r. ?h r u) rows)) recs)"
    by (rule sum_where_swap)
  also have "\<dots> = sum_list (map (\<lambda>u. if rolled u \<and> Q (rkey u) then rcnt u else 0) recs)"
  proof (intro arg_cong [of _ _ sum_list] map_cong refl)
    fix u assume u: "u \<in> set recs"
    have "map (\<lambda>r. ?h r u) rows
        = map (\<lambda>r. if key r = rkey u then (if rolled u \<and> Q (rkey u) then rcnt u else 0) else 0) rows"
      by auto
    moreover have "rolled u \<Longrightarrow> rkey u \<in> key ` set rows" "distinct (map key rows)"
      using assms u by (auto simp: rollup_consistent_def)
    ultimately show "sum_list (map (\<lambda>r. ?h r u) rows) = (if rolled u \<and> Q (rkey u) then rcnt u else 0)"
      using sum_list_unique_key [of key rows "rkey u" "if rolled u \<and> Q (rkey u) then rcnt u else 0"]
      by (simp only:) auto
  qed
  finally show ?thesis by (simp add: sum_where_if)
qed

end

section \<open>The counter tables\<close>

definition daily_key :: "daily_row \<Rightarrow> string \<times> date" where
  "daily_key r = (da_sub r, da_bucket r)"

definition endpoint_key :: "endpoint_row \<Rightarrow> string \<times> date \<times> string" where
  "endpoint_key r = (ea_sub r, ea_bucket r, ea_endpoint r)"

definition daily_bump :: "int \<Rightarrow> daily_row \<Rightarrow> daily_row" where
  "daily_bump n r = r\<lparr>da_count := da_count r + n\<rparr>"

definition endpoint_bump :: "int \<Rightarrow> endpoint_row \<Rightarrow> endpoint_row" where
  "endpoint_bump n r = r\<lparr>ea_count := ea_count r + n\<rparr>"

definition daily_new :: "string \<times> date \<Rightarrow> int \<Rightarrow> daily_row" where
  "daily_new k n = \<lparr>da_sub = fst k, da_bucket = snd k, da_count = n\<rparr>"

definition endpoint_new :: "string \<times> date \<times> string \<Rightarrow> int \<Rightarrow> endpoint_row" where
  "endpoint_new k n =
     \<lparr>ea_sub = fst k, ea_bucket = fst (snd k), ea_endpoint = snd (snd k), ea_count = n\<rparr>"

section \<open>UTC days\<close>

definition get_utc_day_start :: "date \<Rightarrow> date" where
  "get_utc_day_start d = set_utc_midnight d"

definition get_next_utc_day_start :: "date \<Rightarrow> date" where
  "get_next_utc_day_start d =
     (let result = get_utc_day_start d in set_utc_date result (get_utc_date result + 1))"

definition is_utc_day_boundary :: "date \<Rightarrow> bool" where
  "is_utc_day_boundary d \<longleftrightarrow>
     get_utc_hours d = 0 \<and> get_utc_minutes d = 0 \<and> get_utc_seconds d = 0
     \<and> get_utc_milliseconds d = 0"

section \<open>Recording\<close>

record usage_input =
  ui_sub :: string
  ui_at :: date
  ui_endpoint :: string
  ui_count :: int
  ui_job :: "string option"

definition usage_row_of :: "date \<Rightarrow> usage_input \<Rightarrow> usage_row" where
  "usage_row_of aggregated_at i =
     \<lparr>ur_sub = ui_sub i, ur_job = ui_job i, ur_aggregated = Some aggregated_at, ur_at = ui_at i,
      ur_endpoint = ui_endpoint i, ur_count = ui_count i\<rparr>"

definition create_usage :: "usage_row \<Rightarrow> db \<Rightarrow> exn + db" where
  "create_usage u d =
     (if \<not> int4_ok (ur_count u) then Inl int4_overflow
      else case insert_unique usage_viol u (usages d) of
             Inl e \<Rightarrow> Inl e | Inr us \<Rightarrow> Inr (d\<lparr>usages := us\<rparr>))"

definition upsert_daily :: "string \<Rightarrow> date \<Rightarrow> int \<Rightarrow> db \<Rightarrow> exn + db" where
  "upsert_daily sid bucket n d =
     (case rollup_upsert daily_key da_count daily_bump daily_new (sid, bucket) n (dailies d) of
        Inl e \<Rightarrow> Inl e | Inr rs \<Rightarrow> Inr (d\<lparr>dailies := rs\<rparr>))"

definition upsert_endpoint :: "string \<Rightarrow> date \<Rightarrow> string \<Rightarrow> int \<Rightarrow> db \<Rightarrow> exn + db" where
  "upsert_endpoint sid bucket e n d =
     (case rollup_upsert endpoint_key ea_count endpoint_bump endpoint_new (sid, bucket, e) n
             (endpoints d) of
        Inl e \<Rightarrow> Inl e | Inr rs \<Rightarrow> Inr (d\<lparr>endpoints := rs\<rparr>))"

definition record_usage_in_transaction :: "date \<Rightarrow> usage_input \<Rightarrow> (db, unit) prog" where
  "record_usage_in_transaction aggregated_at i =
     (let bucket = get_utc_day_start (ui_at i) in
      bnd (writes (create_usage (usage_row_of aggregated_at i))) (\<lambda>_.
      bnd (writes (upsert_daily (ui_sub i) bucket (ui_count i))) (\<lambda>_.
           writes (upsert_endpoint (ui_sub i) bucket (ui_endpoint i) (ui_count i)))))"

definition record_usage :: "date \<Rightarrow> usage_input \<Rightarrow> (db, unit) prog" where
  "record_usage aggregated_at i = tx (record_usage_in_transaction aggregated_at i)"

section \<open>Window sums\<close>

definition full_days_start :: "date \<Rightarrow> date" where
  "full_days_start s = (if is_utc_day_boundary s then s else get_next_utc_day_start s)"

definition full_days_end :: "date \<Rightarrow> date" where
  "full_days_end e = get_utc_day_start e"

definition start_partial_end :: "date \<Rightarrow> date \<Rightarrow> date" where
  "start_partial_end s e = (if full_days_start s < e then full_days_start s else e)"

definition end_partial_start :: "date \<Rightarrow> date \<Rightarrow> date" where
  "end_partial_start s e =
     (if start_partial_end s e < full_days_end e then full_days_end e else start_partial_end s e)"

definition raw_between :: "string \<Rightarrow> date \<Rightarrow> date \<Rightarrow> usage_row \<Rightarrow> bool" where
  "raw_between sid a b u \<longleftrightarrow> ur_sub u = sid \<and> a \<le> ur_at u \<and> ur_at u < b"

definition daily_between :: "string \<Rightarrow> date \<Rightarrow> date \<Rightarrow> daily_row \<Rightarrow> bool" where
  "daily_between sid a b r \<longleftrightarrow> da_sub r = sid \<and> a \<le> da_bucket r \<and> da_bucket r < b"

definition endpoint_between :: "string \<Rightarrow> date \<Rightarrow> date \<Rightarrow> endpoint_row \<Rightarrow> bool" where
  "endpoint_between sid a b r \<longleftrightarrow> ea_sub r = sid \<and> a \<le> ea_bucket r \<and> ea_bucket r < b"

definition sum_raw_usage :: "(usage_row \<Rightarrow> bool) \<Rightarrow> db \<Rightarrow> int" where
  "sum_raw_usage p d = sum_where ur_count p (usages d)"

definition sum_daily_aggregate_usage :: "(daily_row \<Rightarrow> bool) \<Rightarrow> db \<Rightarrow> int" where
  "sum_daily_aggregate_usage p d = sum_where da_count p (dailies d)"

definition sum_usage_for_window :: "string \<Rightarrow> date \<Rightarrow> date \<Rightarrow> db \<Rightarrow> int" where
  "sum_usage_for_window sid s e d =
     (if e \<le> s then 0
      else
        (if s < start_partial_end s e
         then sum_raw_usage (raw_between sid s (start_partial_end s e)) d else 0)
      + (if full_days_start s < full_days_end e
         then sum_daily_aggregate_usage (daily_between sid (full_days_start s) (full_days_end e)) d
            + sum_raw_usage (\<lambda>u. ur_aggregated u = None
                \<and> raw_between sid (full_days_start s) (full_days_end e) u) d
         else 0)
      + (if end_partial_start s e < e
         then sum_raw_usage (raw_between sid (end_partial_start s e) e) d else 0))"

text \<open>The reference: every record of the subscription in the half-open window.\<close>

definition raw_window_usage :: "string \<Rightarrow> date \<Rightarrow> date \<Rightarrow> db \<Rightarrow> int" where
  "raw_window_usage sid s e d = sum_where ur_count (raw_between sid s e) (usages d)"

section \<open>Endpoint breakdown\<close>

text \<open>A JavaScript \<open>Map\<close> keeps its entries in insertion order.\<close>

fun js_map_add :: "(string \<times> int) list \<Rightarrow> string \<Rightarrow> int \<Rightarrow> (string \<times> int) list" where
  "js_map_add [] k n = [(k, 0 + n)]"
| "js_map_add ((k', v) # m) k n = (if k' = k then (k', v + n) # m else (k', v) # js_map_add m k n)"

fun add_endpoint_usage :: "(string \<times> int) list \<Rightarrow> (string \<times> int) list \<Rightarrow> (string \<times> int) list" where
  "add_endpoint_usage target [] = target"
| "add_endpoint_usage target ((e, n) # rows) = add_endpoint_usage (js_map_add target e n) rows"

definition group_raw_usage_by_endpoint :: "(usage_row \<Rightarrow> bool) \<Rightarrow> db \<Rightarrow> (string \<times> int) list" where
  "group_raw_usage_by_endpoint p d =
     map (\<lambda>e. (e, sum_where ur_count (\<lambda>u. p u \<and> ur_endpoint u = e) (usages d)))
       (remdups (map ur_endpoint (filter p (usages d))))"

definition group_daily_usage_by_endpoint :: "(endpoint_row \<Rightarrow> bool) \<Rightarrow> db \<Rightarrow> (string \<times> int) list" where
  "group_daily_usage_by_endpoint p d =
     map (\<lambda>e. (e, sum_where ea_count (\<lambda>r. p r \<and> ea_endpoint r = e) (endpoints d)))
       (remdups (map ea_endpoint (filter p (endpoints d))))"

text \<open>\<open>Array.prototype.sort\<close> with a comparator: a stable sort.\<close>

fun cmp_insert :: "('a \<Rightarrow> 'a \<Rightarrow> int) \<Rightarrow> 'a \<Rightarrow> 'a list \<Rightarrow> 'a list" where
  "cmp_insert cmp x [] = [x]"
| "cmp_insert cmp x (y # ys) = (if cmp x y \<le> 0 then x # y # ys else y # cmp_insert cmp x ys)"

definition cmp_sort :: "('a \<Rightarrow> 'a \<Rightarrow> int) \<Rightarrow> 'a list \<Rightarrow> 'a list" where
  "cmp_sort cmp xs = foldr (cmp_insert cmp) xs []"

text \<open>\<open>right.requestCount - left.requestCount || left.endpoint.localeCompare(right.endpoint)\<close>.\<close>

definition endpoint_order ::
  "(string \<Rightarrow> string \<Rightarrow> int) \<Rightarrow> string \<times> int \<Rightarrow> string \<times> int \<Rightarrow> int" where
  "endpoint_order locale_compare left right =
     (if snd right - snd left \<noteq> 0 then snd right - snd left
      else locale_compare (fst left) (fst right))"

definition endpoint_usage_map :: "string \<Rightarrow> date \<Rightarrow> date \<Rightarrow> db \<Rightarrow> (string \<times> int) list" where
  "endpoint_usage_map sid s e d =
     (let m1 = (if s < start_partial_end s e
                then add_endpoint_usage []
                       (group_raw_usage_by_endpoint (raw_between sid s (start_partial_end s e)) d)
                else []);
          m2 = (if full_days_start s < full_days_end e
                then add_endpoint_usage
                       (add_endpoint_usage m1 (group_daily_usage_by_endpoint
                          (endpoint_between sid (full_days_start s) (full_days_end e)) d))
                       (group_raw_usage_by_endpoint (\<lambda>u. ur_aggregated u = None
                          \<and> raw_between sid (full_days_start s) (full_days_end e) u) d)
                else m1)
      in if end_partial_start s e < e
         then add_endpoint_usage m2
                (group_raw_usage_by_endpoint (raw_between sid (end_partial_start s e) e) d)
         else m2)"

definition list_endpoint_usage_for_window ::
  "(string \<Rightarrow> string \<Rightarrow> int) \<Rightarrow> string \<Rightarrow> date \<Rightarrow> date \<Rightarrow> nat option \<Rightarrow> db \<Rightarrow> (string \<times> int) list"
where
  "list_endpoint_usage_for_window locale_compare sid s e limit d =
     (if e \<le> s then []
      else take (case limit of None \<Rightarrow> 5 | Some n \<Rightarrow> n)
             (cmp_sort (endpoint_order locale_compare) (endpoint_usage_map sid s e d)))"

section \<open>The counters agree with the records\<close>

definition usage_rolled :: "usage_row \<Rightarrow> bool" where
  "usage_rolled u \<longleftrightarrow> ur_aggregated u \<noteq> None"

definition usage_daily_key :: "usage_row \<Rightarrow> string \<times> date" where
  "usage_daily_key u = (ur_sub u, get_utc_day_start (ur_at u))"

definition usage_endpoint_key :: "usage_row \<Rightarrow> string \<times> date \<times> string" where
  "usage_endpoint_key u = (ur_sub u, get_utc_day_start (ur_at u), ur_endpoint u)"

definition usage_consistent :: "db \<Rightarrow> bool" where
  "usage_consistent d \<longleftrightarrow>
     rollup_consistent daily_key da_count usage_daily_key ur_count usage_rolled
       (dailies d) (usages d)
   \<and> rollup_consistent endpoint_key ea_count usage_endpoint_key ur_count usage_rolled
       (endpoints d) (usages d)"

interpretation daily_rollup: rollup daily_key da_count daily_bump daily_new usage_daily_key
    ur_count usage_rolled
  by unfold_locales (auto simp: daily_key_def daily_bump_def daily_new_def)

interpretation endpoint_rollup: rollup endpoint_key ea_count endpoint_bump endpoint_new
    usage_endpoint_key ur_count usage_rolled
  by unfold_locales (auto simp: endpoint_key_def endpoint_bump_def endpoint_new_def)

section \<open>Day arithmetic\<close>

lemma day_start_eq: "get_utc_day_start t = t - t mod ms_per_day"
  by (simp add: get_utc_day_start_def set_utc_midnight_def make_date_def day_def
      minus_mod_eq_div_mult)

lemma day_start_boundary: "get_utc_day_start t mod ms_per_day = 0"
  by (simp add: day_start_eq mod_diff_right_eq)

lemma day_start_bounds: "get_utc_day_start t \<le> t" "t < get_utc_day_start t + ms_per_day"
  by (simp_all add: day_start_eq)

lemma next_day_start_eq: "get_next_utc_day_start t = get_utc_day_start t + ms_per_day"
  by (simp add: get_next_utc_day_start_def Let_def set_utc_date_add)

lemma time_of_day_parts:
  "t mod ms_per_day = 3600000 * get_utc_hours t + (60000 * get_utc_minutes t
     + (1000 * get_utc_seconds t + get_utc_milliseconds t))"
proof -
  have "t mod ms_per_day = 3600000 * get_utc_hours t + t mod 3600000"
    using zmod_zmult2_eq [of 24 t 3600000] by (simp add: get_utc_hours_def)
  moreover have "t mod 3600000 = 60000 * get_utc_minutes t + t mod 60000"
    using zmod_zmult2_eq [of 60 t 60000] by (simp add: get_utc_minutes_def)
  moreover have "t mod 60000 = 1000 * get_utc_seconds t + get_utc_milliseconds t"
    using zmod_zmult2_eq [of 60 t 1000] by (simp add: get_utc_seconds_def get_utc_milliseconds_def)
  ultimately show ?thesis by (simp only:)
qed

lemma is_utc_day_boundary_iff: "is_utc_day_boundary t \<longleftrightarrow> t mod ms_per_day = 0"
proof -
  have "0 \<le> get_utc_hours t" "0 \<le> get_utc_minutes t" "0 \<le> get_utc_seconds t"
    "0 \<le> get_utc_milliseconds t"
    by (simp_all add: get_utc_hours_def get_utc_minutes_def get_utc_seconds_def
        get_utc_milliseconds_def)
  then show ?thesis unfolding time_of_day_parts is_utc_day_boundary_def by auto
qed

lemma full_days_start_boundary: "full_days_start s mod ms_per_day = 0"
  using day_start_boundary [of s]
  by (auto simp: full_days_start_def is_utc_day_boundary_iff next_day_start_eq)

lemma full_days_start_ge: "s \<le> full_days_start s"
  using day_start_bounds [of s]
  by (auto simp: full_days_start_def next_day_start_eq)

lemma boundary_le_day_start:
  assumes "b mod ms_per_day = 0"
  shows "b \<le> get_utc_day_start t \<longleftrightarrow> b \<le> t"
proof
  assume "b \<le> get_utc_day_start t"
  then show "b \<le> t" using day_start_bounds(1) [of t] by linarith
next
  assume "b \<le> t"
  then have "b div ms_per_day \<le> t div ms_per_day" by (rule zdiv_mono1) simp
  moreover have "b = b div ms_per_day * ms_per_day" using assms by (simp add: minus_mod_eq_div_mult [symmetric])
  ultimately show "b \<le> get_utc_day_start t" by (simp add: day_start_eq minus_mod_eq_div_mult)
qed

lemma day_start_less_boundary:
  "b mod ms_per_day = 0 \<Longrightarrow> get_utc_day_start t < b \<longleftrightarrow> t < b"
  using boundary_le_day_start [of b t] by (simp add: not_le [symmetric])

lemmas boundary_compare = boundary_le_day_start day_start_less_boundary

lemmas window_bounds = full_days_start_boundary day_start_boundary full_days_start_ge

lemma partial_cases:
  assumes "s < e"
  obtains (full) "full_days_start s < full_days_end e" "start_partial_end s e = full_days_start s"
      "end_partial_start s e = full_days_end e" "s \<le> full_days_start s" "full_days_end e \<le> e"
  | (none) "\<not> full_days_start s < full_days_end e" "s \<le> start_partial_end s e"
      "end_partial_start s e = start_partial_end s e" "start_partial_end s e \<le> e"
proof (cases "full_days_start s < full_days_end e")
  case True
  moreover have "full_days_end e \<le> e" by (simp add: full_days_end_def day_start_bounds)
  ultimately show ?thesis
    using full_days_start_ge [of s]
    by (intro full) (auto simp: start_partial_end_def end_partial_start_def)
next
  case False
  moreover have "full_days_end e \<le> e" by (simp add: full_days_end_def day_start_bounds)
  ultimately show ?thesis
    using full_days_start_ge [of s] assms
    by (intro none) (auto simp: start_partial_end_def end_partial_start_def)
qed

section \<open>Window sums are sums over the raw records\<close>

text \<open>
  The same split serves the totals and the per-endpoint counts: \<open>R\<close> restricts the records to
  those of interest.
\<close>

lemma raw_split:
  assumes "a \<le> b" "b \<le> c"
  shows "sum_where f (\<lambda>u. R u \<and> raw_between sid a c u) us
       = sum_where f (\<lambda>u. R u \<and> raw_between sid a b u) us
       + sum_where f (\<lambda>u. R u \<and> raw_between sid b c u) us"
  by (rule sum_where_split) (use assms in \<open>auto simp: raw_between_def\<close>)

lemma raw_empty: "b \<le> a \<Longrightarrow> sum_where f (\<lambda>u. R u \<and> raw_between sid a b u) us = 0"
  by (rule sum_where_none) (auto simp: raw_between_def)

lemma raw_if:
  "a \<le> b \<Longrightarrow> (if a < b then sum_where f (\<lambda>u. R u \<and> raw_between sid a b u) us else 0)
     = sum_where f (\<lambda>u. R u \<and> raw_between sid a b u) us"
  using raw_empty [of b a f R sid us] by auto

lemma raw_rolled_split:
  "sum_where f (\<lambda>u. usage_rolled u \<and> Q u) us + sum_where f (\<lambda>u. ur_aggregated u = None \<and> Q u) us
   = sum_where f Q us"
  by (rule sum_where_split [symmetric]) (auto simp: usage_rolled_def)

lemma daily_window_sum:
  assumes "usage_consistent d" "a mod ms_per_day = 0" "b mod ms_per_day = 0"
  shows "sum_where da_count (daily_between sid a b) (dailies d)
       = sum_where ur_count (\<lambda>u. usage_rolled u \<and> raw_between sid a b u) (usages d)"
proof -
  let ?Q = "\<lambda>(x, t). x = sid \<and> a \<le> t \<and> t < b"
  have "sum_where da_count (\<lambda>r. ?Q (daily_key r)) (dailies d)
      = sum_where ur_count (\<lambda>u. usage_rolled u \<and> ?Q (usage_daily_key u)) (usages d)"
    using assms(1) by (intro daily_rollup.sum_counters) (simp add: usage_consistent_def)
  then show ?thesis
    by (simp add: boundary_compare assms(2,3) daily_between_def [abs_def] raw_between_def daily_key_def usage_daily_key_def)
qed

lemma endpoint_window_sum:
  assumes "usage_consistent d" "a mod ms_per_day = 0" "b mod ms_per_day = 0"
  shows "sum_where ea_count (\<lambda>r. endpoint_between sid a b r \<and> ea_endpoint r = x) (endpoints d)
       = sum_where ur_count (\<lambda>u. usage_rolled u \<and> raw_between sid a b u \<and> ur_endpoint u = x) (usages d)"
proof -
  let ?Q = "\<lambda>(y, t, z). (y = sid \<and> a \<le> t \<and> t < b) \<and> z = x"
  have "sum_where ea_count (\<lambda>r. ?Q (endpoint_key r)) (endpoints d)
      = sum_where ur_count (\<lambda>u. usage_rolled u \<and> ?Q (usage_endpoint_key u)) (usages d)"
    using assms(1) by (intro endpoint_rollup.sum_counters) (simp add: usage_consistent_def)
  then show ?thesis
    by (simp add: boundary_compare assms(2,3) endpoint_between_def raw_between_def endpoint_key_def usage_endpoint_key_def)
qed

lemma window_sum_raw:
  assumes "usage_consistent d"
  shows "sum_usage_for_window sid s e d = raw_window_usage sid s e d"
proof (cases "s < e")
  case False
  then show ?thesis
    using raw_empty [of e s ur_count "\<lambda>_. True" sid "usages d"]
    by (simp add: sum_usage_for_window_def raw_window_usage_def)
next
  case True
  let ?raw = "\<lambda>a b. sum_where ur_count (raw_between sid a b) (usages d)"
  have split: "a \<le> b \<Longrightarrow> b \<le> c \<Longrightarrow> ?raw a c = ?raw a b + ?raw b c" for a b c
    using raw_split [of a b c ur_count "\<lambda>_. True" sid "usages d"] by simp
  have guard: "a \<le> b \<Longrightarrow> (if a < b then ?raw a b else 0) = ?raw a b" for a b
    using raw_if [of a b ur_count "\<lambda>_. True" sid "usages d"] by (simp only: simp_thms)
  note defs = sum_usage_for_window_def raw_window_usage_def sum_raw_usage_def
    sum_daily_aggregate_usage_def
  from True show ?thesis
  proof (cases rule: partial_cases)
    case full
    have "sum_where da_count (daily_between sid (full_days_start s) (full_days_end e)) (dailies d)
        + sum_where ur_count (\<lambda>u. ur_aggregated u = None
            \<and> raw_between sid (full_days_start s) (full_days_end e) u) (usages d)
        = ?raw (full_days_start s) (full_days_end e)"
      unfolding daily_window_sum [OF assms window_bounds(1) window_bounds(2) [of e, folded full_days_end_def]]
      by (rule raw_rolled_split)
    then have "sum_usage_for_window sid s e d
        = ?raw s (full_days_start s) + ?raw (full_days_start s) (full_days_end e) + ?raw (full_days_end e) e"
      unfolding defs full(2,3) guard [OF full(4)] guard [OF full(5)] using True full(1) by simp
    moreover have "?raw s e = ?raw s (full_days_start s) + ?raw (full_days_start s) e"
      using full by (intro split) auto
    moreover have "?raw (full_days_start s) e
        = ?raw (full_days_start s) (full_days_end e) + ?raw (full_days_end e) e"
      using full by (intro split) auto
    ultimately show ?thesis unfolding raw_window_usage_def by linarith
  next
    case none
    have "sum_usage_for_window sid s e d = ?raw s (start_partial_end s e) + ?raw (start_partial_end s e) e"
      unfolding defs none(3) guard [OF none(2)] guard [OF none(4)] using True none(1) by simp
    moreover have "?raw s e = ?raw s (start_partial_end s e) + ?raw (start_partial_end s e) e"
      by (rule split [OF none(2,4)])
    ultimately show ?thesis unfolding raw_window_usage_def by simp
  qed
qed

section \<open>Endpoint breakdown agrees with the raw records\<close>

definition mget :: "(string \<times> int) list \<Rightarrow> string \<Rightarrow> int" where
  "mget m k = (case map_of m k of None \<Rightarrow> 0 | Some v \<Rightarrow> v)"

lemma js_map_add_keys: "fst ` set (js_map_add m k n) = insert k (fst ` set m)"
  by (induction m k n rule: js_map_add.induct) auto

lemma js_map_add_distinct: "distinct (map fst m) \<Longrightarrow> distinct (map fst (js_map_add m k n))"
proof (induction m k n rule: js_map_add.induct)
  case (2 k' v m k n)
  then show ?case using js_map_add_keys [of m k n] by (auto simp flip: set_map)
qed simp

lemma mget_js_map_add: "mget (js_map_add m k n) x = mget m x + (if x = k then n else 0)"
  by (induction m k n rule: js_map_add.induct) (auto simp: mget_def split: option.splits)

lemma add_endpoint_usage_keys:
  "fst ` set (add_endpoint_usage m rows) = fst ` set m \<union> fst ` set rows"
  by (induction m rows rule: add_endpoint_usage.induct) (auto simp: js_map_add_keys)

lemma add_endpoint_usage_distinct:
  "distinct (map fst m) \<Longrightarrow> distinct (map fst (add_endpoint_usage m rows))"
  by (induction m rows rule: add_endpoint_usage.induct) (auto simp: js_map_add_distinct)

lemma mget_add_endpoint_usage:
  "mget (add_endpoint_usage m rows) x = mget m x + sum_where snd (\<lambda>r. fst r = x) rows"
  by (induction m rows rule: add_endpoint_usage.induct) (auto simp: mget_js_map_add)

text \<open>One \<open>groupBy\<close> row per endpoint: its total for an endpoint is the sum of the selected rows.\<close>

lemma group_total:
  "sum_where snd (\<lambda>r. fst r = x)
     (map (\<lambda>e. (e, sum_where f (\<lambda>u. p u \<and> ep u = e) us)) (remdups (map ep (filter p us))))
   = sum_where f (\<lambda>u. p u \<and> ep u = x) us"
proof -
  let ?es = "remdups (map ep (filter p us))" and ?c = "sum_where f (\<lambda>u. p u \<and> ep u = x) us"
  have "sum_where snd (\<lambda>r. fst r = x) (map (\<lambda>e. (e, sum_where f (\<lambda>u. p u \<and> ep u = e) us)) ?es)
      = sum_list (map (\<lambda>e. if e = x then ?c else 0) ?es)"
    by (auto simp: sum_where_if intro!: arg_cong [of _ _ sum_list])
  also have "\<dots> = (if x \<in> set ?es then ?c else 0)"
    using sum_list_unique_key [of "\<lambda>e. e" ?es x ?c] by simp
  also have "\<dots> = ?c"
    using sum_where_none [of us "\<lambda>u. p u \<and> ep u = x" f] by auto
  finally show ?thesis .
qed

lemma group_keys: "fst ` set (map (\<lambda>e. (e, h e)) (remdups (map ep (filter p us)))) = ep ` {u \<in> set us. p u}"
  by (auto simp: image_image)

lemma group_totals:
  "sum_where snd (\<lambda>r. fst r = x) (group_raw_usage_by_endpoint p d)
     = sum_where ur_count (\<lambda>u. p u \<and> ur_endpoint u = x) (usages d)"
  "sum_where snd (\<lambda>r. fst r = x) (group_daily_usage_by_endpoint q d)
     = sum_where ea_count (\<lambda>r. q r \<and> ea_endpoint r = x) (endpoints d)"
  unfolding group_raw_usage_by_endpoint_def group_daily_usage_by_endpoint_def
  by (rule group_total)+

definition raw_endpoint_usage :: "string \<Rightarrow> date \<Rightarrow> date \<Rightarrow> string \<Rightarrow> db \<Rightarrow> int" where
  "raw_endpoint_usage sid s e x d =
     sum_where ur_count (\<lambda>u. raw_between sid s e u \<and> ur_endpoint u = x) (usages d)"

lemma mget_Nil [simp]: "mget [] x = 0"
  by (simp add: mget_def)

lemma endpoint_usage_map_distinct: "distinct (map fst (endpoint_usage_map sid s e d))"
  by (simp add: endpoint_usage_map_def Let_def add_endpoint_usage_distinct)

lemma mget_endpoint_usage_map:
  assumes ok: "usage_consistent d" and "s < e"
  shows "mget (endpoint_usage_map sid s e d) x = raw_endpoint_usage sid s e x d"
proof -
  let ?raw = "\<lambda>a b. sum_where ur_count (\<lambda>u. raw_between sid a b u \<and> ur_endpoint u = x) (usages d)"
  have swap: "(\<lambda>u. raw_between sid a b u \<and> ur_endpoint u = x)
      = (\<lambda>u. ur_endpoint u = x \<and> raw_between sid a b u)" for a b by auto
  have split: "a \<le> b \<Longrightarrow> b \<le> c \<Longrightarrow> ?raw a c = ?raw a b + ?raw b c" for a b c
    unfolding swap by (rule raw_split)
  have guard: "a \<le> b \<Longrightarrow> (if a < b then ?raw a b else 0) = ?raw a b" for a b
    unfolding swap by (rule raw_if)
  have push: "mget (if P then add_endpoint_usage m rows else m) x
      = mget m x + (if P then sum_where snd (\<lambda>r. fst r = x) rows else 0)" for P m rows
    by (simp add: mget_add_endpoint_usage)
  from \<open>s < e\<close> show ?thesis
  proof (cases rule: partial_cases)
    case full
    let ?a = "full_days_start s" and ?b = "full_days_end e"
    have "sum_where ea_count (\<lambda>r. endpoint_between sid ?a ?b r \<and> ea_endpoint r = x) (endpoints d)
        + sum_where ur_count (\<lambda>u. (ur_aggregated u = None \<and> raw_between sid ?a ?b u)
            \<and> ur_endpoint u = x) (usages d) = ?raw ?a ?b"
      unfolding conj_assoc
      unfolding endpoint_window_sum [OF ok window_bounds(1) window_bounds(2) [of e, folded full_days_end_def]]
      by (rule raw_rolled_split)
    then have "mget (endpoint_usage_map sid s e d) x = ?raw s ?a + ?raw ?a ?b + ?raw ?b e"
      using full(1) guard [OF full(4)] guard [OF full(5)]
      by (simp add: endpoint_usage_map_def Let_def push full(2,3) mget_add_endpoint_usage group_totals
          split del: if_split cong: if_cong)
    moreover have "?raw s e = ?raw s ?a + ?raw ?a e" "?raw ?a e = ?raw ?a ?b + ?raw ?b e"
      using full by (intro split; simp)+
    ultimately show ?thesis unfolding raw_endpoint_usage_def by linarith
  next
    case none
    have "mget (endpoint_usage_map sid s e d) x
        = ?raw s (start_partial_end s e) + ?raw (start_partial_end s e) e"
      using none(1) guard [OF none(2)] guard [OF none(4)]
      by (simp add: endpoint_usage_map_def Let_def push none(3) mget_add_endpoint_usage group_totals
          split del: if_split cong: if_cong)
    then show ?thesis using split [OF none(2,4)] unfolding raw_endpoint_usage_def by simp
  qed
qed

section \<open>Sorting by count\<close>

lemma set_cmp_insert [simp]: "set (cmp_insert cmp x ys) = insert x (set ys)"
  by (induction ys) auto

lemma set_cmp_sort [simp]: "set (cmp_sort cmp xs) = set xs"
  unfolding cmp_sort_def by (induction xs) auto

lemma length_cmp_insert [simp]: "length (cmp_insert cmp x ys) = Suc (length ys)"
  by (induction ys) auto

lemma length_cmp_sort [simp]: "length (cmp_sort cmp xs) = length xs"
  unfolding cmp_sort_def by (induction xs) auto

lemma distinct_cmp_insert: "distinct (map f (cmp_insert cmp x ys)) \<longleftrightarrow> distinct (map f (x # ys))"
  by (induction ys) auto

lemma distinct_cmp_sort: "distinct (map f (cmp_sort cmp xs)) \<longleftrightarrow> distinct (map f xs)"
proof (induction xs)
  case Nil
  then show ?case by (simp add: cmp_sort_def)
next
  case (Cons x xs)
  have "f ` set (foldr (cmp_insert cmp) xs []) = f ` set xs"
    using set_cmp_sort [of cmp xs] by (simp add: cmp_sort_def)
  with Cons show ?case by (simp add: cmp_sort_def distinct_cmp_insert)
qed

text \<open>Whatever the collation does with equal counts, the counts come out descending.\<close>

lemma counts_descending:
  "sorted_wrt (\<lambda>a b. snd b \<le> snd a) (cmp_sort (endpoint_order lc) xs)"
proof (induction xs)
  case Nil
  then show ?case by (simp add: cmp_sort_def)
next
  case (Cons x xs)
  have "sorted_wrt (\<lambda>a b. snd b \<le> snd a) (cmp_insert (endpoint_order lc) x ys)"
    if "sorted_wrt (\<lambda>a b. snd b \<le> snd a) ys" for ys :: "(string \<times> int) list"
    using that by (induction ys) (auto simp: endpoint_order_def split: if_splits)
  with Cons show ?case by (simp add: cmp_sort_def)
qed

section \<open>Recording keeps the counters consistent\<close>

lemma create_usage_Inr:
  "create_usage u d = Inr d' \<longleftrightarrow>
   int4_ok (ur_count u) \<and> (\<forall>v \<in> set (usages d). usage_viol u v = None)
   \<and> d' = d\<lparr>usages := usages d @ [u]\<rparr>"
  by (auto simp: create_usage_def insert_unique_Inr split: sum.splits)
     (auto simp: insert_unique_def map_filter_Nil [symmetric] split: list.splits)

lemma upsert_daily_Inr:
  assumes "upsert_daily sid b n d = Inr d'"
  obtains rs where "rollup_upsert daily_key da_count daily_bump daily_new (sid, b) n (dailies d) = Inr rs"
    and "d' = d\<lparr>dailies := rs\<rparr>"
  using assms by (auto simp: upsert_daily_def split: sum.splits)

lemma upsert_endpoint_Inr:
  assumes "upsert_endpoint sid b e n d = Inr d'"
  obtains rs where "rollup_upsert endpoint_key ea_count endpoint_bump endpoint_new (sid, b, e) n
      (endpoints d) = Inr rs" and "d' = d\<lparr>endpoints := rs\<rparr>"
  using assms by (auto simp: upsert_endpoint_def split: sum.splits)

lemma record_usage_cases:
  assumes "record_usage_in_transaction t i d = (Inr u, d')"
  obtains ds es where
    "\<forall>v \<in> set (usages d). usage_viol (usage_row_of t i) v = None"
    "rollup_upsert daily_key da_count daily_bump daily_new
       (ui_sub i, get_utc_day_start (ui_at i)) (ui_count i) (dailies d) = Inr ds"
    "rollup_upsert endpoint_key ea_count endpoint_bump endpoint_new
       (ui_sub i, get_utc_day_start (ui_at i), ui_endpoint i) (ui_count i) (endpoints d) = Inr es"
    "d' = d\<lparr>usages := usages d @ [usage_row_of t i], dailies := ds, endpoints := es\<rparr>"
proof -
  obtain d1 d2 where w:
    "create_usage (usage_row_of t i) d = Inr d1"
    "upsert_daily (ui_sub i) (get_utc_day_start (ui_at i)) (ui_count i) d1 = Inr d2"
    "upsert_endpoint (ui_sub i) (get_utc_day_start (ui_at i)) (ui_endpoint i) (ui_count i) d2 = Inr d'"
    using assms by (auto simp: record_usage_in_transaction_def Let_def bnd_Inr writes_Inr)
  have d1: "d1 = d\<lparr>usages := usages d @ [usage_row_of t i]\<rparr>"
    "\<forall>v \<in> set (usages d). usage_viol (usage_row_of t i) v = None"
    using w(1) by (auto simp: create_usage_Inr)
  obtain ds where ds: "rollup_upsert daily_key da_count daily_bump daily_new
      (ui_sub i, get_utc_day_start (ui_at i)) (ui_count i) (dailies d1) = Inr ds"
    "d2 = d1\<lparr>dailies := ds\<rparr>" using w(2) by (rule upsert_daily_Inr)
  obtain es where es: "rollup_upsert endpoint_key ea_count endpoint_bump endpoint_new
      (ui_sub i, get_utc_day_start (ui_at i), ui_endpoint i) (ui_count i) (endpoints d2) = Inr es"
    "d' = d2\<lparr>endpoints := es\<rparr>" using w(3) by (rule upsert_endpoint_Inr)
  show ?thesis by (rule that [of ds es]) (use d1 ds es in simp_all)
qed

lemma record_usage_consistent [inv_intros]:
  assumes "record_usage_in_transaction t i d = (Inr u, d')" "usage_consistent d"
  shows "usage_consistent d'"
  using assms(1)
proof (rule record_usage_cases)
  fix ds es
  let ?u = "usage_row_of t i"
  have k: "usage_daily_key ?u = (ui_sub i, get_utc_day_start (ui_at i))"
    "usage_endpoint_key ?u = (ui_sub i, get_utc_day_start (ui_at i), ui_endpoint i)"
    "ur_count ?u = ui_count i" "usage_rolled ?u"
    by (simp_all add: usage_daily_key_def usage_endpoint_key_def usage_row_of_def usage_rolled_def)
  assume ds: "rollup_upsert daily_key da_count daily_bump daily_new
       (ui_sub i, get_utc_day_start (ui_at i)) (ui_count i) (dailies d) = Inr ds"
    and es: "rollup_upsert endpoint_key ea_count endpoint_bump endpoint_new
       (ui_sub i, get_utc_day_start (ui_at i), ui_endpoint i) (ui_count i) (endpoints d) = Inr es"
    and d': "d' = d\<lparr>usages := usages d @ [?u], dailies := ds, endpoints := es\<rparr>"
  have "rollup_consistent daily_key da_count usage_daily_key ur_count usage_rolled ds (usages d @ [?u])"
    using assms(2) ds k by (intro daily_rollup.upsert_consistent) (auto simp: usage_consistent_def)
  moreover have "rollup_consistent endpoint_key ea_count usage_endpoint_key ur_count usage_rolled es
      (usages d @ [?u])"
    using assms(2) es k by (intro endpoint_rollup.upsert_consistent) (auto simp: usage_consistent_def)
  ultimately show ?thesis by (simp add: usage_consistent_def d')
qed

lemma record_usage_usages:
  "record_usage_in_transaction t i d = (Inr u, d') \<Longrightarrow> usages d' = usages d @ [usage_row_of t i]"
  by (erule record_usage_cases) simp

lemma record_usage_frame [frame_simps]:
  assumes "record_usage_in_transaction t i d = (Inr u, d')"
  shows "subs d' = subs d" "plans d' = plans d" "products d' = products d" "jobs d' = jobs d"
    "api_keys d' = api_keys d" "invoices d' = invoices d" "leases d' = leases d"
    "buckets d' = buckets d" "users d' = users d" "versions d' = versions d"
  using assms by (rule record_usage_cases, simp)+

lemma record_usage_jobs_unique:
  assumes "record_usage_in_transaction t i d = (Inr u, d')" "col_unique ur_job (usages d)"
  shows "col_unique ur_job (usages d')"
  using assms(1)
proof (rule record_usage_cases)
  assume free: "\<forall>v \<in> set (usages d). usage_viol (usage_row_of t i) v = None"
  have "insert_unique usage_viol (usage_row_of t i) (usages d) = Inr (usages d')"
    unfolding insert_unique_Inr using free record_usage_usages [OF assms(1)] by simp
  then show ?thesis using assms(2) by (rule usage_jobs.insert_keeps_unique)
qed

lemma create_usage_Inl:
  "create_usage u d = Inl e \<Longrightarrow>
   e = int4_overflow \<or> (ur_job u \<noteq> None \<and> e = unique_violation ''sourceJobId'')"
  by (auto simp: create_usage_def usage_viol_def clash_def dest!: insert_unique_Inl
      split: sum.splits if_splits) metis

lemma rollup_upsert_Inl: "rollup_upsert key cnt bump mk k n rows = Inl e \<Longrightarrow> e = int4_overflow"
  by (auto simp: rollup_upsert_def split: option.splits if_splits)

lemma upsert_Inl:
  "upsert_daily sid b n d = Inl e \<Longrightarrow> e = int4_overflow"
  "upsert_endpoint sid b x n d = Inl e \<Longrightarrow> e = int4_overflow"
  by (auto simp: upsert_daily_def upsert_endpoint_def split: sum.splits dest: rollup_upsert_Inl)

text \<open>The only ways recording fails: a 32-bit overflow, or the job already has its record.\<close>

lemma record_usage_error:
  "record_usage_in_transaction t i d = (Inl e, d') \<Longrightarrow>
   e = int4_overflow \<or> (ui_job i \<noteq> None \<and> e = unique_violation ''sourceJobId'')"
  by (auto simp: record_usage_in_transaction_def Let_def bnd_def writes_def usage_row_of_def
      split: sum.splits prod.splits dest: upsert_Inl create_usage_Inl)

section \<open>Properties\<close>

text \<open>C24: The hybrid window read (daily counters for full UTC days, raw records for the partial
  days and the records not yet rolled up) returns exactly the sum of the raw records of the
  subscription in the half-open window, for every window.\<close>

theorem window_sum_exact:
  assumes "usage_consistent d"
  shows "sum_usage_for_window sid s e d = raw_window_usage sid s e d"
  using assms by (rule window_sum_raw)

definition sample_input :: "int \<Rightarrow> string \<Rightarrow> int \<Rightarrow> usage_input" where
  "sample_input t x n =
     \<lparr>ui_sub = ''s1'', ui_at = t, ui_endpoint = x, ui_count = n, ui_job = None\<rparr>"

definition sample_usage_db :: db where
  "sample_usage_db =
     snd (record_usage 1 (sample_input 200000000 ''/a'' 3)
       (snd (record_usage 1 (sample_input 50000000 ''/b'' 5)
         (snd (record_usage 1 (sample_input 100000000 ''/a'' 7) empty_db)))))"

lemma sample_usage_consistent: "usage_consistent sample_usage_db"
  by code_simp

theorem window_sum_exact_witness:
  "sum_usage_for_window ''s1'' 40000000 190000000 sample_usage_db
     = raw_window_usage ''s1'' 40000000 190000000 sample_usage_db
   \<and> raw_window_usage ''s1'' 40000000 190000000 sample_usage_db = 12"
proof -
  have "raw_window_usage ''s1'' 40000000 190000000 sample_usage_db = 12" by code_simp
  then show ?thesis using window_sum_exact [OF sample_usage_consistent] by simp
qed



text \<open>C26: The endpoint breakdown of a window lists each endpoint once with exactly its raw
  total, in descending order of the totals, at most \<open>limit\<close> (default 5) of them; an endpoint
  with usage that is left out has no more requests than any listed one, and only when the list
  is full.\<close>

theorem endpoint_breakdown_correct:
  assumes "usage_consistent d" and "s < e"
    and res: "res = list_endpoint_usage_for_window lc sid s e limit d"
  shows "distinct (map fst res)
    \<and> (\<forall>(x, n) \<in> set res. n = raw_endpoint_usage sid s e x d)
    \<and> sorted_wrt (\<lambda>a b. snd b \<le> snd a) res
    \<and> length res \<le> (case limit of None \<Rightarrow> 5 | Some n \<Rightarrow> n)
    \<and> (\<forall>x. raw_endpoint_usage sid s e x d \<noteq> 0 \<longrightarrow> x \<notin> fst ` set res \<longrightarrow>
           length res = (case limit of None \<Rightarrow> 5 | Some n \<Rightarrow> n) \<and>
           (\<forall>(y, n) \<in> set res. raw_endpoint_usage sid s e x d \<le> n))"
proof (intro conjI)
  define m where "m = endpoint_usage_map sid s e d"
  define ys where "ys = cmp_sort (endpoint_order lc) m"
  define k where "k = (case limit of None \<Rightarrow> 5 | Some n \<Rightarrow> (n :: nat))"
  have r: "res = take k ys"
    using res \<open>s < e\<close> by (simp add: list_endpoint_usage_for_window_def ys_def m_def k_def)
  have dm: "distinct (map fst m)" by (simp add: m_def endpoint_usage_map_distinct)
  have dy: "distinct (map fst ys)" using dm by (simp add: ys_def distinct_cmp_sort)
  have get: "mget m x = raw_endpoint_usage sid s e x d" for x
    unfolding m_def by (rule mget_endpoint_usage_map [OF assms(1,2)])
  have val: "n = raw_endpoint_usage sid s e x d" if "(x, n) \<in> set ys" for x n
    using that dm get [of x] by (simp add: ys_def mget_def)
  have srt: "sorted_wrt (\<lambda>a b. snd b \<le> snd a) ys" unfolding ys_def by (rule counts_descending)
  show "distinct (map fst res)" using dy by (simp add: r flip: take_map)
  show "\<forall>(x, n) \<in> set res. n = raw_endpoint_usage sid s e x d"
    using val by (auto simp: r dest: in_set_takeD)
  show "sorted_wrt (\<lambda>a b. snd b \<le> snd a) res" using srt by (simp add: r sorted_wrt_take)
  show "length res \<le> (case limit of None \<Rightarrow> 5 | Some n \<Rightarrow> n)" by (simp add: r k_def)
  show "\<forall>x. raw_endpoint_usage sid s e x d \<noteq> 0 \<longrightarrow> x \<notin> fst ` set res \<longrightarrow>
           length res = (case limit of None \<Rightarrow> 5 | Some n \<Rightarrow> n) \<and>
           (\<forall>(y, n) \<in> set res. raw_endpoint_usage sid s e x d \<le> n)"
  proof (intro allI impI)
    fix x assume x: "raw_endpoint_usage sid s e x d \<noteq> 0" "x \<notin> fst ` set res"
    have "map_of m x = Some (raw_endpoint_usage sid s e x d)"
      using get [of x] x(1) by (auto simp: mget_def split: option.splits)
    then have "(x, raw_endpoint_usage sid s e x d) \<in> set ys"
      by (auto simp: ys_def dest: map_of_SomeD)
    then have late: "(x, raw_endpoint_usage sid s e x d) \<in> set (drop k ys)"
      using x(2) r by (metis Un_iff append_take_drop_id fst_conv image_eqI set_append)
    then have "k < length ys" by (cases "k < length ys") auto
    moreover have "raw_endpoint_usage sid s e x d \<le> n" if "(y, n) \<in> set res" for y n
      using srt late that unfolding r
      by (metis append_take_drop_id snd_conv sorted_wrt_append)
    ultimately show "length res = (case limit of None \<Rightarrow> 5 | Some n \<Rightarrow> n) \<and>
           (\<forall>(y, n) \<in> set res. raw_endpoint_usage sid s e x d \<le> n)"
      by (auto simp: r k_def)
  qed
qed

theorem endpoint_breakdown_correct_witness:
  "list_endpoint_usage_for_window (\<lambda>_ _. 0) ''s1'' 0 300000000 None sample_usage_db
     = [(''/a'', 10), (''/b'', 5)]
   \<and> sorted_wrt (\<lambda>a b. snd b \<le> snd a)
       (list_endpoint_usage_for_window (\<lambda>_ _. 0) ''s1'' 0 300000000 None sample_usage_db)"
proof -
  have "list_endpoint_usage_for_window (\<lambda>_ _. 0) ''s1'' 0 300000000 None sample_usage_db
     = [(''/a'', 10), (''/b'', 5)]" by code_simp
  then show ?thesis
    using endpoint_breakdown_correct [OF sample_usage_consistent _ refl, of 0 300000000] by simp
qed

end
