(* ===== verification/Usage.thy ===== *)
theory Usage
  imports UsageAggregation
begin

text \<open>
  \<open>src/modules/usage/usage.service.ts\<close>: authorization of API calls against quota and rate
  limit, with or without recording them, the usage summary, and the ingest entry points. The
  clock, the hash of \<open>hashApiKey\<close> and the ids the database generates are arguments. In an
  answer, \<open>undefined\<close> and \<open>null\<close> are both \<open>None\<close>. Sums and products of counts are exact
  (JavaScript numbers below \<open>2 ^ 53\<close>); the one division, in the overage, is rounded as the code
  rounds it. A transaction runs as one step: the code locks the subscription's row before it
  reads the usage.
\<close>

section \<open>Overage\<close>

record overage_state =
  os_enabled :: bool
  os_unit :: "int option"
  os_price :: "int option"
  os_requests :: int
  os_amount :: int

text \<open>\<open>!x\<close> on a nullable number.\<close>

definition js_falsy :: "int option \<Rightarrow> bool" where
  "js_falsy x \<longleftrightarrow> x = None \<or> x = Some 0"

definition get_overage_state :: "plan_row \<Rightarrow> int \<Rightarrow> overage_state" where
  "get_overage_state p used =
     (if \<not> plan_allow_overage p \<or> js_falsy (plan_overage_unit p) \<or> js_falsy (plan_overage_price p)
         \<or> used \<le> plan_quota p
      then \<lparr>os_enabled = plan_allow_overage p, os_unit = plan_overage_unit p,
            os_price = plan_overage_price p, os_requests = 0, os_amount = 0\<rparr>
      else let requests = used - plan_quota p;
               units = js_ceil_div requests (the (plan_overage_unit p))
           in \<lparr>os_enabled = plan_allow_overage p, os_unit = plan_overage_unit p,
               os_price = plan_overage_price p, os_requests = requests,
               os_amount = units * the (plan_overage_price p)\<rparr>)"

record authorize_overage =
  ao_enabled :: bool
  ao_unit :: "int option"
  ao_price :: "int option"
  ao_projected_requests :: int
  ao_projected_amount :: int

definition to_authorize_overage_state :: "overage_state \<Rightarrow> authorize_overage" where
  "to_authorize_overage_state s =
     \<lparr>ao_enabled = os_enabled s, ao_unit = os_unit s, ao_price = os_price s,
      ao_projected_requests = os_requests s, ao_projected_amount = os_amount s\<rparr>"

record serialized_plan =
  sp_id :: string
  sp_name :: string
  sp_quota :: int
  sp_rpm :: "int option"
  sp_allow_overage :: bool
  sp_overage_unit :: "int option"
  sp_overage_price :: "int option"

definition serialize_plan :: "plan_row \<Rightarrow> serialized_plan" where
  "serialize_plan p =
     \<lparr>sp_id = plan_id p, sp_name = plan_name p, sp_quota = plan_quota p, sp_rpm = plan_rpm p,
      sp_allow_overage = plan_allow_overage p, sp_overage_unit = plan_overage_unit p,
      sp_overage_price = plan_overage_price p\<rparr>"

section \<open>Windows\<close>

definition rate_limit_window_seconds :: int where
  "rate_limit_window_seconds = 60"

definition get_rate_limit_window_start :: "date \<Rightarrow> date \<Rightarrow> date" where
  "get_rate_limit_window_start occurred_at period_start =
     (let start = occurred_at - rate_limit_window_seconds * 1000
      in if period_start < start then start else period_start)"

definition get_usage_window :: "sub_row \<Rightarrow> date \<Rightarrow> (date \<times> date) option" where
  "get_usage_window s t =
     (case sub_start s of
        None \<Rightarrow> None
      | Some start \<Rightarrow>
          if t < start then None
          else if sub_status s = PAST_DUE then
            (case sub_grace s of
               None \<Rightarrow> None
             | Some grace \<Rightarrow> if grace \<le> t then None else Some (start, grace))
          else
            (case sub_end s of
               None \<Rightarrow> None
             | Some e \<Rightarrow> if e \<le> t then None else Some (start, e)))"

section \<open>Finding the subscription\<close>

text \<open>Comparisons with a nullable column are false on null.\<close>

definition col_le :: "date option \<Rightarrow> date \<Rightarrow> bool" where
  "col_le c t = (case c of None \<Rightarrow> False | Some x \<Rightarrow> x \<le> t)"

definition col_gt :: "date option \<Rightarrow> date \<Rightarrow> bool" where
  "col_gt c t = (case c of None \<Rightarrow> False | Some x \<Rightarrow> t < x)"

definition entitled_at :: "date \<Rightarrow> sub_row \<Rightarrow> bool" where
  "entitled_at t s \<longleftrightarrow>
     (sub_status s = ACTIVE \<and> col_le (sub_start s) t \<and> col_gt (sub_end s) t)
   \<or> (sub_status s = PAST_DUE \<and> col_le (sub_start s) t \<and> col_gt (sub_grace s) t)"

definition entitlement_order ::
  "sub_row \<times> plan_row \<times> product_row \<Rightarrow> (int \<times> int) \<times> (int \<times> int) \<times> int" where
  "entitlement_order = (\<lambda>(s, p, r).
     (desc_nulls_first (sub_grace s), desc_nulls_first (sub_end s), - sub_created s))"

definition find_entitled ::
  "string \<Rightarrow> string \<Rightarrow> date \<Rightarrow> db \<Rightarrow> (sub_row \<times> plan_row \<times> product_row) option" where
  "find_entitled uid pid t d =
     find_first entitlement_order
       (\<lambda>(s, p, r). sub_user s = uid \<and> plan_product p = pid \<and> entitled_at t s) (sub_joins d)"

definition find_active_key :: "string \<Rightarrow> db \<Rightarrow> api_key_row option" where
  "find_active_key h d =
     find_first (\<lambda>_. 0 :: int) (\<lambda>k. key_hash k = h \<and> key_active k \<and> key_revoked k = None) (api_keys d)"

text \<open>\<open>hashApiKey\<close>: SHA-256 (a parameter) of the key followed by the salt.\<close>

definition hash_api_key :: "(string \<Rightarrow> string) \<Rightarrow> string \<Rightarrow> string \<Rightarrow> string" where
  "hash_api_key sha256 raw_key salt = sha256 (raw_key @ salt)"

definition hash_incoming_api_key :: "(string \<Rightarrow> string) \<Rightarrow> usage_config \<Rightarrow> string \<Rightarrow> string" where
  "hash_incoming_api_key sha256 cfg raw_key = hash_api_key sha256 raw_key (api_key_salt cfg)"

section \<open>Answers\<close>

datatype denial = Denied_key | Denied_subscription | Denied_quota | Denied_rate

record auth_response =
  ar_allowed :: bool
  ar_reason :: "denial option"
  ar_key :: "string option"
  ar_sub :: "string option"
  ar_user :: "string option"
  ar_window :: "(date \<times> date) option"
  ar_used :: "int option"
  ar_requested :: int
  ar_quota :: "int option"
  ar_remaining :: "int option"
  ar_rpm :: "int option"
  ar_rate_remaining :: "int option"
  ar_overage :: "authorize_overage option"
  ar_recorded :: bool
  ar_plan :: "serialized_plan option"
  ar_product :: "(string \<times> string) option"

text \<open>The answers before a subscription is known.\<close>

definition early_denial ::
  "denial \<Rightarrow> (string \<times> string) option \<Rightarrow> (string \<times> string) option \<Rightarrow> int \<Rightarrow> auth_response" where
  "early_denial reason key product n =
     \<lparr>ar_allowed = False, ar_reason = Some reason, ar_key = map_option fst key, ar_sub = None,
      ar_user = map_option snd key, ar_window = None, ar_used = None, ar_requested = n,
      ar_quota = None, ar_remaining = None, ar_rpm = None, ar_rate_remaining = None,
      ar_overage = None, ar_recorded = False, ar_plan = None, ar_product = product\<rparr>"

text \<open>The answers for a subscription: \<open>used\<close> is the usage reported, \<open>ov\<close> the usage the overage
  is projected from.\<close>

definition sub_response ::
  "denial option \<Rightarrow> string \<Rightarrow> sub_row \<Rightarrow> plan_row \<Rightarrow> product_row \<Rightarrow> date \<times> date \<Rightarrow> int \<Rightarrow> int \<Rightarrow>
   int option \<Rightarrow> int \<Rightarrow> bool \<Rightarrow> auth_response" where
  "sub_response reason kid s p r w used n rate_remaining ov recorded =
     \<lparr>ar_allowed = (reason = None), ar_reason = reason, ar_key = Some kid, ar_sub = Some (sub_id s),
      ar_user = Some (sub_user s), ar_window = Some w, ar_used = Some used, ar_requested = n,
      ar_quota = Some (plan_quota p), ar_remaining = Some (max 0 (plan_quota p - used)),
      ar_rpm = plan_rpm p, ar_rate_remaining = rate_remaining,
      ar_overage = Some (to_authorize_overage_state (get_overage_state p ov)),
      ar_recorded = recorded, ar_plan = Some (serialize_plan p),
      ar_product = Some (prod_id r, prod_title r)\<rparr>"

section \<open>The decision\<close>

definition rate_limit_usage :: "string \<Rightarrow> date \<Rightarrow> date \<Rightarrow> db \<Rightarrow> int" where
  "rate_limit_usage sid t period_start d =
     sum_raw_usage (\<lambda>u. ur_sub u = sid \<and> get_rate_limit_window_start t period_start \<le> ur_at u
                        \<and> ur_at u \<le> t) d"

text \<open>Quota first, then the rate limit: the denial, if any, and the rate limit left before.\<close>

definition usage_decision ::
  "sub_row \<Rightarrow> plan_row \<Rightarrow> date \<times> date \<Rightarrow> date \<Rightarrow> int \<Rightarrow> int \<Rightarrow> db \<Rightarrow> denial option \<times> int option" where
  "usage_decision s p w t used n d =
     (if \<not> plan_allow_overage p \<and> plan_quota p < used + n then (Some Denied_quota, None)
      else case plan_rpm p of
             None \<Rightarrow> (None, None)
           | Some rpm \<Rightarrow>
               let used_rate = rate_limit_usage (sub_id s) t (fst w) d;
                   remaining = max 0 (rpm - used_rate)
               in if rpm < used_rate + n then (Some Denied_rate, Some remaining)
                  else (None, Some remaining))"

section \<open>Authorization\<close>

record authorize_input =
  ai_key :: string
  ai_product :: string
  ai_endpoint :: string
  ai_count :: int
  ai_at :: "date option"
  ai_consume :: "bool option"

definition authorize_usage_with_consumption ::
  "date \<Rightarrow> string \<Rightarrow> string \<Rightarrow> string \<Rightarrow> string \<Rightarrow> int \<Rightarrow> date \<Rightarrow> (db, auth_response) prog" where
  "authorize_usage_with_consumption aggregated_at kid uid pid endpoint n t =
     tx (bnd (gets (find_entitled uid pid t)) (\<lambda>found.
       case found of
         None \<Rightarrow> ret (early_denial Denied_subscription (Some (kid, uid)) None n)
       | Some (s, p, r) \<Rightarrow>
           (case get_usage_window s t of
              None \<Rightarrow> ret (early_denial Denied_subscription (Some (kid, uid)) None n)
            | Some w \<Rightarrow>
                bnd (gets (sum_usage_for_window (sub_id s) (fst w) (snd w))) (\<lambda>used.
                bnd (gets (usage_decision s p w t used n)) (\<lambda>(denied, rate_remaining).
                case denied of
                  Some reason \<Rightarrow> ret (sub_response (Some reason) kid s p r w used n rate_remaining used False)
                | None \<Rightarrow>
                    bnd (gets (\<lambda>d. map_option (\<lambda>rpm. max 0 (rpm - rate_limit_usage (sub_id s) t (fst w) d - n))
                                    (plan_rpm p))) (\<lambda>rate_left.
                    bnd (record_usage_in_transaction aggregated_at
                           \<lparr>ui_sub = sub_id s, ui_at = t, ui_endpoint = endpoint, ui_count = n,
                            ui_job = None\<rparr>) (\<lambda>_.
                    ret (sub_response None kid s p r w (used + n) n rate_left (used + n) True))))))))"

definition authorize_usage_internal ::
  "(string \<Rightarrow> string) \<Rightarrow> usage_config \<Rightarrow> date \<Rightarrow> date \<Rightarrow> authorize_input \<Rightarrow> (db, auth_response) prog" where
  "authorize_usage_internal sha256 cfg now aggregated_at i =
     bnd (gets (\<lambda>d. find_unique (\<lambda>r. prod_id r = ai_product i) (products d))) (\<lambda>product.
     case product of
       None \<Rightarrow> raise (AppError PRODUCT_NOT_FOUND ''PRODUCT_NOT_FOUND'' 404 [])
     | Some r0 \<Rightarrow>
     bnd (gets (find_active_key (hash_incoming_api_key sha256 cfg (ai_key i)))) (\<lambda>key.
     case key of
       None \<Rightarrow> ret (early_denial Denied_key None (Some (prod_id r0, prod_title r0)) (ai_count i))
     | Some k \<Rightarrow>
     let t = (case ai_at i of Some t \<Rightarrow> t | None \<Rightarrow> now);
         no_sub = early_denial Denied_subscription (Some (key_id k, key_user k))
                    (Some (prod_id r0, prod_title r0)) (ai_count i) in
     bnd (gets (find_entitled (key_user k) (ai_product i) t)) (\<lambda>found.
     case found of
       None \<Rightarrow> ret no_sub
     | Some (s, p, r) \<Rightarrow>
     (case get_usage_window s t of
        None \<Rightarrow> ret no_sub
      | Some w \<Rightarrow>
     if ai_consume i = Some True
     then authorize_usage_with_consumption aggregated_at (key_id k) (key_user k) (ai_product i)
            (ai_endpoint i) (ai_count i) t
     else
       bnd (gets (sum_usage_for_window (sub_id s) (fst w) (snd w))) (\<lambda>used.
       bnd (gets (usage_decision s p w t used (ai_count i))) (\<lambda>(denied, rate_remaining).
       case denied of
         Some reason \<Rightarrow>
           ret (sub_response (Some reason) (key_id k) s p r w used (ai_count i) rate_remaining used False)
       | None \<Rightarrow>
           ret (sub_response None (key_id k) s p r w used (ai_count i) rate_remaining
                  (used + ai_count i) False)))))))"

definition assert_usage_secret :: "usage_config \<Rightarrow> string option \<Rightarrow> ('s, unit) prog" where
  "assert_usage_secret cfg secret =
     (if secret = None \<or> secret = Some [] \<or> secret \<noteq> Some (ingest_secret cfg)
      then raise (AppError USAGE_INGEST_FORBIDDEN ''USAGE_INGEST_FORBIDDEN'' 403 [])
      else ret ())"

definition authorize_usage ::
  "(string \<Rightarrow> string) \<Rightarrow> usage_config \<Rightarrow> date \<Rightarrow> date \<Rightarrow> authorize_input \<Rightarrow> string option \<Rightarrow>
   (db, auth_response) prog" where
  "authorize_usage sha256 cfg now aggregated_at i secret =
     bnd (assert_usage_secret cfg secret) (\<lambda>_. authorize_usage_internal sha256 cfg now aggregated_at i)"

definition authorize_gateway_usage ::
  "(string \<Rightarrow> string) \<Rightarrow> usage_config \<Rightarrow> date \<Rightarrow> date \<Rightarrow> authorize_input \<Rightarrow> (db, auth_response) prog" where
  "authorize_gateway_usage = authorize_usage_internal"

section \<open>Ingest\<close>

record record_input =
  ri_sub :: string
  ri_endpoint :: string
  ri_count :: int
  ri_at :: "date option"

definition validate_usage_record_input :: "date \<Rightarrow> record_input \<Rightarrow> db \<Rightarrow> exn + usage_input" where
  "validate_usage_record_input now i d =
     (case find_unique (\<lambda>s. sub_id s = ri_sub i) (subs d) of
        None \<Rightarrow> Inl (AppError SUBSCRIPTION_NOT_FOUND ''SUBSCRIPTION_NOT_FOUND'' 404 [])
      | Some s \<Rightarrow>
          let t = (case ri_at i of Some t \<Rightarrow> t | None \<Rightarrow> now)
          in case get_usage_window s t of
               None \<Rightarrow> Inl (AppError SUBSCRIPTION_NOT_ACTIVE ''SUBSCRIPTION_NOT_ACTIVE'' 400 [])
             | Some w \<Rightarrow> Inr \<lparr>ui_sub = sub_id s, ui_at = t, ui_endpoint = ri_endpoint i,
                             ui_count = ri_count i, ui_job = None\<rparr>)"

definition create_usage_record :: "date \<Rightarrow> date \<Rightarrow> record_input \<Rightarrow> (db, unit) prog" where
  "create_usage_record now aggregated_at i =
     bnd (\<lambda>d. (validate_usage_record_input now i d, d)) (record_usage aggregated_at)"

definition new_job :: "string \<Rightarrow> date \<Rightarrow> usage_input \<Rightarrow> job_row" where
  "new_job jid available v =
     \<lparr>job_id = jid, job_sub = ui_sub v, job_at = ui_at v, job_endpoint = ui_endpoint v,
      job_count = ui_count v, job_stat = JPending, job_attempts = 0, job_available = available,
      job_processed = None, job_error = None, job_created = available\<rparr>"

definition create_job :: "job_row \<Rightarrow> db \<Rightarrow> exn + db" where
  "create_job j d =
     (if \<not> int4_ok (job_count j) then Inl int4_overflow
      else case insert_unique job_viol j (jobs d) of
             Inl e \<Rightarrow> Inl e | Inr js \<Rightarrow> Inr (d\<lparr>jobs := js\<rparr>))"

definition enqueue_usage_record :: "date \<Rightarrow> string \<Rightarrow> date \<Rightarrow> record_input \<Rightarrow> (db, unit) prog" where
  "enqueue_usage_record now jid available i =
     bnd (\<lambda>d. (validate_usage_record_input now i d, d)) (\<lambda>v. writes (create_job (new_job jid available v)))"

definition record_authorized_usage :: "date \<Rightarrow> date \<Rightarrow> record_input \<Rightarrow> (db, unit) prog" where
  "record_authorized_usage now aggregated_at i = create_usage_record now aggregated_at i"

definition ingest_usage ::
  "usage_config \<Rightarrow> date \<Rightarrow> date \<Rightarrow> string \<Rightarrow> record_input \<Rightarrow> string option \<Rightarrow> (db, unit) prog" where
  "ingest_usage cfg now later jid i secret =
     bnd (assert_usage_secret cfg secret) (\<lambda>_.
       if \<not> queue_enabled cfg then create_usage_record now later i
       else enqueue_usage_record now jid later i)"

section \<open>Summary\<close>

record summary_item =
  su_sub :: string
  su_status :: subscription_status
  su_window :: "date \<times> date"
  su_grace :: "date option"
  su_used :: int
  su_quota :: int
  su_percent :: int
  su_overage :: overage_state
  su_plan :: serialized_plan
  su_product :: "string \<times> string"
  su_top :: "(string \<times> int) list"

text \<open>\<open>Math.min(100, Math.floor((used / quota) * 100))\<close> in doubles.\<close>

definition usage_percent :: "int \<Rightarrow> int \<Rightarrow> int" where
  "usage_percent used quota =
     (if 0 < quota then min 100 \<lfloor>dbl (dbl (of_int used / of_int quota) * 100)\<rfloor> else 0)"

definition summary_item_of ::
  "(string \<Rightarrow> string \<Rightarrow> int) \<Rightarrow> db \<Rightarrow> sub_row \<times> plan_row \<times> product_row \<Rightarrow> date \<times> date \<Rightarrow> summary_item" where
  "summary_item_of locale_compare d = (\<lambda>(s, p, r) w.
     (let used = sum_usage_for_window (sub_id s) (fst w) (snd w) d
      in \<lparr>su_sub = sub_id s, su_status = sub_status s, su_window = w, su_grace = sub_grace s,
          su_used = used, su_quota = plan_quota p, su_percent = usage_percent used (plan_quota p),
          su_overage = get_overage_state p used, su_plan = serialize_plan p,
          su_product = (prod_id r, prod_title r),
          su_top = list_endpoint_usage_for_window locale_compare (sub_id s) (fst w) (snd w) None d\<rparr>))"

definition get_summary ::
  "(string \<Rightarrow> string \<Rightarrow> int) \<Rightarrow> string \<Rightarrow> date \<Rightarrow> db \<Rightarrow> summary_item list" where
  "get_summary locale_compare uid t d =
     List.map_filter
       (\<lambda>(s, p, r). map_option (summary_item_of locale_compare d (s, p, r)) (get_usage_window s t))
       (filter (\<lambda>(s, p, r). sub_user s = uid \<and> (sub_status s = ACTIVE \<or> sub_status s = PAST_DUE))
         (sub_joins d))"

section \<open>Windows and entitlement\<close>

text \<open>The window of an entitled subscription does not depend on the time of the call.\<close>

definition usage_bounds :: "sub_row \<Rightarrow> (date \<times> date) option" where
  "usage_bounds s =
     (case (sub_start s, if sub_status s = PAST_DUE then sub_grace s else sub_end s) of
        (Some a, Some b) \<Rightarrow> Some (a, b) | _ \<Rightarrow> None)"

lemma get_usage_window_iff:
  "get_usage_window s t = Some w \<longleftrightarrow> usage_bounds s = Some w \<and> fst w \<le> t \<and> t < snd w"
  by (cases w) (auto simp: get_usage_window_def usage_bounds_def split: option.splits if_splits)

lemma entitled_at_iff:
  "entitled_at t s \<longleftrightarrow> (sub_status s = ACTIVE \<or> sub_status s = PAST_DUE) \<and> get_usage_window s t \<noteq> None"
  by (auto simp: entitled_at_def get_usage_window_def col_le_def col_gt_def split: option.splits)

lemma find_entitled_Some:
  assumes "find_entitled uid pid t d = Some (s, p, r)"
  shows "s \<in> set (subs d) \<and> plan_of d s = Some p \<and> product_of_plan d p = Some r
    \<and> sub_user s = uid \<and> plan_product p = pid \<and> entitled_at t s"
  using find_first_Some(1,2) [OF assms [unfolded find_entitled_def]] by (simp add: sub_joins_iff)

lemma find_active_key_Some:
  "find_active_key h d = Some k \<Longrightarrow>
   k \<in> set (api_keys d) \<and> key_hash k = h \<and> key_active k \<and> key_revoked k = None"
  using find_first_Some(1,2) [of "\<lambda>_. 0 :: int"
      "\<lambda>k. key_hash k = h \<and> key_active k \<and> key_revoked k = None" "api_keys d" k]
  by (simp add: find_active_key_def)

section \<open>What consumption does\<close>

definition consumption_input :: "sub_row \<Rightarrow> date \<Rightarrow> string \<Rightarrow> int \<Rightarrow> usage_input" where
  "consumption_input s t endpoint n =
     \<lparr>ui_sub = sub_id s, ui_at = t, ui_endpoint = endpoint, ui_count = n, ui_job = None\<rparr>"

lemma consumption_cases:
  assumes "authorize_usage_with_consumption ag kid uid pid x n t d = (res, d')"
  obtains (error) e where "res = Inl e" "d' = d" "e = int4_overflow"
  | (denied) a where "res = Inr a" "d' = d" "\<not> ar_allowed a" "\<not> ar_recorded a"
  | (allowed) a s p r w left where "res = Inr a"
      "find_entitled uid pid t d = Some (s, p, r)" "get_usage_window s t = Some w"
      "fst (usage_decision s p w t (sum_usage_for_window (sub_id s) (fst w) (snd w) d) n d) = None"
      "record_usage_in_transaction ag (consumption_input s t x n) d = (Inr (), d')"
      "left = map_option (\<lambda>rpm. max 0 (rpm - rate_limit_usage (sub_id s) t (fst w) d - n)) (plan_rpm p)"
      "a = sub_response None kid s p r w (sum_usage_for_window (sub_id s) (fst w) (snd w) d + n) n left
             (sum_usage_for_window (sub_id s) (fst w) (snd w) d + n) True"
proof (cases "find_entitled uid pid t d")
  case None
  then have "res = Inr (early_denial Denied_subscription (Some (kid, uid)) None n)" "d' = d"
    using assms by (simp_all add: authorize_usage_with_consumption_def tx_def bnd_def gets_def ret_def)
  then show thesis by (rule denied) (simp_all only: early_denial_def auth_response.simps simp_thms)
next
  case (Some f)
  obtain s p r where f: "f = (s, p, r)" by (cases f)
  show thesis
  proof (cases "get_usage_window s t")
    case None
    then have "res = Inr (early_denial Denied_subscription (Some (kid, uid)) None n)" "d' = d"
      using assms Some f
      by (simp_all add: authorize_usage_with_consumption_def tx_def bnd_def gets_def ret_def)
    then show thesis by (rule denied) (simp_all only: early_denial_def auth_response.simps simp_thms)
  next
    case (Some w)
    define used where "used = sum_usage_for_window (sub_id s) (fst w) (snd w) d"
    obtain reason left where dec: "usage_decision s p w t used n d = (reason, left)"
      by (cases "usage_decision s p w t used n d")
    show thesis
    proof (cases reason)
      case reason: (Some rs)
      have "res = Inr (sub_response (Some rs) kid s p r w used n left used False)" "d' = d"
        using assms \<open>find_entitled uid pid t d = Some f\<close> f Some dec reason
        by (auto simp: authorize_usage_with_consumption_def tx_def bnd_def gets_def ret_def used_def)
      then show thesis by (rule denied) (simp_all only: sub_response_def auth_response.simps simp_thms option.distinct)
    next
      case None
      obtain q d1 where rec: "record_usage_in_transaction ag (consumption_input s t x n) d = (q, d1)"
        by (cases "record_usage_in_transaction ag (consumption_input s t x n) d")
      note run = assms [unfolded authorize_usage_with_consumption_def tx_def bnd_def gets_def ret_def]
        \<open>find_entitled uid pid t d = Some f\<close> f Some dec [unfolded used_def] None
        rec [unfolded consumption_input_def]
      show thesis
      proof (cases q)
        case (Inl e)
        then have "res = Inl e" "d' = d" using run by (simp_all add: consumption_input_def)
        then show thesis using record_usage_error [OF rec [unfolded Inl]]
          by (intro error) (simp_all add: consumption_input_def)
      next
        case (Inr u)
        then show thesis
          using run rec dec None \<open>find_entitled uid pid t d = Some f\<close> f Some
          by (intro allowed [of _ s p r w]) (simp_all add: used_def)
      qed
    qed
  qed
qed

lemma decision_none:
  assumes "fst (usage_decision s p w t used n d) = None"
  shows "(\<not> plan_allow_overage p \<longrightarrow> used + n \<le> plan_quota p)
    \<and> (\<forall>rpm. plan_rpm p = Some rpm \<longrightarrow> rate_limit_usage (sub_id s) t (fst w) d + n \<le> rpm)"
  using assms by (auto simp: usage_decision_def Let_def split: if_splits option.splits)

lemma rate_start_le: "a \<le> t \<Longrightarrow> get_rate_limit_window_start t a \<le> t"
  by (simp add: get_rate_limit_window_start_def rate_limit_window_seconds_def Let_def)

lemma rate_limit_usage_record:
  assumes "record_usage_in_transaction ag (consumption_input s t x n) d = (Inr u, d')" "a \<le> t"
  shows "rate_limit_usage (sub_id s) t a d' = rate_limit_usage (sub_id s) t a d + n"
  using record_usage_usages [OF assms(1)] rate_start_le [OF assms(2)]
  by (simp add: rate_limit_usage_def sum_raw_usage_def usage_row_of_def consumption_input_def)

lemma window_usage_record:
  assumes "record_usage_in_transaction ag (consumption_input s t x n) d = (Inr u, d')"
    and "usage_consistent d"
  shows "usage_consistent d' \<and> sum_usage_for_window sid a b d' = sum_usage_for_window sid a b d
    + (if sub_id s = sid \<and> a \<le> t \<and> t < b then n else 0)"
proof -
  have ok: "usage_consistent d'" using record_usage_consistent [OF assms(1,2)] .
  then show ?thesis
    using record_usage_usages [OF assms(1)]
    by (simp add: window_sum_raw [OF ok] window_sum_raw [OF assms(2)] raw_window_usage_def
        raw_between_def usage_row_of_def consumption_input_def)
qed

lemma sub_response_fields [simp]:
  "ar_allowed (sub_response q k s p r w u n l ov b) = (q = None)"
  "ar_reason (sub_response q k s p r w u n l ov b) = q"
  "ar_sub (sub_response q k s p r w u n l ov b) = Some (sub_id s)"
  "ar_user (sub_response q k s p r w u n l ov b) = Some (sub_user s)"
  "ar_window (sub_response q k s p r w u n l ov b) = Some w"
  "ar_used (sub_response q k s p r w u n l ov b) = Some u"
  "ar_remaining (sub_response q k s p r w u n l ov b) = Some (max 0 (plan_quota p - u))"
  "ar_rate_remaining (sub_response q k s p r w u n l ov b) = l"
  "ar_recorded (sub_response q k s p r w u n l ov b) = b"
  by (simp_all add: sub_response_def)

lemma early_denial_fields [simp]:
  "ar_allowed (early_denial q k pr n) = False" "ar_reason (early_denial q k pr n) = Some q"
  "ar_recorded (early_denial q k pr n) = False" "ar_sub (early_denial q k pr n) = None"
  by (simp_all add: early_denial_def)

section \<open>Runs of consuming calls\<close>

text \<open>A consuming call: the clock of the record, key id, user, product, endpoint, count, time.\<close>

type_synonym consumption = "date \<times> string \<times> string \<times> string \<times> string \<times> int \<times> date"

fun consume_all :: "consumption list \<Rightarrow> db \<Rightarrow> db" where
  "consume_all [] d = d"
| "consume_all ((ag, kid, uid, pid, x, n, t) # cs) d =
     consume_all cs (snd (authorize_usage_with_consumption ag kid uid pid x n t d))"

definition quota_respected :: "db \<Rightarrow> bool" where
  "quota_respected d \<longleftrightarrow> list_all (\<lambda>s. case (plan_of d s, usage_bounds s) of
       (Some p, Some (a, b)) \<Rightarrow>
         plan_allow_overage p \<or> sum_usage_for_window (sub_id s) a b d \<le> plan_quota p
     | _ \<Rightarrow> True) (subs d)"

lemma quota_respected_iff:
  "quota_respected d \<longleftrightarrow> (\<forall>s \<in> set (subs d). \<forall>p a b. plan_of d s = Some p \<longrightarrow>
     usage_bounds s = Some (a, b) \<longrightarrow> \<not> plan_allow_overage p \<longrightarrow>
     sum_usage_for_window (sub_id s) a b d \<le> plan_quota p)"
  by (fastforce simp: quota_respected_def list_all_iff split: option.splits)

definition subs_unique :: "db \<Rightarrow> bool" where
  "subs_unique d \<longleftrightarrow> col_unique (\<lambda>s. Some (sub_id s)) (subs d)"

lemma subs_unique_eq:
  "subs_unique d \<Longrightarrow> s \<in> set (subs d) \<Longrightarrow> s' \<in> set (subs d) \<Longrightarrow> sub_id s = sub_id s' \<Longrightarrow> s = s'"
  unfolding subs_unique_def
  by (rule col_unique_row [of "\<lambda>s. Some (sub_id s)" "subs d" s s' "sub_id s"]) simp_all

lemma plan_of_frame: "plans d' = plans d \<Longrightarrow> plan_of d' s = plan_of d s"
  by (simp add: plan_of_def)

lemma consumption_keeps_quota:
  assumes ok: "usage_consistent d" "subs_unique d" "quota_respected d"
    and run: "authorize_usage_with_consumption ag kid uid pid x n t d = (res, d')"
  shows "usage_consistent d' \<and> subs_unique d' \<and> quota_respected d'"
  using run
proof (cases rule: consumption_cases)
  case (allowed a s p r w left)
  note frame = record_usage_frame [OF allowed(5)]
  have s: "s \<in> set (subs d)" "plan_of d s = Some p" using find_entitled_Some [OF allowed(2)] by auto
  have "sum_usage_for_window (sub_id s') a' b' d' \<le> plan_quota p'"
    if s': "s' \<in> set (subs d)" "plan_of d s' = Some p'" "usage_bounds s' = Some (a', b')"
      and no: "\<not> plan_allow_overage p'" for s' p' a' b'
  proof (cases "sub_id s' = sub_id s")
    case True
    then have [simp]: "s' = s" using subs_unique_eq [OF ok(2)] s' s by blast
    have "w = (a', b')" "p' = p" using allowed(3) s' s by (auto simp: get_usage_window_iff)
    moreover have "a' \<le> t" "t < b'" using allowed(3) s'(3) by (auto simp: get_usage_window_iff)
    ultimately show ?thesis
      using decision_none [OF allowed(4)] no window_usage_record [OF allowed(5) ok(1), of "sub_id s" a' b']
      by simp
  next
    case False
    then show ?thesis
      using window_usage_record [OF allowed(5) ok(1), of "sub_id s'" a' b'] ok(3) s' no
      by (simp add: quota_respected_iff)
  qed
  then have "quota_respected d'" unfolding quota_respected_iff frame plan_of_frame [OF frame(2)] by blast
  moreover have "subs_unique d'" using ok(2) by (simp add: subs_unique_def frame)
  ultimately show ?thesis using record_usage_consistent [OF allowed(5) ok(1)] by simp
qed (use ok in simp_all)

lemma consume_all_keeps_quota:
  assumes "usage_consistent d" "subs_unique d" "quota_respected d"
  shows "quota_respected (consume_all cs d)"
  using assms
proof (induction cs d rule: consume_all.induct)
  case (2 ag kid uid pid x n t cs d)
  then show ?case
    using consumption_keeps_quota [OF 2(2-4), of ag kid uid pid x n t] by (metis consume_all.simps(2) prod.collapse)
qed simp

section \<open>Authorization and its preview\<close>

lemma internal_eq:
  assumes "find_unique (\<lambda>r. prod_id r = ai_product i) (products d) = Some r0"
    and "find_active_key (hash_incoming_api_key sha cfg (ai_key i)) d = Some k"
    and "t = (case ai_at i of Some t \<Rightarrow> t | None \<Rightarrow> now)"
    and "find_entitled (key_user k) (ai_product i) t d = Some (s, p, r)"
    and "get_usage_window s t = Some w"
    and "used = sum_usage_for_window (sub_id s) (fst w) (snd w) d"
    and "usage_decision s p w t used (ai_count i) d = (denied, left)"
  shows "authorize_usage_internal sha cfg now ag i d =
    (if ai_consume i = Some True
     then authorize_usage_with_consumption ag (key_id k) (key_user k) (ai_product i) (ai_endpoint i) (ai_count i) t d
     else (Inr (sub_response denied (key_id k) s p r w used (ai_count i) left
        (case denied of None \<Rightarrow> used + ai_count i | Some _ \<Rightarrow> used) False), d))"
  using assms by (simp add: authorize_usage_internal_def bnd_def gets_def ret_def Let_def split: option.splits)

lemma internal_early:
  assumes "authorize_usage_internal sha cfg now ag i d = (res, d')"
  obtains (no_product) "find_unique (\<lambda>r. prod_id r = ai_product i) (products d) = None"
      "res = Inl (AppError PRODUCT_NOT_FOUND ''PRODUCT_NOT_FOUND'' 404 [])" "d' = d"
      "\<And>c. authorize_usage_internal sha cfg now ag (i\<lparr>ai_consume := c\<rparr>) d = (res, d)"
  | (refused) q key pr where "res = Inr (early_denial q key pr (ai_count i))" "d' = d"
      "\<And>c. authorize_usage_internal sha cfg now ag (i\<lparr>ai_consume := c\<rparr>) d = (res, d)"
  | (found) r0 k t s p r w where
      "find_unique (\<lambda>r. prod_id r = ai_product i) (products d) = Some r0"
      "find_active_key (hash_incoming_api_key sha cfg (ai_key i)) d = Some k"
      "t = (case ai_at i of Some t \<Rightarrow> t | None \<Rightarrow> now)"
      "find_entitled (key_user k) (ai_product i) t d = Some (s, p, r)"
      "get_usage_window s t = Some w"
proof (cases "find_unique (\<lambda>r. prod_id r = ai_product i) (products d)")
  case None
  then show thesis using assms
    by (intro no_product) (auto simp: authorize_usage_internal_def bnd_def gets_def raise_def)
next
  case r0: (Some r0)
  show thesis
  proof (cases "find_active_key (hash_incoming_api_key sha cfg (ai_key i)) d")
    case None
    then show thesis using assms r0
      by (intro refused [of Denied_key None "Some (prod_id r0, prod_title r0)"])
        (auto simp: authorize_usage_internal_def bnd_def gets_def ret_def)
  next
    case k: (Some k)
    define t where "t = (case ai_at i of Some t \<Rightarrow> t | None \<Rightarrow> now)"
    show thesis
    proof (cases "find_entitled (key_user k) (ai_product i) t d")
      case None
      then show thesis using assms r0 k
        by (intro refused [of Denied_subscription "Some (key_id k, key_user k)" "Some (prod_id r0, prod_title r0)"])
          (auto simp: authorize_usage_internal_def bnd_def gets_def ret_def t_def Let_def)
    next
      case (Some f)
      obtain s p r where f: "f = (s, p, r)" by (cases f)
      have "get_usage_window s t \<noteq> None"
        using find_entitled_Some [OF Some [unfolded f]] by (simp add: entitled_at_iff)
      then show thesis using found [OF r0 k t_def Some [unfolded f]] by blast
    qed
  qed
qed

section \<open>A sample marketplace\<close>

definition sample_plan :: plan_row where
  "sample_plan = \<lparr>plan_id = ''pl1'', plan_product = ''p1'', plan_name = ''Basic'',
     plan_price_cents = 1000, plan_currency = ''EUR'', plan_per = MONTH, plan_quota = 10,
     plan_rpm = Some 5, plan_allow_overage = False, plan_overage_unit = None,
     plan_overage_price = None, plan_active = True, plan_created = 0\<rparr>"

definition sample_sub :: sub_row where
  "sample_sub = \<lparr>sub_id = ''s1'', sub_user = ''u1'', sub_plan = ''pl1'', sub_provider = MOCK,
     sub_external = None, sub_status = ACTIVE, sub_start = Some 0, sub_end = Some 2592000000,
     sub_grace = None, sub_cancel = False, sub_created = 0, sub_updated = 0\<rparr>"

definition sample_market :: db where
  "sample_market = empty_db\<lparr>
     users := [\<lparr>usr_id = ''u1'', usr_email = ''u1@x'', usr_role = BUYER, usr_stripe_customer = None,
                usr_password = ''hash'', usr_created = 0\<rparr>],
     products := [\<lparr>prod_id = ''p1'', prod_owner = ''u2'', prod_title = ''API'',
                   prod_status = PPublished, prod_created = 0, prod_description = ''Weather data'',
                   prod_category = ''Weather'', prod_tags = [], prod_updated = 0\<rparr>],
     plans := [sample_plan], subs := [sample_sub],
     api_keys := [\<lparr>key_id = ''k1'', key_user = ''u1'', key_hash = ''rawsalt'', key_active = True,
                   key_revoked = None, key_label = ''default'', key_created = 0\<rparr>]\<rparr>"

definition sample_authorize :: "bool \<Rightarrow> int \<Rightarrow> authorize_input" where
  "sample_authorize consume n = \<lparr>ai_key = ''raw'', ai_product = ''p1'', ai_endpoint = ''/a'',
     ai_count = n, ai_at = Some 100000, ai_consume = Some consume\<rparr>"

lemma sample_market_ok:
  "usage_consistent sample_market" "subs_unique sample_market" "quota_respected sample_market"
  by code_simp+

section \<open>Properties of consumption\<close>

text \<open>C1: A consuming authorization is all or nothing and exact: if it is allowed, the call is
  recorded, for an entitled subscription of that user and product, the usage of its window grows
  by exactly the requested count to the reported value, which stays within the quota unless the
  plan allows overage, and the requests of the last minute stay within the rate limit; if it is
  denied or fails, nothing is written.\<close>

theorem consumption_exact:
  assumes "usage_consistent d"
    and "authorize_usage_with_consumption ag kid uid pid x n t d = (res, d')"
  shows "case res of
      Inl e \<Rightarrow> d' = d \<and> e = int4_overflow
    | Inr a \<Rightarrow> ar_recorded a = ar_allowed a \<and> usage_consistent d' \<and>
        (if ar_allowed a
         then \<exists>s p r a0 b0. s \<in> set (subs d) \<and> plan_of d s = Some p \<and> sub_user s = uid \<and> plan_product p = pid
            \<and> entitled_at t s \<and> get_usage_window s t = Some (a0, b0) \<and> product_of_plan d p = Some r
            \<and> usages d' = usages d @ [usage_row_of ag (consumption_input s t x n)]
            \<and> sum_usage_for_window (sub_id s) a0 b0 d' = sum_usage_for_window (sub_id s) a0 b0 d + n
            \<and> ar_used a = Some (sum_usage_for_window (sub_id s) a0 b0 d')
            \<and> (\<not> plan_allow_overage p \<longrightarrow> sum_usage_for_window (sub_id s) a0 b0 d' \<le> plan_quota p)
            \<and> (\<forall>rpm. plan_rpm p = Some rpm \<longrightarrow> rate_limit_usage (sub_id s) t a0 d' \<le> rpm
                 \<and> ar_rate_remaining a = Some (rpm - rate_limit_usage (sub_id s) t a0 d'))
         else d' = d)"
  using assms(2)
proof (cases rule: consumption_cases)
  case (error e)
  then show ?thesis by simp
next
  case (denied a)
  then show ?thesis using assms(1) by simp
next
  case (allowed a s p r w left)
  obtain a0 b0 where w: "w = (a0, b0)" by (cases w)
  have found: "s \<in> set (subs d)" "plan_of d s = Some p" "product_of_plan d p = Some r"
    "sub_user s = uid" "plan_product p = pid" "entitled_at t s"
    using find_entitled_Some [OF allowed(2)] by auto
  have in_w: "a0 \<le> t" "t < b0" using allowed(3) w by (auto simp: get_usage_window_iff)
  have win: "usage_consistent d'" "sum_usage_for_window (sub_id s) a0 b0 d'
      = sum_usage_for_window (sub_id s) a0 b0 d + n"
    using window_usage_record [OF allowed(5) assms(1), of "sub_id s" a0 b0] in_w by auto
  have rate: "rate_limit_usage (sub_id s) t a0 d' = rate_limit_usage (sub_id s) t a0 d + n"
    by (rule rate_limit_usage_record [OF allowed(5) in_w(1)])
  have "usages d' = usages d @ [usage_row_of ag (consumption_input s t x n)]"
    by (rule record_usage_usages [OF allowed(5)])
  then show ?thesis
    using found win rate decision_none [OF allowed(4)] allowed(1,3,6,7) unfolding w
    apply (simp only: sum.case allowed(1) sub_response_fields if_True simp_thms)
    apply (rule exI [of _ s], rule exI [of _ p], rule exI [of _ r], rule exI [of _ a0], rule exI [of _ b0])
    apply auto
    done
qed

theorem consumption_exact_witness:
  "\<exists>a d'. authorize_usage_with_consumption 1 ''k1'' ''u1'' ''p1'' ''/a'' 4 100000 sample_market = (Inr a, d')
     \<and> ar_allowed a \<and> ar_recorded a \<and> usage_consistent d'"
proof -
  let ?p = "authorize_usage_with_consumption 1 ''k1'' ''u1'' ''p1'' ''/a'' 4 100000 sample_market"
  have "case fst ?p of Inl e \<Rightarrow> False | Inr a \<Rightarrow> ar_allowed a" by code_simp
  then obtain a d' where p: "?p = (Inr a, d')" "ar_allowed a" by (cases ?p) (auto split: sum.splits)
  then show ?thesis using consumption_exact [OF sample_market_ok(1) p(1)] by auto
qed

text \<open>C2: However many consuming calls run, for whatever users, products, times and counts, no
  subscription whose plan forbids overage ever has more recorded usage in its window than its
  quota.\<close>

theorem quota_never_exceeded:
  assumes "usage_consistent d" "subs_unique d" "quota_respected d"
  shows "quota_respected (consume_all calls d)"
  using assms by (rule consume_all_keeps_quota)

theorem quota_never_exceeded_witness:
  "quota_respected (consume_all [(1, ''k1'', ''u1'', ''p1'', ''/a'', 4, 100000),
       (2, ''k1'', ''u1'', ''p1'', ''/a'', 5, 200000), (3, ''k1'', ''u1'', ''p1'', ''/b'', 3, 300000)]
     sample_market)
   \<and> map ur_count (usages (consume_all [(1, ''k1'', ''u1'', ''p1'', ''/a'', 4, 100000),
       (2, ''k1'', ''u1'', ''p1'', ''/a'', 5, 200000), (3, ''k1'', ''u1'', ''p1'', ''/b'', 3, 300000)]
     sample_market)) = [4, 5]"
  by (rule conjI [OF quota_never_exceeded [OF sample_market_ok]]) code_simp

text \<open>C16: An authorization without consumption writes nothing and previews the consuming call made
  in the same state: the same errors and, word for word, the same denials; where it allows, the
  consuming call records the usage for the same subscription and reports the count on top of the
  usage previewed, or fails with a 32-bit overflow and writes nothing.\<close>

theorem preview_agrees_with_consumption:
  assumes "ai_consume i \<noteq> Some True"
    and "authorize_usage_internal sha cfg now ag i d = (r0, d0)"
    and "authorize_usage_internal sha cfg now ag (i\<lparr>ai_consume := Some True\<rparr>) d = (r1, d1)"
  shows "d0 = d \<and> (case r0 of
      Inl e \<Rightarrow> r1 = Inl e \<and> d1 = d
    | Inr a \<Rightarrow> \<not> ar_recorded a \<and>
        (if ar_allowed a
         then (r1 = Inl int4_overflow \<and> d1 = d) \<or>
              (\<exists>b. r1 = Inr b \<and> ar_allowed b \<and> ar_recorded b \<and> ar_sub b = ar_sub a
                 \<and> ar_used b = map_option (\<lambda>u. u + ai_count i) (ar_used a))
         else r1 = Inr a \<and> d1 = d))"
  using assms(2)
proof (cases rule: internal_early)
  case no_product
  then show ?thesis using assms(3) by auto
next
  case (refused q key pr)
  then show ?thesis using assms(3) by auto
next
  case (found rp k t s p r w)
  define used where "used = sum_usage_for_window (sub_id s) (fst w) (snd w) d"
  obtain denied left where dec: "usage_decision s p w t used (ai_count i) d = (denied, left)"
    by (cases "usage_decision s p w t used (ai_count i) d")
  have r0: "r0 = Inr (sub_response denied (key_id k) s p r w used (ai_count i) left
      (case denied of None \<Rightarrow> used + ai_count i | Some _ \<Rightarrow> used) False)" "d0 = d"
    using internal_eq [OF found used_def dec] assms(1,2) by simp_all
  have run: "authorize_usage_with_consumption ag (key_id k) (key_user k) (ai_product i) (ai_endpoint i)
      (ai_count i) t d = (r1, d1)"
    using internal_eq [of "i\<lparr>ai_consume := Some True\<rparr>" d rp sha cfg k t now s p r w used denied left ag]
      found used_def dec assms(3) by simp
  show ?thesis
  proof (cases denied)
    case (Some q)
    have "r1 = Inr (sub_response (Some q) (key_id k) s p r w used (ai_count i) left used False) \<and> d1 = d"
      using run found(4,5) dec Some
      by (auto simp: authorize_usage_with_consumption_def tx_def bnd_def gets_def ret_def used_def)
    then show ?thesis using r0 Some by simp
  next
    case None
    from run show ?thesis
    proof (cases rule: consumption_cases)
      case (error e)
      then show ?thesis using r0 None by simp
    next
      case denied1: (denied a)
      obtain q d2 where "record_usage_in_transaction ag (consumption_input s t (ai_endpoint i) (ai_count i)) d = (q, d2)"
        by (cases "record_usage_in_transaction ag (consumption_input s t (ai_endpoint i) (ai_count i)) d")
      then have False using run found(4,5) dec None denied1
        by (cases q) (auto simp: authorize_usage_with_consumption_def tx_def bnd_def gets_def ret_def used_def
            consumption_input_def)
      then show ?thesis ..
    next
      case (allowed a s' p' r' w' left')
      then have "s' = s" "w' = w" using found(4,5) by simp_all
      then show ?thesis using allowed r0 None by (simp add: used_def)
    qed
  qed
qed

theorem preview_agrees_with_consumption_witness:
  "\<exists>a b d1. authorize_usage_internal id sample_usage_config 0 1 (sample_authorize False 4) sample_market
       = (Inr a, sample_market) \<and> ar_allowed a \<and>
     authorize_usage_internal id sample_usage_config 0 1 (sample_authorize True 4) sample_market
       = (Inr b, d1) \<and> ar_allowed b \<and> ar_used b = Some 4"
proof -
  let ?p = "authorize_usage_internal id sample_usage_config 0 1 (sample_authorize False 4) sample_market"
  let ?q = "authorize_usage_internal id sample_usage_config 0 1
      (sample_authorize False 4\<lparr>ai_consume := Some True\<rparr>) sample_market"
  have "case fst ?p of Inl e \<Rightarrow> False | Inr a \<Rightarrow> ar_allowed a \<and> ar_used a = Some 0" by code_simp
  then obtain a d0 where p: "?p = (Inr a, d0)" "ar_allowed a" "ar_used a = Some 0"
    by (cases ?p) (auto split: sum.splits)
  have "case fst ?q of Inl e \<Rightarrow> False | Inr a \<Rightarrow> True" by code_simp
  then obtain b d1 where q: "?q = (Inr b, d1)" by (cases ?q) (auto split: sum.splits)
  have "ai_consume (sample_authorize False 4) \<noteq> Some True" by (simp add: sample_authorize_def)
  from preview_agrees_with_consumption [OF this p(1) q]
  have "d0 = sample_market" "ar_allowed b" "ar_used b = Some 4"
    using p(2,3) by (simp_all add: sample_authorize_def)
  moreover have "sample_authorize False 4\<lparr>ai_consume := Some True\<rparr> = sample_authorize True 4"
    by (simp add: sample_authorize_def)
  ultimately show ?thesis using p(1,2) q by auto
qed

text \<open>C17: Whoever is let through is entitled: an allowed answer, consuming or not, means that the
  presented key hashes to an active, unrevoked key, and its user has a subscription to the
  product that is ACTIVE within its period or PAST_DUE within its grace period at the time of
  the call; a pending, cancelled or lapsed subscription never authorizes a call.\<close>

theorem allowed_implies_entitled:
  assumes "authorize_usage_internal sha cfg now ag i d = (Inr a, d')" and "ar_allowed a"
    and "t = (case ai_at i of Some t \<Rightarrow> t | None \<Rightarrow> now)"
  shows "\<exists>k s p. k \<in> set (api_keys d) \<and> key_active k \<and> key_revoked k = None
    \<and> key_hash k = sha (ai_key i @ api_key_salt cfg) \<and> s \<in> set (subs d) \<and> sub_user s = key_user k
    \<and> plan_of d s = Some p \<and> plan_product p = ai_product i
    \<and> ((sub_status s = ACTIVE \<and> (\<exists>b e. sub_start s = Some b \<and> sub_end s = Some e \<and> b \<le> t \<and> t < e))
       \<or> (sub_status s = PAST_DUE \<and> (\<exists>b e. sub_start s = Some b \<and> sub_grace s = Some e \<and> b \<le> t \<and> t < e)))"
  using assms(1)
proof (cases rule: internal_early)
  case (refused q key pr)
  then show ?thesis using assms(2) by simp
next
  case (found rp k t' s p r w)
  have "t' = t" using found(3) assms(3) by simp
  then have "entitled_at t s" using find_entitled_Some [OF found(4)] by simp
  then show ?thesis
    using find_entitled_Some [OF found(4)] find_active_key_Some [OF found(2)]
    by (intro exI [of _ k] exI [of _ s] exI [of _ p])
      (auto simp: entitled_at_def col_le_def col_gt_def hash_incoming_api_key_def hash_api_key_def
        split: option.splits)
qed simp

theorem allowed_implies_entitled_witness:
  "ar_allowed (case fst (authorize_usage_internal id sample_usage_config 0 1 (sample_authorize False 4) sample_market)
     of Inr a \<Rightarrow> a) \<and> (\<exists>k s p. k \<in> set (api_keys sample_market) \<and> key_active k \<and> key_revoked k = None
    \<and> key_hash k = ''rawsalt'' \<and> s \<in> set (subs sample_market) \<and> sub_user s = key_user k
    \<and> plan_of sample_market s = Some p \<and> plan_product p = ''p1'')"
proof -
  let ?p = "authorize_usage_internal id sample_usage_config 0 1 (sample_authorize False 4) sample_market"
  have "case fst ?p of Inl e \<Rightarrow> False | Inr a \<Rightarrow> ar_allowed a" by code_simp
  then obtain a d0 where p: "?p = (Inr a, d0)" "ar_allowed a" by (cases ?p) (auto split: sum.splits)
  from allowed_implies_entitled [OF p refl] show ?thesis
    using p by (simp add: sample_authorize_def sample_usage_config_def) blast
qed

section \<open>Overage and summary\<close>

lemma pct_fits: "is_double (1 - 1 / 2 ^ 31)"
proof -
  have "(1 - 1 / 2 ^ 31 :: rat) = of_int (2 ^ 31 - 1) * pow2 (- 31)" by (simp add: pow2_def)
  then show ?thesis unfolding is_double_iff fits53_def
    by (intro exI [of _ "2 ^ 31 - 1"] exI [of _ "- 31"]) simp
qed

lemma usage_percent_below:
  assumes used: "0 \<le> used" "used < quota" and quota: "0 < quota" "quota < 2 ^ 31"
  shows "0 \<le> usage_percent used quota \<and> usage_percent used quota < 100
    \<and> \<bar>usage_percent used quota - used * 100 div quota\<bar> \<le> 1"
proof -
  define x where "x = (of_int used / of_int quota :: rat)"
  define y where "y = dbl x"
  define z where "z = dbl (y * 100)"
  have q: "(0 :: rat) < of_int quota" "(of_int quota :: rat) < 2 ^ 31"
    using quota by (simp, metis of_int_less_numeral_power_cancel_iff)
  have x0: "0 \<le> x" using used(1) q(1) by (simp add: x_def)
  have "(of_int used :: rat) + 1 \<le> of_int quota"
    using used(2) by (metis of_int_1 of_int_add of_int_le_iff zless_imp_add1_zle)
  then have "x \<le> (of_int quota - 1) / of_int quota"
    unfolding x_def using q(1) by (intro divide_right_mono) auto
  also have "\<dots> = 1 - 1 / of_int quota" using q(1) by (simp add: diff_divide_distrib)
  also have "\<dots> \<le> 1 - 1 / 2 ^ 31" using q by (simp add: frac_le)
  finally have x1: "x \<le> 1 - 1 / 2 ^ 31" .
  have y0: "0 \<le> y" unfolding y_def using x0 by (rule dbl_nonneg)
  have y1: "y \<le> 1 - 1 / 2 ^ 31"
    using dbl_mono [OF x1] pct_fits by (simp add: y_def is_double_def)
  have z0: "0 \<le> z" unfolding z_def using y0 by (intro dbl_nonneg) simp
  have ey: "\<bar>y - x\<bar> \<le> x / 2 ^ 53"
    using dbl_error [of x] x0 by (cases "x = 0") (simp_all add: y_def)
  have ez: "\<bar>z - y * 100\<bar> \<le> y * 100 / 2 ^ 53"
    using dbl_error [of "y * 100"] y0 by (cases "y = 0") (simp_all add: z_def)
  have "z - y * 100 \<le> y * 100 / 2 ^ 53" using ez by (rule abs_le_D1)
  then have z1: "z < 100" using y0 y1 by simp
  have fl: "\<lfloor>x * 100\<rfloor> = used * 100 div quota"
    using floor_divide_of_int_eq [of "used * 100" quota, where ?'a = rat] by (simp add: x_def)
  have "y * 100 / 2 ^ 53 < 1 / 2" "x / 2 ^ 53 < 1 / 200" using x0 x1 y0 y1 by simp_all
  then have "\<bar>z - y * 100\<bar> < 1 / 2" "\<bar>y - x\<bar> < 1 / 200" using ey ez by linarith+
  then have "\<bar>z - x * 100\<bar> < 1" by linarith
  then have d: "\<bar>\<lfloor>z\<rfloor> - \<lfloor>x * 100\<rfloor>\<bar> \<le> 1" by linarith
  have u: "usage_percent used quota = \<lfloor>z\<rfloor>"
    using quota z1 by (simp add: usage_percent_def x_def y_def z_def)
  show ?thesis using z0 z1 d fl u by (simp add: floor_less_iff)
qed

lemma usage_percent_one_short: "usage_percent 29 100 = 28"
  by code_simp

text \<open>The usage percentage shown is between 0 and 100, is 100 exactly when the quota is used
  up, and otherwise differs from the exact floor by at most one (the code computes it in
  doubles, so it can be one too small).\<close>

theorem usage_percent_correct:
  assumes "0 \<le> used" "used \<le> 2 ^ 53" "0 < quota" "quota < 2 ^ 31"
  shows "0 \<le> usage_percent used quota \<and> usage_percent used quota \<le> 100
    \<and> (usage_percent used quota = 100 \<longleftrightarrow> quota \<le> used)
    \<and> (used < quota \<longrightarrow> \<bar>usage_percent used quota - used * 100 div quota\<bar> \<le> 1)"
proof (cases "used < quota")
  case True
  then show ?thesis using usage_percent_below [OF assms(1) True assms(3,4)] by auto
next
  case False
  have "(1 :: rat) \<le> of_int used / of_int quota" using False assms(3) by simp
  then have "1 \<le> dbl (of_int used / of_int quota)" using dbl_ge_int [of 1] by simp
  then have "100 \<le> dbl (of_int used / of_int quota) * 100" by simp
  then have "100 \<le> dbl (dbl (of_int used / of_int quota) * 100)" using dbl_ge_int [of 100] by simp
  then have "usage_percent used quota = 100" using assms(3) by (simp add: usage_percent_def le_floor_iff)
  then show ?thesis using False by simp
qed

theorem usage_percent_correct_witness:
  "usage_percent 29 100 = 28 \<and> \<bar>usage_percent 29 100 - 29 * 100 div 100\<bar> \<le> 1"
  using usage_percent_correct [of 29 100] usage_percent_one_short by simp

text \<open>The overage charged is right: with overage priced, a usage above the quota is billed in
  whole units that cover the excess and exceed it by less than one unit, at the unit price;
  otherwise nothing is billed.\<close>

theorem overage_covers_excess:
  assumes "0 \<le> plan_quota p" "used < 2 ^ 53"
  shows "if plan_allow_overage p \<and> (\<exists>u c. plan_overage_unit p = Some u \<and> plan_overage_price p = Some c
            \<and> u \<noteq> 0 \<and> c \<noteq> 0) \<and> plan_quota p < used
     then os_requests (get_overage_state p used) = used - plan_quota p
       \<and> (0 < the (plan_overage_unit p) \<longrightarrow> (\<exists>units.
            os_amount (get_overage_state p used) = units * the (plan_overage_price p)
          \<and> used - plan_quota p \<le> units * the (plan_overage_unit p)
          \<and> units * the (plan_overage_unit p) < used - plan_quota p + the (plan_overage_unit p)))
     else os_requests (get_overage_state p used) = 0 \<and> os_amount (get_overage_state p used) = 0"
proof (cases "plan_allow_overage p \<and> (\<exists>u c. plan_overage_unit p = Some u \<and> plan_overage_price p = Some c
            \<and> u \<noteq> 0 \<and> c \<noteq> 0) \<and> plan_quota p < used")
  case True
  then obtain u c where u: "plan_overage_unit p = Some u" "plan_overage_price p = Some c" "u \<noteq> 0" "c \<noteq> 0"
    by blast
  let ?n = "used - plan_quota p"
  have st: "os_requests (get_overage_state p used) = ?n"
    "os_amount (get_overage_state p used) = js_ceil_div ?n u * c"
    using True u by (auto simp: get_overage_state_def js_falsy_def Let_def)
  have "?n \<le> js_ceil_div ?n u * u \<and> js_ceil_div ?n u * u < ?n + u" if "0 < u"
    using True assms that by (intro js_ceil_div_bounds) auto
  then show ?thesis unfolding if_P [OF True] using st u by auto
next
  case False
  then show ?thesis by (auto simp: get_overage_state_def js_falsy_def)
qed

theorem overage_covers_excess_witness:
  "os_requests (get_overage_state (sample_plan\<lparr>plan_allow_overage := True, plan_overage_unit := Some 10,
      plan_overage_price := Some 7\<rparr>) 31) = 21
   \<and> os_amount (get_overage_state (sample_plan\<lparr>plan_allow_overage := True, plan_overage_unit := Some 10,
      plan_overage_price := Some 7\<rparr>) 31) = 21"
proof -
  let ?p = "sample_plan\<lparr>plan_allow_overage := True, plan_overage_unit := Some 10, plan_overage_price := Some 7\<rparr>"
  have "os_amount (get_overage_state ?p 31) = 21" by code_simp
  moreover have "os_requests (get_overage_state ?p 31) = 21"
    using overage_covers_excess [of ?p 31] by (simp add: sample_plan_def)
  ultimately show ?thesis by simp
qed



section \<open>Ingest\<close>

text \<open>Ingest rejects without a trace and accepts exactly once: a wrong secret (403), an unknown
  subscription (404), a time outside the subscription's window (400) or a database refusal
  leave the database unchanged; an accepted report for a known subscription is, by the
  configuration, either one more PENDING job and nothing else or one more usage record.\<close>

theorem ingest_all_or_nothing:
  assumes "ingest_usage cfg now later jid i secret d = (res, d')"
  shows "case res of
      Inl e \<Rightarrow> d' = d \<and>
        (secret \<noteq> Some (ingest_secret cfg) \<longrightarrow> exn_code e = Some USAGE_INGEST_FORBIDDEN \<and> exn_status e = Some 403) \<and>
        (exn_code e = Some SUBSCRIPTION_NOT_FOUND \<longrightarrow> ri_sub i \<notin> sub_id ` set (subs d)) \<and>
        (exn_code e \<noteq> None \<longrightarrow> exn_status e \<in> {Some 403, Some 404, Some 400})
    | Inr _ \<Rightarrow> secret = Some (ingest_secret cfg) \<and> (\<exists>v s. s \<in> set (subs d) \<and> sub_id s = ri_sub i
        \<and> get_usage_window s (ui_at v) \<noteq> None \<and> ui_sub v = ri_sub i \<and> ui_count v = ri_count i
        \<and> (if queue_enabled cfg
           then d' = d\<lparr>jobs := jobs d @ [new_job jid later v]\<rparr> \<and> job_stat (new_job jid later v) = JPending
           else usages d' = usages d @ [usage_row_of later v] \<and> jobs d' = jobs d))"
proof (cases "secret \<noteq> Some (ingest_secret cfg) \<or> secret = Some []")
  case True
  then have "res = Inl (AppError USAGE_INGEST_FORBIDDEN ''USAGE_INGEST_FORBIDDEN'' 403 []) \<and> d' = d"
    using assms by (cases secret) (auto simp: ingest_usage_def assert_usage_secret_def raise_def bnd_def)
  then show ?thesis by simp
next
  case ok: False
  define t where "t = (case ri_at i of Some t \<Rightarrow> t | None \<Rightarrow> now)"
  have sec: "secret = Some (ingest_secret cfg)" using ok by simp
  show ?thesis
  proof (cases "find_unique (\<lambda>s. sub_id s = ri_sub i) (subs d)")
    case None
    then have "ri_sub i \<notin> sub_id ` set (subs d)" by (auto simp: find_unique_None)
    moreover have "res = Inl (AppError SUBSCRIPTION_NOT_FOUND ''SUBSCRIPTION_NOT_FOUND'' 404 []) \<and> d' = d"
      using assms ok None by (auto simp: ingest_usage_def assert_usage_secret_def create_usage_record_def
          enqueue_usage_record_def validate_usage_record_input_def bnd_def ret_def split: if_splits)
    ultimately show ?thesis using sec by simp
  next
    case (Some s)
    then have s: "s \<in> set (subs d)" "sub_id s = ri_sub i" using find_unique_Some [OF Some] by auto
    show ?thesis
    proof (cases "get_usage_window s t")
      case None
      then have "res = Inl (AppError SUBSCRIPTION_NOT_ACTIVE ''SUBSCRIPTION_NOT_ACTIVE'' 400 []) \<and> d' = d"
        using assms ok Some by (auto simp: ingest_usage_def assert_usage_secret_def create_usage_record_def
          enqueue_usage_record_def validate_usage_record_input_def bnd_def ret_def Let_def t_def split: if_splits)
      then show ?thesis using sec by simp
    next
      case w: (Some w)
      define v where "v = \<lparr>ui_sub = sub_id s, ui_at = t, ui_endpoint = ri_endpoint i, ui_count = ri_count i, ui_job = None\<rparr>"
      have valid: "validate_usage_record_input now i d = Inr v"
        using Some w by (simp add: validate_usage_record_input_def v_def t_def Let_def)
      have v: "get_usage_window s (ui_at v) \<noteq> None" "ui_sub v = ri_sub i" "ui_count v = ri_count i"
        using w s by (simp_all add: v_def)
      show ?thesis
      proof (cases "queue_enabled cfg")
        case True
        then have run: "writes (create_job (new_job jid later v)) d = (res, d')"
          using assms ok valid by (simp add: ingest_usage_def assert_usage_secret_def enqueue_usage_record_def bnd_def ret_def)
        show ?thesis
        proof (cases res)
          case (Inl e)
          then have "create_job (new_job jid later v) d = Inl e \<and> d' = d" using run by (simp add: writes_Inl)
          then show ?thesis using Inl sec
            by (auto simp: create_job_def int4_overflow_def job_viol_def unique_violation_def
                split: if_splits sum.splits dest!: insert_unique_Inl)
        next
          case (Inr u)
          then have "create_job (new_job jid later v) d = Inr d'" using run by (simp add: writes_Inr)
          then have "d' = d\<lparr>jobs := jobs d @ [new_job jid later v]\<rparr>"
            by (auto simp: create_job_def insert_unique_Inr split: if_splits sum.splits)
          then show ?thesis using Inr sec s v True
            by (auto simp: new_job_def intro!: exI [of _ v] exI [of _ s])
        qed
      next
        case False
        then have run: "record_usage later v d = (res, d')"
          using assms ok valid by (simp add: ingest_usage_def assert_usage_secret_def create_usage_record_def bnd_def ret_def)
        show ?thesis
        proof (cases res)
          case (Inl e)
          then obtain d1 where r: "record_usage_in_transaction later v d = (Inl e, d1)" "d' = d"
            using run by (auto simp: record_usage_def tx_def split: prod.splits sum.splits)
          then have "e = int4_overflow" using record_usage_error [OF r(1)] by (simp add: v_def)
          then show ?thesis using Inl sec r by (simp add: int4_overflow_def)
        next
          case (Inr u)
          then have "record_usage_in_transaction later v d = (Inr u, d')" using run by (simp add: record_usage_def tx_Inr)
          from record_usage_usages [OF this] record_usage_frame [OF this]
          show ?thesis using Inr sec s v False
            by (auto intro!: exI [of _ v] exI [of _ s])
        qed
      qed
    qed
  qed
qed

theorem ingest_all_or_nothing_witness:
  "\<exists>d'. ingest_usage sample_usage_config 5 6 ''j1'' \<lparr>ri_sub = ''s1'', ri_endpoint = ''/a'', ri_count = 2,
       ri_at = None\<rparr> (Some ''secret'') sample_market = (Inr (), d') \<and> jobs d' \<noteq> []"
proof -
  let ?p = "ingest_usage sample_usage_config 5 6 ''j1'' \<lparr>ri_sub = ''s1'', ri_endpoint = ''/a'', ri_count = 2,
       ri_at = None\<rparr> (Some ''secret'') sample_market"
  have "fst ?p = Inr ()" by code_simp
  then have "?p = (Inr (), snd ?p)" by (metis prod.collapse)
  moreover from ingest_all_or_nothing [OF this]
  have "jobs (snd ?p) \<noteq> []" by (auto simp: sample_usage_config_def)
  ultimately show ?thesis by blast
qed

text \<open>The window check ignores the status, so a report for a CANCELED subscription whose period
  has not ended is accepted.\<close>

lemma ingest_accepts_canceled:
  "fst (ingest_usage sample_usage_config 5 6 ''j1'' \<lparr>ri_sub = ''s1'', ri_endpoint = ''/a'', ri_count = 2,
     ri_at = None\<rparr> (Some ''secret'')
     (sample_market\<lparr>subs := [sample_sub\<lparr>sub_status := CANCELED\<rparr>]\<rparr>)) = Inr ()"
  by code_simp

end
