(* ===== verification/Lease.thy ===== *)
theory Lease
  imports Schema
begin

text \<open>
  The background-job lease (\<open>BackgroundJobLease\<close>) that the four workers take before a cycle:
  a row per job name with its owner and expiry, read and written in one serializable
  transaction. The body of \<open>tryAcquireLease\<close> is the same text in all four workers; each worker
  has its own entry point below, with its name, its lease duration and its treatment of a
  serialization failure. The contract of a lease is the locale \<open>lease_lock\<close>: mutual exclusion
  is proved there once, for any sequence of attempts, and holds for each worker's lease.
\<close>

section \<open>The lease transaction\<close>

definition find_lease :: "string \<Rightarrow> db \<Rightarrow> lease_row option" where
  "find_lease name d = find_unique (\<lambda>l. lease_name l = name) (leases d)"

text \<open>\<open>backgroundJobLease.create\<close>, with a unique violation answered by \<open>false\<close>.\<close>

definition create_lease :: "lease_row \<Rightarrow> (db, bool) prog" where
  "create_lease l = (\<lambda>d. case insert_unique lease_viol l (leases d) of
       Inl e \<Rightarrow> (if exn_prisma_code e = Some ''P2002'' then Inr False else Inl e, d)
     | Inr ls \<Rightarrow> (Inr True, d\<lparr>leases := ls\<rparr>))"

text \<open>\<open>backgroundJobLease.updateMany\<close>: the number of rows that matched.\<close>

definition take_over_lease :: "lease_row \<Rightarrow> string \<Rightarrow> date \<Rightarrow> (db, int) prog" where
  "take_over_lease old owner expires = (\<lambda>d.
     let hit = (\<lambda>l. lease_name l = lease_name old \<and> lease_owner l = lease_owner old
                    \<and> lease_expires l = lease_expires old)
     in (Inr (int (length (filter hit (leases d)))),
         d\<lparr>leases := map (\<lambda>l. if hit l then l\<lparr>lease_owner := owner, lease_expires := expires\<rparr> else l)
                       (leases d)\<rparr>))"

definition lease_body :: "string \<Rightarrow> string \<Rightarrow> date \<Rightarrow> date \<Rightarrow> (db, bool) prog" where
  "lease_body name owner now expires =
     bnd (gets (find_lease name)) (\<lambda>lease.
       case lease of
         None \<Rightarrow> create_lease \<lparr>lease_name = name, lease_owner = owner, lease_expires = expires\<rparr>
       | Some l \<Rightarrow>
           if lease_owner l \<noteq> owner \<and> now < lease_expires l then ret False
           else bnd (take_over_lease l owner expires) (\<lambda>count. ret (count = 1)))"

text \<open>A serializable transaction that the database may abort (\<open>fault\<close>).\<close>

definition lease_transaction ::
  "string \<Rightarrow> string \<Rightarrow> date \<Rightarrow> date \<Rightarrow> exn option \<Rightarrow> (db, bool) prog" where
  "lease_transaction name owner now expires fault =
     tx (bnd (lease_body name owner now expires) (\<lambda>b. bnd (may_fail fault) (\<lambda>_. ret b)))"

definition lease_duration :: "int \<Rightarrow> int" where
  "lease_duration interval_seconds = max (interval_seconds * 2) 60 * 1000"

definition is_retryable_transaction_error :: "exn \<Rightarrow> bool" where
  "is_retryable_transaction_error e \<longleftrightarrow> exn_prisma_code e = Some ''P2034''"

section \<open>The workers' leases\<close>

definition usage_ingest_lease_name :: string where
  "usage_ingest_lease_name = ''usage:ingest-queue''"

definition managed_retry_lease_name :: string where
  "managed_retry_lease_name = ''billing:managed-retry''"

definition overage_lease_name :: string where
  "overage_lease_name = ''billing:overage-collection''"

definition reconciliation_lease_name :: string where
  "reconciliation_lease_name = ''billing:stripe-reconciliation''"

text \<open>The ingest worker lets a serialization failure escape.\<close>

definition usage_try_acquire_lease ::
  "usage_config \<Rightarrow> string \<Rightarrow> date \<Rightarrow> exn option \<Rightarrow> (db, bool) prog" where
  "usage_try_acquire_lease cfg owner now fault =
     lease_transaction usage_ingest_lease_name owner now
       (now + lease_duration (queue_interval cfg)) fault"

text \<open>The billing workers answer a serialization failure with \<open>false\<close>.\<close>

definition catch_retryable :: "(db, bool) prog \<Rightarrow> (db, bool) prog" where
  "catch_retryable m =
     try_catch m (\<lambda>e. if is_retryable_transaction_error e then ret False else raise e)"

definition retry_try_acquire_lease ::
  "billing_config \<Rightarrow> string \<Rightarrow> date \<Rightarrow> exn option \<Rightarrow> (db, bool) prog" where
  "retry_try_acquire_lease cfg owner now fault =
     catch_retryable (lease_transaction managed_retry_lease_name owner now
       (now + lease_duration (retry_interval cfg)) fault)"

definition overage_try_acquire_lease ::
  "billing_config \<Rightarrow> string \<Rightarrow> date \<Rightarrow> exn option \<Rightarrow> (db, bool) prog" where
  "overage_try_acquire_lease cfg owner now fault =
     catch_retryable (lease_transaction overage_lease_name owner now
       (now + lease_duration (overage_interval cfg)) fault)"

definition reconciliation_try_acquire_lease ::
  "billing_config \<Rightarrow> string \<Rightarrow> date \<Rightarrow> exn option \<Rightarrow> (db, bool) prog" where
  "reconciliation_try_acquire_lease cfg owner now fault =
     catch_retryable (lease_transaction reconciliation_lease_name owner now
       (now + lease_duration (reconciliation_interval cfg)) fault)"

section \<open>The contract of a lease\<close>

text \<open>
  A run of attempts by several owners, each with its own clock and possibly aborted by the
  database: the list of the grants.
\<close>

type_synonym attempt = "string \<times> date \<times> exn option"

fun lease_grants ::
  "(string \<Rightarrow> date \<Rightarrow> exn option \<Rightarrow> ('s, bool) prog) \<Rightarrow> attempt list \<Rightarrow> 's \<Rightarrow> (string \<times> date) list" where
  "lease_grants acquire [] s = []"
| "lease_grants acquire ((owner, now, fault) # xs) s =
     (case acquire owner now fault s of
        (Inr True, s') \<Rightarrow> (owner, now) # lease_grants acquire xs s'
      | (_, s') \<Rightarrow> lease_grants acquire xs s')"

text \<open>
  \<open>acquire owner now fault\<close> tries to take the lease, \<open>holder\<close> reads owner and expiry. Only a
  free, expired or own lease is taken; a taken lease has the caller as owner and lasts \<open>dur\<close>
  from the caller's clock; an attempt that is not granted leaves the holder; a free lease is
  granted.
\<close>

locale lease_lock =
  fixes acquire :: "string \<Rightarrow> date \<Rightarrow> exn option \<Rightarrow> 's \<Rightarrow> (exn + bool) \<times> 's"
    and holder :: "'s \<Rightarrow> (string \<times> date) option"
    and valid :: "'s \<Rightarrow> bool" and dur :: int
  assumes acquire_valid: "valid s \<Longrightarrow> acquire ow t f s = (r, s') \<Longrightarrow> valid s'"
    and acquire_refused: "valid s \<Longrightarrow> acquire ow t f s = (r, s') \<Longrightarrow> r \<noteq> Inr True \<Longrightarrow>
      holder s' = holder s"
    and acquire_taken: "valid s \<Longrightarrow> acquire ow t f s = (Inr True, s') \<Longrightarrow>
      holder s' = Some (ow, t + dur)"
    and acquire_guard: "valid s \<Longrightarrow> acquire ow t f s = (Inr True, s') \<Longrightarrow>
      holder s = Some (o2, e) \<Longrightarrow> o2 = ow \<or> e \<le> t"
begin

text \<open>A lease held until \<open>e\<close> is granted to nobody else whose clock has not reached \<open>e\<close>.\<close>

lemma grants_only_to_holder:
  assumes "valid s" "holder s = Some (ow, e0)" "e \<le> e0"
    and "\<forall>(p, t, f) \<in> set xs. (p = ow \<longrightarrow> e \<le> t + dur) \<and> (p \<noteq> ow \<longrightarrow> t < e)"
    and "(p, t) \<in> set (lease_grants acquire xs s)"
  shows "p = ow"
  using assms
proof (induction xs arbitrary: s e0)
  case Nil
  then show ?case by simp
next
  case (Cons x xs)
  obtain q u f where x: "x = (q, u, f)" by (cases x)
  obtain r s1 where a: "acquire q u f s = (r, s1)" by (cases "acquire q u f s")
  have v: "valid s1" using acquire_valid [OF Cons.prems(1) a] .
  have rest: "\<forall>(p, t, f) \<in> set xs. (p = ow \<longrightarrow> e \<le> t + dur) \<and> (p \<noteq> ow \<longrightarrow> t < e)"
    using Cons.prems(4) by simp
  have here: "(q = ow \<longrightarrow> e \<le> u + dur) \<and> (q \<noteq> ow \<longrightarrow> u < e)"
    using Cons.prems(4) x by simp
  show ?case
  proof (cases "r = Inr True")
    case True
    then have q: "q = ow"
      using acquire_guard [of s q u f s1 ow e0] a here Cons.prems(1,2,3) by auto
    have "holder s1 = Some (ow, u + dur)" using acquire_taken [of s q u f s1] a True Cons.prems(1) q by simp
    then show ?thesis
      using Cons.IH [OF v _ _ rest, of "u + dur"] here Cons.prems(5) q a True x by auto
  next
    case False
    then have "holder s1 = Some (ow, e0)" using acquire_refused [OF Cons.prems(1) a] Cons.prems(2) by simp
    moreover have "(p, t) \<in> set (lease_grants acquire xs s1)"
      using Cons.prems(5) False a x by (auto split: sum.splits bool.splits)
    ultimately show ?thesis using Cons.IH [of s1 e0] v Cons.prems(3) rest by blast
  qed
qed

text \<open>After a grant at \<open>t0\<close> the lease is exclusive up to \<open>t0 + dur\<close>.\<close>

lemma exclusive_after_grant:
  assumes "valid s" "acquire ow t0 f0 s = (Inr True, s')"
    and "\<forall>(p, t, f) \<in> set xs. (p = ow \<longrightarrow> t0 \<le> t) \<and> (p \<noteq> ow \<longrightarrow> t < t0 + dur)"
    and "(p, t) \<in> set (lease_grants acquire xs s')"
  shows "p = ow"
proof (rule grants_only_to_holder [OF acquire_valid [OF assms(1,2)] acquire_taken [OF assms(1,2)] order.refl])
  show "\<forall>(p, t, f) \<in> set xs. (p = ow \<longrightarrow> t0 + dur \<le> t + dur) \<and> (p \<noteq> ow \<longrightarrow> t < t0 + dur)"
    using assms(3) by simp
qed (rule assms(4))

end

section \<open>The lease transaction satisfies the contract\<close>

definition leases_unique :: "db \<Rightarrow> bool" where
  "leases_unique d \<longleftrightarrow> col_unique (\<lambda>r. Some (lease_name r)) (leases d)"

definition lease_holder :: "string \<Rightarrow> db \<Rightarrow> (string \<times> date) option" where
  "lease_holder name d = map_option (\<lambda>l. (lease_owner l, lease_expires l)) (find_lease name d)"

lemma find_lease_Some:
  "find_lease name d = Some l \<Longrightarrow> l \<in> set (leases d) \<and> lease_name l = name"
  unfolding find_lease_def by (drule find_unique_Some) simp

lemma take_over_result:
  assumes "leases_unique d" "find_lease name d = Some l"
    and "take_over_lease l owner expires d = (r, d')"
  shows "r = Inr 1 \<and> leases_unique d' \<and> find_lease name d' = Some (l\<lparr>lease_owner := owner, lease_expires := expires\<rparr>)"
proof -
  let ?hit = "\<lambda>x. lease_name x = lease_name l \<and> lease_owner x = lease_owner l \<and> lease_expires x = lease_expires l"
  let ?g = "\<lambda>x. if ?hit x then x\<lparr>lease_owner := owner, lease_expires := expires\<rparr> else x"
  have l: "l \<in> set (leases d)" "lease_name l = name" using find_lease_Some [OF assms(2)] by auto
  have one: "x = l" if "x \<in> set (leases d)" "lease_name x = name" for x
    using col_unique_row [OF assms(1) [unfolded leases_unique_def] that(1) l(1)] that(2) l(2) by simp
  have d': "d' = d\<lparr>leases := map ?g (leases d)\<rparr>" and r: "r = Inr (int (length (filter ?hit (leases d))))"
    using assms(3) by (auto simp: take_over_lease_def Let_def)
  have u: "leases_unique d'"
    using assms(1) col_unique_map [of "leases d" "\<lambda>r. Some (lease_name r)" ?g]
    by (simp add: leases_unique_def d')
  have "length (filter ?hit (leases d)) = 1"
  proof -
    have dist: "distinct (leases d)"
      using assms(1) unfolding leases_unique_def by (rule col_unique_distinct) simp
    have "set (filter ?hit (leases d)) = {l}"
    proof (rule set_eqI, rule iffI)
      fix x assume "x \<in> set (filter ?hit (leases d))"
      then show "x \<in> {l}" using one [of x] l(2) by simp
    next
      fix x assume "x \<in> {l}"
      then show "x \<in> set (filter ?hit (leases d))" using l(1) by simp
    qed
    moreover have "length (filter ?hit (leases d)) = card (set (filter ?hit (leases d)))"
      by (rule distinct_card [symmetric]) (rule distinct_filter [OF dist])
    ultimately show ?thesis by simp
  qed
  moreover have "?g l \<in> set (leases d')" 
  proof -
    have "?g l \<in> set (map ?g (leases d))" unfolding list.set_map using l(1) by (rule imageI)
    then show ?thesis by (simp add: d')
  qed
  then have "find_unique (\<lambda>r. Some (lease_name r) = Some name) (leases d') = Some (?g l)"
    using find_unique_col [OF u [unfolded leases_unique_def], of "?g l" name] l(2) by simp
  ultimately show ?thesis using r u by (simp add: find_lease_def)
qed

lemma lease_body_spec:
  assumes "leases_unique d" "lease_body name owner now expires d = (r, d')"
  shows "leases_unique d'"
    and "r \<noteq> Inr True \<Longrightarrow> d' = d"
    and "r = Inr True \<Longrightarrow> lease_holder name d' = Some (owner, expires)"
    and "r = Inr True \<Longrightarrow> lease_holder name d = Some (o2, e) \<Longrightarrow> o2 = owner \<or> e \<le> now"
    and "lease_holder name d = None \<Longrightarrow> r = Inr True"
proof -
  have "leases_unique d' \<and> (r \<noteq> Inr True \<longrightarrow> d' = d)
    \<and> (r = Inr True \<longrightarrow> lease_holder name d' = Some (owner, expires))
    \<and> (r = Inr True \<longrightarrow> lease_holder name d = Some (o2, e) \<longrightarrow> o2 = owner \<or> e \<le> now)
    \<and> (lease_holder name d = None \<longrightarrow> r = Inr True)"
  proof (cases "find_lease name d")
    case None
    let ?l = "\<lparr>lease_name = name, lease_owner = owner, lease_expires = expires\<rparr>"
    have "\<forall>x \<in> set (leases d). lease_viol ?l x = None"
      using None by (auto simp: find_lease_def find_unique_None lease_viol_def)
    then have ins: "insert_unique lease_viol ?l (leases d) = Inr (leases d @ [?l])"
      by (simp add: insert_unique_Inr)
    have res: "r = Inr True" "d' = d\<lparr>leases := leases d @ [?l]\<rparr>"
      using assms(2) None ins by (auto simp: lease_body_def create_lease_def bnd_def gets_def)
    have u: "leases_unique d'"
      using lease_names.insert_keeps_unique [OF ins] assms(1) by (simp add: leases_unique_def res)
    have "find_unique (\<lambda>r. Some (lease_name r) = Some name) (leases d') = Some ?l"
      using find_unique_col [OF u [unfolded leases_unique_def], of ?l name] by (simp add: res)
    then show ?thesis using u res None by (simp add: lease_holder_def find_lease_def)
  next
    case (Some l)
    show ?thesis
    proof (cases "lease_owner l \<noteq> owner \<and> now < lease_expires l")
      case True
      then show ?thesis using assms Some
        by (auto simp: lease_body_def bnd_def gets_def ret_def lease_holder_def)
    next
      case False
      obtain r1 d1 where t: "take_over_lease l owner expires d = (r1, d1)" by force
      note sp = take_over_result [OF assms(1) Some t]
      have "r = Inr True" "d' = d1"
        using assms(2) Some False t sp by (auto simp: lease_body_def bnd_def gets_def ret_def)
      then show ?thesis using sp Some False by (auto simp: lease_holder_def)
    qed
  qed
  then show "leases_unique d'"
    and "r \<noteq> Inr True \<Longrightarrow> d' = d"
    and "r = Inr True \<Longrightarrow> lease_holder name d' = Some (owner, expires)"
    and "r = Inr True \<Longrightarrow> lease_holder name d = Some (o2, e) \<Longrightarrow> o2 = owner \<or> e \<le> now"
    and "lease_holder name d = None \<Longrightarrow> r = Inr True"
    by auto
qed

lemma lease_transaction_cases:
  assumes "lease_transaction name owner now expires fault d = (r, d')"
  shows "(fault = None \<and> lease_body name owner now expires d = (r, d')) \<or> (r \<noteq> Inr True \<and> d' = d)
    \<or> (\<exists>e. lease_body name owner now expires d = (Inl e, d') \<and> r = Inl e)"
  using assms
  by (cases "lease_body name owner now expires d"; cases fault)
    (auto simp: lease_transaction_def tx_def bnd_def may_fail_def ret_def raise_def split: sum.splits)

lemma lease_lock_transaction:
  assumes "\<And>ow t f d r d'. acquire ow t f d = (r, d') \<Longrightarrow>
      lease_transaction name ow t (t + dur) f d = (r, d') \<or> (r \<noteq> Inr True \<and> d' = d)"
  shows "lease_lock acquire (lease_holder name) leases_unique dur"
proof
  fix s ow t f and r :: "exn + bool" and s'
  assume v: "leases_unique s" and a: "acquire ow t f s = (r, s')"
  note c = assms [OF a] lease_transaction_cases [of name ow t "t + dur" f s]
  note sp = lease_body_spec [OF v, of name ow t "t + dur"]
  show "leases_unique s'" using c sp(1) v by blast
  show "r \<noteq> Inr True \<Longrightarrow> lease_holder name s' = lease_holder name s" using c sp(2) by metis
next
  fix s ow t f s' o2 e
  assume v: "leases_unique s" and a: "acquire ow t f s = (Inr True, s')"
  have b: "lease_body name ow t (t + dur) s = (Inr True, s')"
    using assms [OF a] lease_transaction_cases [of name ow t "t + dur" f s] by blast
  show "lease_holder name s' = Some (ow, t + dur)" using lease_body_spec(3) [OF v b] by simp
  show "lease_holder name s = Some (o2, e) \<Longrightarrow> o2 = ow \<or> e \<le> t"
    using lease_body_spec(4) [OF v b] by simp
qed

lemma catch_retryable_cases:
  assumes "catch_retryable m d = (r, d')"
  shows "m d = (r, d') \<or> (r = Inr False \<and> (\<exists>e. m d = (Inl e, d')))"
  using assms by (cases "m d") (auto simp: catch_retryable_def try_catch_def ret_def raise_def
      split: sum.splits if_splits)

lemma catch_lease_cases:
  assumes "catch_retryable (lease_transaction name ow t e f) d = (r, d')"
  shows "lease_transaction name ow t e f d = (r, d') \<or> (r \<noteq> Inr True \<and> d' = d)"
proof -
  have "lease_transaction name ow t e f d = (Inl x, d') \<Longrightarrow> d' = d" for x
    unfolding lease_transaction_def by (rule tx_Inl)
  then show ?thesis using catch_retryable_cases [OF assms] by auto
qed

lemma lease_lock_usage:
  "lease_lock (usage_try_acquire_lease cfg) (lease_holder usage_ingest_lease_name) leases_unique
     (lease_duration (queue_interval cfg))"
  by (rule lease_lock_transaction) (simp add: usage_try_acquire_lease_def)

lemma lease_lock_retry:
  "lease_lock (retry_try_acquire_lease bc) (lease_holder managed_retry_lease_name) leases_unique
     (lease_duration (retry_interval bc))"
  by (rule lease_lock_transaction) (auto simp: retry_try_acquire_lease_def dest: catch_lease_cases)

lemma lease_lock_overage:
  "lease_lock (overage_try_acquire_lease bc) (lease_holder overage_lease_name) leases_unique
     (lease_duration (overage_interval bc))"
  by (rule lease_lock_transaction) (auto simp: overage_try_acquire_lease_def dest: catch_lease_cases)

lemma lease_lock_reconciliation:
  "lease_lock (reconciliation_try_acquire_lease bc) (lease_holder reconciliation_lease_name)
     leases_unique (lease_duration (reconciliation_interval bc))"
  by (rule lease_lock_transaction)
    (auto simp: reconciliation_try_acquire_lease_def dest: catch_lease_cases)

interpretation usage_lease: lease_lock "usage_try_acquire_lease cfg"
  "lease_holder usage_ingest_lease_name" leases_unique "lease_duration (queue_interval cfg)"
  for cfg by (rule lease_lock_usage)

interpretation retry_lease: lease_lock "retry_try_acquire_lease bc"
  "lease_holder managed_retry_lease_name" leases_unique "lease_duration (retry_interval bc)"
  for bc by (rule lease_lock_retry)

interpretation overage_lease: lease_lock "overage_try_acquire_lease bc"
  "lease_holder overage_lease_name" leases_unique "lease_duration (overage_interval bc)"
  for bc by (rule lease_lock_overage)

interpretation reconciliation_lease: lease_lock "reconciliation_try_acquire_lease bc"
  "lease_holder reconciliation_lease_name" leases_unique "lease_duration (reconciliation_interval bc)"
  for bc by (rule lease_lock_reconciliation)

section \<open>Properties\<close>

text \<open>C27: The workers' lease excludes: once an instance holds the lease of the ingest worker, in
  any interleaving of attempts by any owners (with their own clocks, possibly aborted by the
  database) nobody else is granted it at a clock before the holder's expiry; the same for the
  managed-retry, overage and reconciliation workers.\<close>

theorem lease_mutual_exclusion:
  assumes "leases_unique d"
    and "(acquire, dur) \<in> {(usage_try_acquire_lease uc, lease_duration (queue_interval uc)),
       (retry_try_acquire_lease bc, lease_duration (retry_interval bc)),
       (overage_try_acquire_lease bc, lease_duration (overage_interval bc)),
       (reconciliation_try_acquire_lease bc, lease_duration (reconciliation_interval bc))}"
    and "acquire ow t0 f0 d = (Inr True, d')"
    and "\<forall>(p, t, f) \<in> set xs. (p = ow \<longrightarrow> t0 \<le> t) \<and> (p \<noteq> ow \<longrightarrow> t < t0 + dur)"
  shows "\<forall>(p, t) \<in> set (lease_grants acquire xs d'). p = ow"
proof clarify
  fix p t assume g: "(p, t) \<in> set (lease_grants acquire xs d')"
  from assms(2) consider
      "acquire = usage_try_acquire_lease uc" "dur = lease_duration (queue_interval uc)"
    | "acquire = retry_try_acquire_lease bc" "dur = lease_duration (retry_interval bc)"
    | "acquire = overage_try_acquire_lease bc" "dur = lease_duration (overage_interval bc)"
    | "acquire = reconciliation_try_acquire_lease bc" "dur = lease_duration (reconciliation_interval bc)"
    by auto
  then show "p = ow"
  proof cases
    case 1
    show ?thesis
      by (rule usage_lease.exclusive_after_grant [OF assms(1) assms(3) [unfolded 1] assms(4) [unfolded 1]
            g [unfolded 1]])
  next
    case 2
    show ?thesis
      by (rule retry_lease.exclusive_after_grant [OF assms(1) assms(3) [unfolded 2] assms(4) [unfolded 2]
            g [unfolded 2]])
  next
    case 3
    show ?thesis
      by (rule overage_lease.exclusive_after_grant [OF assms(1) assms(3) [unfolded 3] assms(4) [unfolded 3]
            g [unfolded 3]])
  next
    case 4
    show ?thesis
      by (rule reconciliation_lease.exclusive_after_grant [OF assms(1) assms(3) [unfolded 4] assms(4) [unfolded 4]
            g [unfolded 4]])
  qed
qed

theorem lease_mutual_exclusion_witness:
  "lease_grants (usage_try_acquire_lease sample_usage_config)
      [(''b'', 1000, None), (''a'', 60000, None), (''b'', 119999, None)]
      (snd (usage_try_acquire_lease sample_usage_config ''a'' 0 None empty_db)) = [(''a'', 60000)]
   \<and> fst ` set (lease_grants (usage_try_acquire_lease sample_usage_config)
      [(''b'', 1000, None), (''a'', 60000, None), (''b'', 119999, None)]
      (snd (usage_try_acquire_lease sample_usage_config ''a'' 0 None empty_db))) \<subseteq> {''a''}"
proof -
  let ?d' = "snd (usage_try_acquire_lease sample_usage_config ''a'' 0 None empty_db)"
  have u: "leases_unique empty_db" by (simp add: leases_unique_def empty_db_def)
  have "fst (usage_try_acquire_lease sample_usage_config ''a'' 0 None empty_db) = Inr True" by code_simp
  then have a: "usage_try_acquire_lease sample_usage_config ''a'' 0 None empty_db = (Inr True, ?d')"
    by (metis prod.collapse)
  have dur: "lease_duration (queue_interval sample_usage_config) = 120000" by code_simp
  have "lease_grants (usage_try_acquire_lease sample_usage_config)
      [(''b'', 1000, None), (''a'', 60000, None), (''b'', 119999, None)] ?d' = [(''a'', 60000)]"
    by code_simp
  moreover have "\<forall>(p, t) \<in> set (lease_grants (usage_try_acquire_lease sample_usage_config)
      [(''b'', 1000, None), (''a'', 60000, None), (''b'', 119999, None)] ?d'). p = ''a''"
    by (rule lease_mutual_exclusion [where acquire = "usage_try_acquire_lease sample_usage_config"
          and dur = 120000 and uc = sample_usage_config, OF u _ a]) (simp_all add: dur)
  ultimately show ?thesis by auto
qed

end
