(* ===== verification/JsString.thy ===== *)
theory JsString
  imports JsDate
begin

text \<open>
  The JavaScript string operations the code uses, on ASCII strings: letter case, substring
  tests, replacement, decimal numerals, and \<open>Date\<close> to and from the ISO format
  \<open>YYYY-MM-DDTHH:mm:ss.sssZ\<close>.
\<close>

section \<open>Letters and substrings\<close>

definition js_char_lower :: "char \<Rightarrow> char" where
  "js_char_lower c = (let n = (of_char c :: nat) in if 65 \<le> n \<and> n \<le> 90 then char_of (n + 32) else c)"

definition js_char_upper :: "char \<Rightarrow> char" where
  "js_char_upper c = (let n = (of_char c :: nat) in if 97 \<le> n \<and> n \<le> 122 then char_of (n - 32) else c)"

definition to_lower_case :: "string \<Rightarrow> string" where
  "to_lower_case s = map js_char_lower s"

definition to_upper_case :: "string \<Rightarrow> string" where
  "to_upper_case s = map js_char_upper s"

fun starts_with :: "string \<Rightarrow> string \<Rightarrow> bool" where
  "starts_with [] s = True"
| "starts_with (c # p) [] = False"
| "starts_with (c # p) (x # s) = (c = x \<and> starts_with p s)"

fun js_includes :: "string \<Rightarrow> string \<Rightarrow> bool" where
  "js_includes p [] = (p = [])"
| "js_includes p (x # s) = (starts_with p (x # s) \<or> js_includes p s)"

text \<open>\<open>s.replace(p, r)\<close> with a string pattern replaces the first occurrence.\<close>

fun replace_first :: "string \<Rightarrow> string \<Rightarrow> string \<Rightarrow> string" where
  "replace_first p r [] = (if p = [] then r else [])"
| "replace_first p r (x # s) =
     (if starts_with p (x # s) then r @ drop (length p) (x # s) else x # replace_first p r s)"

text \<open>\<open>s.replaceAll(c, r)\<close> for a pattern of one character.\<close>

definition replace_char :: "char \<Rightarrow> string \<Rightarrow> string \<Rightarrow> string" where
  "replace_char c r s = concat (map (\<lambda>x. if x = c then r else [x]) s)"

section \<open>Truthiness of nullable values\<close>

text \<open>An optional string is truthy when it is present and not empty; \<open>a ?? b\<close> only tests presence.\<close>

definition js_truthy_str :: "string option \<Rightarrow> bool" where
  "js_truthy_str v = (v \<noteq> None \<and> v \<noteq> Some [])"

definition nullish :: "'a option \<Rightarrow> 'a option \<Rightarrow> 'a option" where
  "nullish a b = (case a of None \<Rightarrow> b | Some x \<Rightarrow> Some x)"

lemma nullish_simps [simp]: "nullish None b = b" "nullish (Some x) b = Some x"
  by (simp_all add: nullish_def)

lemma nullish_None_iff: "nullish a b = None \<longleftrightarrow> a = None \<and> b = None"
  by (cases a) auto

text \<open>\<open>message.trim().length === 0\<close>.\<close>

definition js_blank :: "string \<Rightarrow> bool" where
  "js_blank m \<longleftrightarrow> list_all (\<lambda>c. of_char c \<in> {9, 10, 11, 12, 13, 32, 160 :: nat}) m"

section \<open>Decimal numerals\<close>

definition digit_char :: "nat \<Rightarrow> char" where
  "digit_char d = char_of (48 + d)"

definition digit_value :: "char \<Rightarrow> nat option" where
  "digit_value c = (let n = (of_char c :: nat) in if 48 \<le> n \<and> n \<le> 57 then Some (n - 48) else None)"

fun nat_digits :: "nat \<Rightarrow> string" where
  "nat_digits n = (if n < 10 then [digit_char n] else nat_digits (n div 10) @ [digit_char (n mod 10)])"

declare nat_digits.simps [simp del]

definition js_int_to_string :: "int \<Rightarrow> string" where
  "js_int_to_string n = (if n < 0 then ''-'' @ nat_digits (nat (- n)) else nat_digits (nat n))"

text \<open>The \<open>k\<close> last digits, as the ISO format pads its fields.\<close>

fun pad_digits :: "nat \<Rightarrow> nat \<Rightarrow> string" where
  "pad_digits 0 n = []"
| "pad_digits (Suc k) n = pad_digits k (n div 10) @ [digit_char (n mod 10)]"

definition digits_step :: "nat option \<Rightarrow> char \<Rightarrow> nat option" where
  "digits_step acc c = (case acc of None \<Rightarrow> None
     | Some n \<Rightarrow> (case digit_value c of None \<Rightarrow> None | Some d \<Rightarrow> Some (10 * n + d)))"

definition parse_digits :: "string \<Rightarrow> nat option" where
  "parse_digits s = foldl digits_step (Some 0) s"

lemma digit_value_char: "d < 10 \<Longrightarrow> digit_value (digit_char d) = Some d"
  by (simp add: digit_value_def digit_char_def Let_def of_char_of)

lemma length_pad_digits [simp]: "length (pad_digits k n) = k"
  by (induction k arbitrary: n) auto

lemma parse_pad_digits: "n < 10 ^ k \<Longrightarrow> parse_digits (pad_digits k n) = Some n"
proof (induction k arbitrary: n)
  case 0
  then show ?case by (simp add: parse_digits_def)
next
  case (Suc k)
  then have "n div 10 < 10 ^ k" by (simp add: less_mult_imp_div_less)
  then have "foldl digits_step (Some 0) (pad_digits k (n div 10)) = Some (n div 10)"
    using Suc.IH by (simp add: parse_digits_def)
  then show ?case by (simp add: parse_digits_def digits_step_def digit_value_char)
qed

section \<open>ISO dates\<close>

text \<open>\<open>toISOString\<close> for the years 0 to 9999.\<close>

definition to_iso_string :: "date \<Rightarrow> string" where
  "to_iso_string t =
     pad_digits 4 (nat (get_utc_full_year t)) @ ''-'' @ pad_digits 2 (nat (get_utc_month t + 1))
     @ ''-'' @ pad_digits 2 (nat (get_utc_date t)) @ ''T'' @ pad_digits 2 (nat (get_utc_hours t))
     @ '':'' @ pad_digits 2 (nat (get_utc_minutes t)) @ '':'' @ pad_digits 2 (nat (get_utc_seconds t))
     @ ''.'' @ pad_digits 3 (nat (get_utc_milliseconds t)) @ ''Z''"

text \<open>\<open>new Date(s)\<close> on a string of this format; \<open>None\<close> is an invalid date.\<close>

definition parse_iso :: "string \<Rightarrow> date option" where
  "parse_iso s =
     (if length s \<noteq> 24 \<or> s ! 4 \<noteq> CHR ''-'' \<or> s ! 7 \<noteq> CHR ''-'' \<or> s ! 10 \<noteq> CHR ''T'' \<or> s ! 13 \<noteq> CHR '':''
         \<or> s ! 16 \<noteq> CHR '':'' \<or> s ! 19 \<noteq> CHR ''.'' \<or> s ! 23 \<noteq> CHR ''Z'' then None
      else
        (case (parse_digits (take 4 s), parse_digits (take 2 (drop 5 s)), parse_digits (take 2 (drop 8 s)),
               parse_digits (take 2 (drop 11 s)), parse_digits (take 2 (drop 14 s)),
               parse_digits (take 2 (drop 17 s)), parse_digits (take 3 (drop 20 s))) of
           (Some y, Some mo, Some d, Some h, Some mi, Some sec, Some ms) \<Rightarrow>
             if 1 \<le> mo \<and> mo \<le> 12 \<and> 1 \<le> d \<and> d \<le> 31 \<and> h < 24 \<and> mi < 60 \<and> sec < 60
             then Some (make_date (make_day (int y) (int mo - 1) (int d))
                          (int h * 3600000 + int mi * 60000 + int sec * 1000 + int ms))
             else None
         | _ \<Rightarrow> None))"

lemma mod_mult_split: "0 \<le> (b :: int) \<Longrightarrow> t mod (a * b) = a * (t div a mod b) + t mod a"
  by (rule zmod_zmult2_eq)

lemma time_of_parts:
  "get_utc_hours t * 3600000 + get_utc_minutes t * 60000 + get_utc_seconds t * 1000
     + get_utc_milliseconds t = time_within_day t"
proof -
  have "t mod 86400000 = 3600000 * (t div 3600000 mod 24) + t mod 3600000"
    using mod_mult_split [of 24 t 3600000] by simp
  moreover have "t mod 3600000 = 60000 * (t div 60000 mod 60) + t mod 60000"
    using mod_mult_split [of 60 t 60000] by simp
  moreover have "t mod 60000 = 1000 * (t div 1000 mod 60) + t mod 1000"
    using mod_mult_split [of 60 t 1000] by simp
  ultimately show ?thesis
    unfolding get_utc_hours_def get_utc_minutes_def get_utc_seconds_def get_utc_milliseconds_def
      time_within_day_def
    by linarith
qed

text \<open>The year of a day is the one whose days contain it.\<close>

lemma int_div_lower: "0 < (k :: int) \<Longrightarrow> k * (x div k) \<le> x"
  using mult_div_mod_eq [of k x] pos_mod_sign [of k x] by linarith

lemma int_div_upper: "0 < (k :: int) \<Longrightarrow> x \<le> k * (x div k) + k - 1"
  using mult_div_mod_eq [of k x] pos_mod_bound [of k x] by linarith

lemma day_from_year_linear:
  shows "146097 * q - 506 \<le> 400 * day_from_year (1970 + q)"
    and "400 * day_from_year (1970 + q) \<le> 146097 * q + 589"
proof -
  define a b c where "a = (q + 1) div 4" and "b = (q + 69) div 100" and "c = (q + 369) div 400"
  have "4 * a \<le> q + 1" "q + 1 \<le> 4 * a + 4 - 1" "100 * b \<le> q + 69" "q + 69 \<le> 100 * b + 100 - 1"
    "400 * c \<le> q + 369" "q + 369 \<le> 400 * c + 400 - 1"
    unfolding a_def b_def c_def by (rule int_div_lower int_div_upper, simp)+
  moreover have "day_from_year (1970 + q) = 365 * q + a - b + c"
    by (simp add: day_from_year_def a_def b_def c_def add.commute)
  ultimately show "146097 * q - 506 \<le> 400 * day_from_year (1970 + q)"
    "400 * day_from_year (1970 + q) \<le> 146097 * q + 589" by (simp_all add: algebra_simps)
qed

lemma year_from_day_bounds:
  "day_from_year (year_from_day d) \<le> d \<and> d < day_from_year (year_from_day d + 1)"
proof -
  define q where "q = (400 * d) div 146097"
  have q: "146097 * q \<le> 400 * d" "400 * d \<le> 146097 * q + 146097 - 1"
    unfolding q_def by (rule int_div_lower int_div_upper, simp)+
  have y: "year_from_day d = (if d < day_from_year (1970 + q) then 1970 + q - 1
      else if day_from_year (1970 + q + 1) \<le> d then 1970 + q + 1 else 1970 + q)"
    by (simp add: year_from_day_def Let_def q_def)
  have lo: "day_from_year (1970 + q - 1) \<le> d"
    using day_from_year_linear(2) [of "q - 1"] q(1) by (simp add: algebra_simps)
  have hi: "d < day_from_year (1970 + q + 1 + 1)"
    using day_from_year_linear(1) [of "q + 2"] q(2) by (simp add: algebra_simps)
  consider "d < day_from_year (1970 + q)"
    | "\<not> d < day_from_year (1970 + q)" "day_from_year (1970 + q + 1) \<le> d"
    | "\<not> d < day_from_year (1970 + q)" "\<not> day_from_year (1970 + q + 1) \<le> d" by blast
  then show ?thesis
  proof cases
    case 1
    then have "year_from_day d = 1970 + q - 1" using y by presburger
    then show ?thesis using lo 1 by simp
  next
    case 2
    then have "year_from_day d = 1970 + q + 1" using y by presburger
    then show ?thesis using hi 2 by simp
  next
    case 3
    then have "year_from_day d = 1970 + q" using y by presburger
    then show ?thesis using 3 by simp
  qed
qed

lemma day_of_year_bounds:
  shows "0 \<le> day_of_year t" and "day_of_year t < days_in_year (get_utc_full_year t)"
  using year_from_day_bounds [of "day t"] day_from_year_next [of "get_utc_full_year t"]
  unfolding day_of_year_def get_utc_full_year_def by linarith+

lemma month_of_day_bounds:
  assumes "0 \<le> doy" "doy < (if leap then 366 else 365)"
  shows "month_start leap (month_of_day leap doy) \<le> doy
    \<and> doy \<le> month_start leap (month_of_day leap doy) + 30"
proof -
  define l :: int
    where "l = (if leap then 1 else 0)"
  have l: "0 \<le> l" "l \<le> 1" by (simp_all add: l_def)
  have doy: "doy < 365 + l" using assms(2) by (simp add: l_def split: if_splits)
  have ms: "month_start leap 0 = 0" "month_start leap 1 = 31" "month_start leap 2 = 59 + l"
    "month_start leap 3 = 90 + l" "month_start leap 4 = 120 + l" "month_start leap 5 = 151 + l"
    "month_start leap 6 = 181 + l" "month_start leap 7 = 212 + l" "month_start leap 8 = 243 + l"
    "month_start leap 9 = 273 + l" "month_start leap 10 = 304 + l" "month_start leap 11 = 334 + l"
    by (simp_all add: month_start_def Let_def l_def)
  consider "334 + l \<le> doy"
    | "\<not> 334 + l \<le> doy" "304 + l \<le> doy"
    | "\<not> 304 + l \<le> doy" "273 + l \<le> doy"
    | "\<not> 273 + l \<le> doy" "243 + l \<le> doy"
    | "\<not> 243 + l \<le> doy" "212 + l \<le> doy"
    | "\<not> 212 + l \<le> doy" "181 + l \<le> doy"
    | "\<not> 181 + l \<le> doy" "151 + l \<le> doy"
    | "\<not> 151 + l \<le> doy" "120 + l \<le> doy"
    | "\<not> 120 + l \<le> doy" "90 + l \<le> doy"
    | "\<not> 90 + l \<le> doy" "59 + l \<le> doy"
    | "\<not> 59 + l \<le> doy" "31 \<le> doy"
    | "\<not> 31 \<le> doy"
    by blast
  then show ?thesis
    by cases (use l doy assms(1) in \<open>simp_all add: month_of_day_def Let_def ms\<close>)
qed

lemma get_utc_date_bounds: "1 \<le> get_utc_date t \<and> get_utc_date t \<le> 31"
  using month_of_day_bounds [of "day_of_year t" "leap_year (get_utc_full_year t)"] day_of_year_bounds [of t]
  unfolding get_utc_date_def get_utc_month_def days_in_year_def by linarith

lemma get_utc_month_bounds: "0 \<le> get_utc_month t \<and> get_utc_month t \<le> 11"
  by (auto simp: get_utc_month_def month_of_day_def Let_def)

lemma list_of_two: "length xs = 2 \<Longrightarrow> \<exists>a b. xs = [a, b]"
  by (auto simp: length_Suc_conv numeral_2_eq_2)

lemma list_of_three: "length xs = 3 \<Longrightarrow> \<exists>a b c. xs = [a, b, c]"
  by (auto simp: length_Suc_conv numeral_3_eq_3)

lemma list_of_four: "length xs = 4 \<Longrightarrow> \<exists>a b c d. xs = [a, b, c, d]"
  by (auto simp: length_Suc_conv numeral_eq_Suc)

lemma parse_iso_fields:
  assumes "y < 10 ^ 4" "mo < 10 ^ 2" "d < 10 ^ 2" "h < 10 ^ 2" "mi < 10 ^ 2" "sec < 10 ^ 2" "ms < 10 ^ 3"
    and "1 \<le> mo" "mo \<le> 12" "1 \<le> d" "d \<le> 31" "h < 24" "mi < 60" "sec < 60"
  shows "parse_iso (pad_digits 4 y @ ''-'' @ pad_digits 2 mo @ ''-'' @ pad_digits 2 d @ ''T''
      @ pad_digits 2 h @ '':'' @ pad_digits 2 mi @ '':'' @ pad_digits 2 sec @ ''.'' @ pad_digits 3 ms @ ''Z'')
    = Some (make_date (make_day (int y) (int mo - 1) (int d))
        (int h * 3600000 + int mi * 60000 + int sec * 1000 + int ms))"
proof -
  obtain a b c e where ya: "pad_digits 4 y = [a, b, c, e]"
    using list_of_four [OF length_pad_digits [of 4 y]] by blast
  have two: "\<exists>u v. pad_digits 2 n = [u, v]" for n
    by (rule list_of_two [OF length_pad_digits])
  obtain m1 m2 d1 d2 h1 h2 i1 i2 s1 s2 where
    f: "pad_digits 2 mo = [m1, m2]" "pad_digits 2 d = [d1, d2]" "pad_digits 2 h = [h1, h2]"
      "pad_digits 2 mi = [i1, i2]" "pad_digits 2 sec = [s1, s2]"
    using two by metis
  obtain k1 k2 k3 where k: "pad_digits 3 ms = [k1, k2, k3]"
    using list_of_three [OF length_pad_digits [of 3 ms]] by blast
  have p: "parse_digits [a, b, c, e] = Some y" "parse_digits [m1, m2] = Some mo"
    "parse_digits [d1, d2] = Some d" "parse_digits [h1, h2] = Some h" "parse_digits [i1, i2] = Some mi"
    "parse_digits [s1, s2] = Some sec" "parse_digits [k1, k2, k3] = Some ms"
    using parse_pad_digits [OF assms(1)] parse_pad_digits [OF assms(2)] parse_pad_digits [OF assms(3)]
      parse_pad_digits [OF assms(4)] parse_pad_digits [OF assms(5)] parse_pad_digits [OF assms(6)]
      parse_pad_digits [OF assms(7)]
    by (simp_all only: ya f k)
  show ?thesis
    unfolding ya f k parse_iso_def
    using assms(8,10) by (simp add: p assms(9,11-14) del: One_nat_def)
qed

text \<open>The format is read back to the same instant.\<close>

lemma parse_iso_to_iso:
  assumes "0 \<le> get_utc_full_year t" "get_utc_full_year t \<le> 9999"
  shows "parse_iso (to_iso_string t) = Some t"
proof -
  have y: "nat (get_utc_full_year t) < 10 ^ 4" using assms by simp
  have mo: "nat (get_utc_month t + 1) < 10 ^ 2" "1 \<le> nat (get_utc_month t + 1)"
    "nat (get_utc_month t + 1) \<le> 12" "int (nat (get_utc_month t + 1)) - 1 = get_utc_month t"
    using get_utc_month_bounds [of t] by auto
  have d: "nat (get_utc_date t) < 10 ^ 2" "1 \<le> nat (get_utc_date t)" "nat (get_utc_date t) \<le> 31"
    "int (nat (get_utc_date t)) = get_utc_date t"
    using get_utc_date_bounds [of t] by auto
  have h: "0 \<le> get_utc_hours t" "get_utc_hours t < 24" "0 \<le> get_utc_minutes t" "get_utc_minutes t < 60"
    "0 \<le> get_utc_seconds t" "get_utc_seconds t < 60"
    "0 \<le> get_utc_milliseconds t" "get_utc_milliseconds t < 1000"
    by (simp_all add: get_utc_hours_def get_utc_minutes_def get_utc_seconds_def get_utc_milliseconds_def)
  have hn: "nat (get_utc_hours t) < 10 ^ 2" "nat (get_utc_minutes t) < 10 ^ 2"
    "nat (get_utc_seconds t) < 10 ^ 2" "nat (get_utc_milliseconds t) < 10 ^ 3" using h by auto
  have day_back: "make_day (get_utc_full_year t) (get_utc_month t) (get_utc_date t) = day t"
    by (simp add: make_day_of_date)
  have "make_date (day t) (get_utc_hours t * 3600000 + get_utc_minutes t * 60000
      + get_utc_seconds t * 1000 + get_utc_milliseconds t) = t"
    unfolding time_of_parts by (simp add: make_date_def day_def time_within_day_def)
  then have whole: "make_date (make_day (get_utc_full_year t) (get_utc_month t) (get_utc_date t))
      (get_utc_hours t * 3600000 + get_utc_minutes t * 60000 + get_utc_seconds t * 1000
        + get_utc_milliseconds t) = t" by (simp only: day_back)
  have n: "int (nat (get_utc_full_year t)) = get_utc_full_year t" "int (nat (get_utc_hours t)) = get_utc_hours t"
    "int (nat (get_utc_minutes t)) = get_utc_minutes t" "int (nat (get_utc_seconds t)) = get_utc_seconds t"
    "int (nat (get_utc_milliseconds t)) = get_utc_milliseconds t" using h assms(1) by simp_all
  have c: "nat (get_utc_hours t) < 24" "nat (get_utc_minutes t) < 60" "nat (get_utc_seconds t) < 60"
    using h by simp_all
  show ?thesis
    unfolding to_iso_string_def
    by (rule parse_iso_fields [OF y mo(1) d(1) hn, unfolded n mo(4) d(4) whole])
      (use mo(2,3) d(2,3) c in simp_all)
qed

end
