(* ===== verification/IngestWorker.thy ===== *)
theory IngestWorker
  imports Usage Lease JsString
begin

text \<open>
  \<open>src/modules/usage/usage-ingest-worker.service.ts\<close>: the worker that drains the ingest queue.
  Each job is recorded and marked in one transaction; the unique \<open>sourceJobId\<close> makes a second
  attempt harmless. What the database may do to a transaction is an argument of each step
  (\<open>job_env\<close>): abort it, lose the acknowledgement of a commit, or refuse the marking that
  follows. The theorems hold for every choice.
\<close>

section \<open>Back-off\<close>

definition max_retry_delay_seconds :: int where
  "max_retry_delay_seconds = 300"

definition min_retry_delay_seconds :: int where
  "min_retry_delay_seconds = 30"

definition get_retry_delay_milliseconds :: "int \<Rightarrow> int" where
  "get_retry_delay_milliseconds attempts =
     min max_retry_delay_seconds (max min_retry_delay_seconds (attempts * min_retry_delay_seconds)) * 1000"

section \<open>Errors\<close>

definition is_duplicate_source_job_error :: "exn \<Rightarrow> bool" where
  "is_duplicate_source_job_error e \<longleftrightarrow>
     exn_prisma_code e = Some ''P2002'' \<and> List.member (exn_meta_target e) ''sourceJobId''"

definition is_unique_constraint_error :: "exn \<Rightarrow> bool" where
  "is_unique_constraint_error e \<longleftrightarrow> exn_prisma_code e = Some ''P2002''"

definition describe_ingest_error :: "exn \<Rightarrow> string" where
  "describe_ingest_error e =
     (if js_blank (exn_message e) then ''Unknown usage ingest error'' else exn_message e)"

section \<open>Jobs\<close>

definition set_job :: "string \<Rightarrow> (job_row \<Rightarrow> job_row) \<Rightarrow> db \<Rightarrow> db" where
  "set_job jid g d = d\<lparr>jobs := map (\<lambda>j. if job_id j = jid then g j else j) (jobs d)\<rparr>"

definition update_job :: "string \<Rightarrow> (job_row \<Rightarrow> job_row) \<Rightarrow> db \<Rightarrow> exn + db" where
  "update_job jid g d =
     (case update_unique job_viol (\<lambda>j. job_id j = jid) g (jobs d) of
        Inl e \<Rightarrow> Inl e | Inr js \<Rightarrow> Inr (d\<lparr>jobs := js\<rparr>))"

definition processed_job :: "date \<Rightarrow> job_row \<Rightarrow> job_row" where
  "processed_job t j = j\<lparr>job_stat := JProcessed, job_processed := Some t, job_error := None\<rparr>"

definition failed_job :: "int \<Rightarrow> date \<Rightarrow> string \<Rightarrow> job_row \<Rightarrow> job_row" where
  "failed_job attempts available msg j =
     j\<lparr>job_stat := JFailed, job_attempts := attempts, job_available := available, job_error := Some msg\<rparr>"

definition mark_job_processed :: "date \<Rightarrow> string \<Rightarrow> (db, unit) prog" where
  "mark_job_processed now jid = writes (update_job jid (processed_job now))"

definition mark_job_failed :: "date \<Rightarrow> string \<Rightarrow> int \<Rightarrow> exn \<Rightarrow> (db, unit) prog" where
  "mark_job_failed now jid attempts e =
     writes (update_job jid (failed_job attempts (now + get_retry_delay_milliseconds attempts)
       (take 1000 (describe_ingest_error e))))"

text \<open>
  The environment of one job: the clock of the record, of the marking and of a failure, whether
  the transaction is aborted, whether its commit is not acknowledged, whether the marking after
  it is refused.
\<close>

record job_env =
  je_aggregated :: date
  je_marked :: date
  je_failed :: date
  je_abort :: "exn option"
  je_lost :: "exn option"
  je_refused :: "exn option"

definition job_input :: "job_row \<Rightarrow> usage_input" where
  "job_input j = \<lparr>ui_sub = job_sub j, ui_at = job_at j, ui_endpoint = job_endpoint j,
     ui_count = job_count j, ui_job = Some (job_id j)\<rparr>"

definition process_job_transaction :: "job_env \<Rightarrow> job_row \<Rightarrow> (db, unit) prog" where
  "process_job_transaction en j =
     bnd (tx (bnd (record_usage_in_transaction (je_aggregated en) (job_input j)) (\<lambda>_.
              bnd (writes (update_job (job_id j) (processed_job (je_marked en)))) (\<lambda>_.
              may_fail (je_abort en)))))
       (\<lambda>_. may_fail (je_lost en))"

definition process_job :: "job_env \<Rightarrow> job_row \<Rightarrow> (db, unit) prog" where
  "process_job en j =
     try_catch (process_job_transaction en j) (\<lambda>e.
       if is_duplicate_source_job_error e
       then bnd (may_fail (je_refused en)) (\<lambda>_. mark_job_processed (je_failed en) (job_id j))
       else bnd (may_fail (je_refused en)) (\<lambda>_.
            bnd (mark_job_failed (je_failed en) (job_id j) (job_attempts j + 1) e) (\<lambda>_. raise e)))"

section \<open>The drain\<close>

definition due_jobs :: "date \<Rightarrow> nat \<Rightarrow> db \<Rightarrow> job_row list" where
  "due_jobs now batch d =
     take batch (find_many (\<lambda>j. (job_available j, job_created j))
       (\<lambda>j. (job_stat j = JPending \<or> job_stat j = JFailed) \<and> job_available j \<le> now) (jobs d))"

definition process_jobs :: "(job_row \<Rightarrow> job_env) \<Rightarrow> job_row list \<Rightarrow> (db, int \<times> int) prog" where
  "process_jobs env js = (\<lambda>d.
     let (counts, d') = run_batch (\<lambda>j. bnd (process_job (env j) j) (\<lambda>_. ret True)) js (0, 0) d
     in (Inr counts, d'))"

definition drain_queue ::
  "usage_config \<Rightarrow> string \<Rightarrow> date \<Rightarrow> exn option \<Rightarrow> date \<Rightarrow> (job_row \<Rightarrow> job_env) \<Rightarrow> (db, int \<times> int) prog" where
  "drain_queue cfg owner lease_now fault now env =
     (if \<not> queue_enabled cfg then ret (0, 0)
      else bnd (usage_try_acquire_lease cfg owner lease_now fault) (\<lambda>acquired.
        if \<not> acquired then ret (0, 0)
        else bnd (gets (due_jobs now (queue_batch cfg))) (process_jobs env)))"

text \<open>The scheduled cycle logs an error of the drain and drops it.\<close>

definition run_scheduled_cycle ::
  "usage_config \<Rightarrow> string \<Rightarrow> date \<Rightarrow> exn option \<Rightarrow> date \<Rightarrow> (job_row \<Rightarrow> job_env) \<Rightarrow> (db, unit) prog" where
  "run_scheduled_cycle cfg owner lease_now fault now env =
     try_catch (bnd (drain_queue cfg owner lease_now fault now env) (\<lambda>_. ret ())) (\<lambda>e. ret ())"

section \<open>The queue invariant\<close>

definition jobs_unique :: "db \<Rightarrow> bool" where
  "jobs_unique d \<longleftrightarrow> col_unique (\<lambda>j. Some (job_id j)) (jobs d)"

definition has_record :: "db \<Rightarrow> string \<Rightarrow> bool" where
  "has_record d jid \<longleftrightarrow> (\<exists>u \<in> set (usages d). ur_job u = Some jid)"

definition record_of_job :: "job_row \<Rightarrow> usage_row \<Rightarrow> bool" where
  "record_of_job j u \<longleftrightarrow> ur_job u = Some (job_id j) \<and> ur_sub u = job_sub j \<and> ur_at u = job_at j
     \<and> ur_endpoint u = job_endpoint j \<and> ur_count u = job_count j"

text \<open>
  Every record that came from a job carries that job's data and is the only one of the job, and
  every processed job has its record.
\<close>

definition queue_ok :: "db \<Rightarrow> bool" where
  "queue_ok d \<longleftrightarrow> usage_consistent d \<and> col_unique ur_job (usages d) \<and> jobs_unique d
     \<and> (\<forall>j \<in> set (jobs d). job_stat j = JProcessed \<longrightarrow> has_record d (job_id j))
     \<and> (\<forall>u \<in> set (usages d). ur_job u \<noteq> None \<longrightarrow> (\<exists>j \<in> set (jobs d). record_of_job j u))"

definition keeps_job_data :: "(job_row \<Rightarrow> job_row) \<Rightarrow> bool" where
  "keeps_job_data g \<longleftrightarrow> (\<forall>j. job_id (g j) = job_id j \<and> job_sub (g j) = job_sub j \<and> job_at (g j) = job_at j
     \<and> job_endpoint (g j) = job_endpoint j \<and> job_count (g j) = job_count j)"

lemma keeps_job_data_marks [simp]:
  "keeps_job_data (processed_job t)" "keeps_job_data (failed_job a v m)"
  by (simp_all add: keeps_job_data_def processed_job_def failed_job_def)

lemma update_job_eq:
  assumes "keeps_job_data g" "j \<in> set (jobs d)" "job_id j = jid"
  shows "update_job jid g d = Inr (set_job jid g d)"
proof -
  have id: "job_id (g x) = job_id x" for x using assms(1) by (simp add: keeps_job_data_def)
  obtain r where r: "find_unique (\<lambda>j. job_id j = jid) (jobs d) = Some r"
    using assms(2,3) find_unique_None [of "\<lambda>j. job_id j = jid" "jobs d"] by (cases "find_unique (\<lambda>j. job_id j = jid) (jobs d)") auto
  have "job_id r = jid" using find_unique_Some [OF r] by simp
  then have "\<forall>x \<in> set (jobs d). \<not> job_id x = jid \<longrightarrow> job_viol (g r) x = None"
    by (auto simp: job_viol_def id)
  then have "update_unique job_viol (\<lambda>j. job_id j = jid) g (jobs d)
      = Inr (map (\<lambda>j. if job_id j = jid then g j else j) (jobs d))"
    using r by (simp add: update_unique_Inr)
  then show ?thesis by (simp add: update_job_def set_job_def)
qed

lemma set_job_frame [simp]:
  "usages (set_job jid g d) = usages d" "usage_consistent (set_job jid g d) = usage_consistent d"
  "has_record (set_job jid g d) x = has_record d x" "subs (set_job jid g d) = subs d"
  by (simp_all add: set_job_def usage_consistent_def has_record_def)

lemma set_job_ok:
  assumes ok: "queue_ok d" and g: "keeps_job_data g"
    and rec: "\<And>j. j \<in> set (jobs d) \<Longrightarrow> job_id j = jid \<Longrightarrow> job_stat (g j) = JProcessed \<Longrightarrow> has_record d jid"
  shows "queue_ok (set_job jid g d)"
proof -
  have gd: "job_id (g j) = job_id j" "record_of_job (g j) u = record_of_job j u" for j u
    using g by (simp_all add: keeps_job_data_def record_of_job_def)
  let ?m = "\<lambda>j. if job_id j = jid then g j else j"
  have js: "jobs (set_job jid g d) = map ?m (jobs d)" by (simp add: set_job_def)
  have "jobs_unique (set_job jid g d)"
    using ok col_unique_map [of "jobs d" "\<lambda>j. Some (job_id j)" ?m]
    by (simp add: queue_ok_def jobs_unique_def js gd)
  moreover have "has_record d (job_id (?m j))"
    if "j \<in> set (jobs d)" "job_stat (?m j) = JProcessed" for j
    using that rec [of j] ok by (cases "job_id j = jid") (auto simp: queue_ok_def gd)
  moreover have "\<exists>j \<in> set (jobs d). record_of_job (?m j) u"
    if u: "u \<in> set (usages d)" "ur_job u \<noteq> None" for u
  proof -
    obtain j where "j \<in> set (jobs d)" "record_of_job j u" using ok u by (auto simp: queue_ok_def)
    then show ?thesis by (intro bexI [of _ j]) (simp_all add: gd)
  qed
  ultimately have
    "\<forall>j \<in> set (jobs (set_job jid g d)). job_stat j = JProcessed \<longrightarrow> has_record d (job_id j)"
    "\<forall>u \<in> set (usages d). ur_job u \<noteq> None \<longrightarrow> (\<exists>j \<in> set (jobs (set_job jid g d)). record_of_job j u)"
    "jobs_unique (set_job jid g d)"
    unfolding js list.set_map ball_simps bex_simps by blast+
  then show ?thesis using ok by (simp add: queue_ok_def)
qed

lemma record_job_ok:
  assumes ok: "queue_ok d" and j: "j \<in> set (jobs d)"
    and rec: "record_usage_in_transaction ag (job_input j) d = (Inr u, d1)"
  shows "queue_ok d1 \<and> has_record d1 (job_id j) \<and> \<not> has_record d (job_id j)"
proof -
  note frame = record_usage_frame [OF rec]
  let ?r = "usage_row_of ag (job_input j)"
  have us: "usages d1 = usages d @ [?r]" by (rule record_usage_usages [OF rec])
  have r: "record_of_job j ?r" by (simp add: record_of_job_def usage_row_of_def job_input_def)
  have free: "\<forall>v \<in> set (usages d). usage_viol ?r v = None" using rec by (rule record_usage_cases)
  have "\<not> has_record d (job_id j)"
    using free by (auto simp: has_record_def usage_viol_def clash_def usage_row_of_def job_input_def
        split: if_splits)
  moreover have "has_record d1 (job_id j)" using r by (auto simp: has_record_def us record_of_job_def)
  moreover have "queue_ok d1"
    using ok j r record_usage_consistent [OF rec] record_usage_jobs_unique [OF rec]
    by (auto simp: queue_ok_def jobs_unique_def frame us has_record_def)
  ultimately show ?thesis by simp
qed

section \<open>One job\<close>

text \<open>The faults the environment injects are not themselves reports of a duplicate job.\<close>

definition env_ok :: "job_env \<Rightarrow> bool" where
  "env_ok en \<longleftrightarrow>
     (case je_abort en of None \<Rightarrow> True | Some e \<Rightarrow> \<not> is_duplicate_source_job_error e)
   \<and> (case je_lost en of None \<Rightarrow> True | Some e \<Rightarrow> \<not> is_duplicate_source_job_error e)"

lemma duplicate_job_error [simp]:
  "is_duplicate_source_job_error (unique_violation ''sourceJobId'')"
  "\<not> is_duplicate_source_job_error int4_overflow"
  by (simp_all add: is_duplicate_source_job_error_def unique_violation_def int4_overflow_def)

lemma duplicate_has_record:
  assumes "record_usage_in_transaction ag (job_input j) d = (Inl e, d1)" "is_duplicate_source_job_error e"
  shows "has_record d (job_id j)"
proof (rule ccontr)
  assume no: "\<not> has_record d (job_id j)"
  let ?r = "usage_row_of ag (job_input j)"
  have "usage_viol ?r v = None" if "v \<in> set (usages d)" for v
    using no that by (auto simp: has_record_def usage_viol_def clash_def usage_row_of_def job_input_def)
  then have "create_usage ?r d = Inl e' \<Longrightarrow> e' = int4_overflow" for e'
    by (auto simp: create_usage_def dest!: insert_unique_Inl split: if_splits sum.splits)
  then have "e = int4_overflow"
    using assms(1) by (auto simp: record_usage_in_transaction_def Let_def bnd_def writes_def
        split: sum.splits prod.splits dest: upsert_Inl)
  then show False using assms(2) by simp
qed

text \<open>The transaction: committed, or nothing happened.\<close>

lemma process_job_transaction_cases:
  assumes "process_job_transaction en j d = (res, d')" and j: "j \<in> set (jobs d)"
  obtains (committed) u d1 where "record_usage_in_transaction (je_aggregated en) (job_input j) d = (Inr u, d1)"
      "d' = set_job (job_id j) (processed_job (je_marked en)) d1" "je_abort en = None"
      "res = (case je_lost en of None \<Rightarrow> Inr () | Some e \<Rightarrow> Inl e)"
  | (refused) e d1 where "record_usage_in_transaction (je_aggregated en) (job_input j) d = (Inl e, d1)"
      "res = Inl e" "d' = d"
  | (aborted) e where "je_abort en = Some e" "res = Inl e" "d' = d"
proof (cases "record_usage_in_transaction (je_aggregated en) (job_input j) d")
  case (Pair r d1)
  show thesis
  proof (cases r)
    case (Inl e)
    then show thesis using assms(1) Pair
      by (intro refused [of e d1]) (simp_all add: process_job_transaction_def bnd_def tx_def)
  next
    case (Inr u)
    have "j \<in> set (jobs d1)" using record_usage_frame(4) [OF Pair [unfolded Inr]] j by simp
    then have upd: "update_job (job_id j) (processed_job (je_marked en)) d1
        = Inr (set_job (job_id j) (processed_job (je_marked en)) d1)"
      by (intro update_job_eq) simp_all
    show thesis
    proof (cases "je_abort en")
      case None
      then show thesis using assms(1) Pair Inr upd
        by (intro committed [of u d1])
          (auto simp: process_job_transaction_def bnd_def tx_def writes_def may_fail_def ret_def raise_def
            split: option.splits)
    next
      case (Some e)
      then show thesis using assms(1) Pair Inr upd
        by (intro aborted [of e])
          (simp_all add: process_job_transaction_def bnd_def tx_def writes_def may_fail_def raise_def)
    qed
  qed
qed

text \<open>A job keeps its data through the queue, and its processing depends on nothing else.\<close>

lemma process_job_transaction_input:
  assumes "job_input j = job_input j'"
  shows "process_job_transaction en j = process_job_transaction en j'" "job_id j = job_id j'"
  using assms by (simp_all add: process_job_transaction_def job_input_def)

lemma set_job_inputs:
  assumes "keeps_job_data g"
  shows "job_input ` set (jobs (set_job jid g d)) = job_input ` set (jobs d)"
proof -
  have "job_input (if job_id j = jid then g j else j) = job_input j" for j
    using assms by (simp add: keeps_job_data_def job_input_def)
  then show ?thesis unfolding set_job_def by (simp add: image_image del: if_image_distrib)
qed

lemma process_job_ok:
  assumes ok: "queue_ok d" and j: "job_input j \<in> job_input ` set (jobs d)" and en: "env_ok en"
    and run: "process_job en j d = (res, d')"
  shows "queue_ok d' \<and> job_input ` set (jobs d') = job_input ` set (jobs d)"
proof -
  obtain r d2 where t: "process_job_transaction en j d = (r, d2)" by (cases "process_job_transaction en j d")
  obtain k where k: "k \<in> set (jobs d)" "job_input j = job_input k" using j by auto
  note id = process_job_transaction_input(2) [OF k(2)]
  have mid: "queue_ok d2 \<and> job_input ` set (jobs d2) = job_input ` set (jobs d)
    \<and> (\<forall>e. r = Inl e \<longrightarrow> is_duplicate_source_job_error e \<longrightarrow> has_record d2 (job_id j))"
    using t [unfolded process_job_transaction_input(1) [OF k(2)]] k(1)
  proof (cases rule: process_job_transaction_cases)
    case (committed u d1)
    note rec = record_job_ok [OF ok k(1) committed(1)]
    have "queue_ok d2" unfolding committed(2) using rec
      by (intro set_job_ok) (auto simp: processed_job_def keeps_job_data_def)
    moreover have "job_input ` set (jobs d2) = job_input ` set (jobs d)"
      unfolding committed(2) using record_usage_frame(4) [OF committed(1)] by (simp add: set_job_inputs)
    ultimately show ?thesis using rec by (auto simp: committed(2) id)
  next
    case (refused e d1)
    then show ?thesis using ok duplicate_has_record [OF refused(1)] id by auto
  next
    case (aborted e)
    then show ?thesis using ok en by (auto simp: env_ok_def)
  qed
  then have "job_input k \<in> job_input ` set (jobs d2)" using k(1) by auto
  then obtain j' where j': "j' \<in> set (jobs d2)" "job_input j' = job_input k" by auto
  have j'id: "job_id j' = job_id j"
    using process_job_transaction_input(2) [OF j'(2)] id by simp
  have upd: "update_job (job_id j) g d2 = Inr (set_job (job_id j) g d2)" if "keeps_job_data g" for g
    using update_job_eq [OF that j'(1) j'id] .
  show ?thesis
  proof (cases r)
    case (Inr u)
    then show ?thesis using run t mid by (simp add: process_job_def try_catch_def)
  next
    case (Inl e)
    let ?kept = "\<lambda>g. queue_ok (set_job (job_id j) g d2)
      \<and> job_input ` set (jobs (set_job (job_id j) g d2)) = job_input ` set (jobs d)"
    have p: "?kept (processed_job (je_failed en))" if "is_duplicate_source_job_error e"
      using mid Inl that by (simp add: set_job_inputs set_job_ok)
    have f: "?kept (failed_job a v m)" for a v m
      using mid set_job_ok [of d2 "failed_job a v m" "job_id j"]
      by (simp add: set_job_inputs) (simp add: failed_job_def)
    have "d' = d2 \<or> (is_duplicate_source_job_error e \<and> d' = set_job (job_id j) (processed_job (je_failed en)) d2)
        \<or> (\<exists>a v m. d' = set_job (job_id j) (failed_job a v m) d2)"
      using run t Inl
      by (cases "je_refused en"; cases "is_duplicate_source_job_error e")
        (auto simp: process_job_def try_catch_def mark_job_processed_def mark_job_failed_def bnd_def
          writes_def upd may_fail_def ret_def raise_def)
    then show ?thesis using mid p f by metis
  qed
qed

lemma process_jobs_ok:
  assumes "queue_ok d" "job_input ` set js \<subseteq> job_input ` set (jobs d)" "\<forall>j. env_ok (env j)"
    and "run_batch (\<lambda>j. bnd (process_job (env j) j) (\<lambda>_. ret True)) js c d = (c', d')"
  shows "queue_ok d'"
proof -
  let ?I = "\<lambda>s. queue_ok s \<and> job_input ` set (jobs s) = job_input ` set (jobs d)"
  have "?I s'" if a: "j \<in> set js" and b: "?I s"
    and c: "bnd (process_job (env j) j) (\<lambda>_. ret True) s = (r, s')" for j s s' and r :: "exn + bool"
  proof -
    obtain r0 where r0: "process_job (env j) j s = (r0, s')"
      using c by (auto simp: bnd_def ret_def split: prod.splits sum.splits)
    have "job_input j \<in> job_input ` set (jobs s)" using a b assms(2) by auto
    then show ?thesis using process_job_ok [OF _ _ _ r0] b assms(3) by auto
  qed
  then have "?I d'" by (rule run_batch_invariant [where I = ?I, OF _ _ assms(4)]) (use assms(1) in simp_all)
  then show ?thesis by simp
qed

text \<open>After a job: processed with its record, or scheduled for another attempt.\<close>

definition processed_in :: "db \<Rightarrow> job_row \<Rightarrow> bool" where
  "processed_in d j \<longleftrightarrow> has_record d (job_id j)
     \<and> (\<exists>j' \<in> set (jobs d). job_id j' = job_id j \<and> job_stat j' = JProcessed)"

definition retry_in :: "job_env \<Rightarrow> db \<Rightarrow> job_row \<Rightarrow> bool" where
  "retry_in en d j \<longleftrightarrow> (\<exists>j' \<in> set (jobs d). job_id j' = job_id j \<and> job_stat j' = JFailed
     \<and> job_attempts j' = job_attempts j + 1
     \<and> je_failed en + 30000 \<le> job_available j' \<and> job_available j' \<le> je_failed en + 300000)"

lemma retry_delay_bounds:
  "30000 \<le> get_retry_delay_milliseconds a \<and> get_retry_delay_milliseconds a \<le> 300000"
  by (simp add: get_retry_delay_milliseconds_def max_retry_delay_seconds_def min_retry_delay_seconds_def)

lemma set_job_rows:
  assumes "keeps_job_data g"
  shows "j \<in> set (jobs d) \<Longrightarrow> g j \<in> set (jobs (set_job (job_id j) g d))"
    and "x \<in> set (jobs d) \<Longrightarrow> job_id x \<noteq> jid \<Longrightarrow> x \<in> set (jobs (set_job jid g d))"
  using assms by (auto simp: set_job_def)

lemma process_job_effect:
  assumes j: "j \<in> set (jobs d)" and ok: "env_ok en" and en: "je_refused en = None"
    and run: "process_job en j d = (res, d')"
  shows "(\<forall>x \<in> set (jobs d). job_id x \<noteq> job_id j \<longrightarrow> x \<in> set (jobs d'))
    \<and> (\<forall>x. has_record d x \<longrightarrow> has_record d' x)
    \<and> ((\<exists>u. res = Inr u) \<and> processed_in d' j \<or> (\<exists>e. res = Inl e) \<and> retry_in en d' j)"
proof -
  obtain r d2 where t: "process_job_transaction en j d = (r, d2)" by (cases "process_job_transaction en j d")
  obtain j2 where mid: "j2 \<in> set (jobs d2)" "job_id j2 = job_id j"
      "\<forall>x \<in> set (jobs d). job_id x \<noteq> job_id j \<longrightarrow> x \<in> set (jobs d2)"
      "\<forall>x. has_record d x \<longrightarrow> has_record d2 x"
      "\<forall>u. r = Inr u \<longrightarrow> processed_in d2 j"
      "\<forall>e. r = Inl e \<longrightarrow> is_duplicate_source_job_error e \<longrightarrow> has_record d2 (job_id j)"
    using t j
  proof (cases rule: process_job_transaction_cases)
    case (committed u d1)
    note frame = record_usage_frame(4) [OF committed(1)]
    let ?g = "processed_job (je_marked en)"
    have g: "?g j \<in> set (jobs d2)" "job_id (?g j) = job_id j" "job_stat (?g j) = JProcessed"
      using set_job_rows(1) [of ?g j d1] j frame by (simp_all add: committed(2) processed_job_def)
    have mono: "has_record d x \<Longrightarrow> has_record d2 x" for x
      using record_usage_usages [OF committed(1)] by (auto simp: committed(2) has_record_def)
    have "has_record d2 (job_id j)"
      using record_usage_usages [OF committed(1)]
      by (simp add: committed(2)) (auto simp: has_record_def usage_row_of_def job_input_def)
    then have "processed_in d2 j" using g by (auto simp: processed_in_def)
    then show ?thesis
      using g mono set_job_rows(2) [of ?g _ d1 "job_id j"] frame
      by (intro that [of "?g j"]) (auto simp: committed(2) processed_in_def)
  next
    case (refused e d1)
    then show ?thesis using j duplicate_has_record [OF refused(1)] by (intro that [of j]) auto
  next
    case (aborted e)
    then show ?thesis using j ok by (intro that [of j]) (auto simp: env_ok_def)
  qed
  have upd: "update_job (job_id j) g d2 = Inr (set_job (job_id j) g d2)" if "keeps_job_data g" for g
    using update_job_eq [OF that mid(1,2)] .
  show ?thesis
  proof (cases r)
    case (Inr u)
    then have "res = Inr u" "d' = d2" using run t by (simp_all add: process_job_def try_catch_def)
    then show ?thesis using mid Inr by blast
  next
    case (Inl e)
    have rows: "\<forall>x \<in> set (jobs d). job_id x \<noteq> job_id j \<longrightarrow> x \<in> set (jobs (set_job (job_id j) g d2))"
      "g j2 \<in> set (jobs (set_job (job_id j) g d2))" if "keeps_job_data g" for g
      using set_job_rows(2) [OF that, of _ d2 "job_id j"] set_job_rows(1) [OF that mid(1)] mid(2,3) by auto
    show ?thesis
    proof (cases "is_duplicate_source_job_error e")
      case True
      let ?g = "processed_job (je_failed en)"
      have "res = Inr ()" "d' = set_job (job_id j) ?g d2"
        using run t Inl True en upd [of ?g]
        by (simp_all add: process_job_def try_catch_def mark_job_processed_def bnd_def writes_def may_fail_def
            ret_def)
      moreover have "processed_in (set_job (job_id j) ?g d2) j"
        using rows(2) [of ?g] mid(2,6) Inl True
        unfolding processed_in_def by (auto intro!: bexI [of _ "?g j2"] simp: processed_job_def)
      ultimately show ?thesis using rows(1) [of ?g] mid(4) by simp
    next
      case False
      let ?g = "failed_job (job_attempts j + 1) (je_failed en + get_retry_delay_milliseconds (job_attempts j + 1))
         (take 1000 (describe_ingest_error e))"
      have "res = Inl e" "d' = set_job (job_id j) ?g d2"
        using run t Inl False en upd [of ?g]
        by (simp_all add: process_job_def try_catch_def mark_job_failed_def bnd_def writes_def may_fail_def
            ret_def raise_def)
      moreover have "retry_in en (set_job (job_id j) ?g d2) j"
        using rows(2) [of ?g] mid(2) retry_delay_bounds [of "job_attempts j + 1"]
        unfolding retry_in_def by (intro bexI [of _ "?g j2"]) (simp_all add: failed_job_def)
      ultimately show ?thesis using rows(1) [of ?g] mid(4) by simp
    qed
  qed
qed

section \<open>A batch\<close>

lemma process_jobs_settles:
  assumes "\<forall>j \<in> set js. j \<in> set (jobs d) \<and> env_ok (env j) \<and> je_refused (env j) = None"
    and "distinct (map job_id js)"
    and "run_batch (\<lambda>j. bnd (process_job (env j) j) (\<lambda>_. ret True)) js (p, q) d = ((p', q'), d')"
  shows "(\<forall>x \<in> set (jobs d). job_id x \<notin> job_id ` set js \<longrightarrow> x \<in> set (jobs d'))
    \<and> (\<forall>x. has_record d x \<longrightarrow> has_record d' x)
    \<and> (\<exists>f. p' = p + int (length (filter f js)) \<and> q' = q + int (length (filter (\<lambda>j. \<not> f j) js))
         \<and> (\<forall>j \<in> set js. if f j then processed_in d' j else retry_in (env j) d' j))"
  using assms
proof (induction js arbitrary: p q d)
  case Nil
  then show ?case by (auto intro: exI [of _ "\<lambda>_. True"])
next
  case (Cons j js)
  obtain r d1 where step: "process_job (env j) j d = (r, d1)" by (cases "process_job (env j) j d")
  have e: "(\<forall>x \<in> set (jobs d). job_id x \<noteq> job_id j \<longrightarrow> x \<in> set (jobs d1))"
    "(\<forall>x. has_record d x \<longrightarrow> has_record d1 x)"
    "(\<exists>u. r = Inr u) \<and> processed_in d1 j \<or> (\<exists>e. r = Inl e) \<and> retry_in (env j) d1 j"
    using process_job_effect [OF _ _ _ step] Cons.prems(1) by auto
  define b where "b \<longleftrightarrow> (\<exists>u. r = Inr u)"
  have run: "run_batch (\<lambda>j. bnd (process_job (env j) j) (\<lambda>_. ret True)) js
      (if b then p + 1 else p, if b then q else q + 1) d1 = ((p', q'), d')"
    using Cons.prems(3) step by (cases r) (auto simp: bnd_def ret_def b_def)
  have ids: "job_id j \<notin> job_id ` set js" "distinct (map job_id js)" using Cons.prems(2) by auto
  have "\<forall>j \<in> set js. j \<in> set (jobs d1) \<and> env_ok (env j) \<and> je_refused (env j) = None"
    using Cons.prems(1) e(1) ids(1) by (metis imageI list.set_intros(2))
  note IH = Cons.IH [OF this ids(2) run]
  obtain f where f: "p' = (if b then p + 1 else p) + int (length (filter f js))"
      "q' = (if b then q else q + 1) + int (length (filter (\<lambda>j. \<not> f j) js))"
      "\<forall>j \<in> set js. if f j then processed_in d' j else retry_in (env j) d' j"
    using IH by blast
  have mono: "\<forall>x. has_record d1 x \<longrightarrow> has_record d' x"
    and keep: "\<forall>x \<in> set (jobs d1). job_id x \<notin> job_id ` set js \<longrightarrow> x \<in> set (jobs d')"
    using IH by blast+
  have here: "if b then processed_in d' j else retry_in (env j) d' j"
  proof (cases b)
    case True
    then have "processed_in d1 j" using e(3) by (auto simp: b_def)
    then show ?thesis using mono keep ids(1) True by (auto simp: processed_in_def)
  next
    case False
    then have "retry_in (env j) d1 j" using e(3) by (auto simp: b_def)
    then show ?thesis using keep ids(1) False by (auto simp: retry_in_def)
  qed
  let ?f = "\<lambda>x. if x = j then b else f x"
  have nj: "j \<notin> set js" using ids(1) by auto
  have "filter ?f js = filter f js" "filter (\<lambda>x. \<not> ?f x) js = filter (\<lambda>x. \<not> f x) js"
    using nj by (auto intro!: filter_cong)
  then have "p' = p + int (length (filter ?f (j # js)))" "q' = q + int (length (filter (\<lambda>x. \<not> ?f x) (j # js)))"
    using f(1,2) by auto
  moreover have "\<forall>x \<in> set (j # js). if ?f x then processed_in d' x else retry_in (env x) d' x"
    using f(3) here nj by auto
  ultimately have "\<exists>f. p' = p + int (length (filter f (j # js))) \<and> q' = q + int (length (filter (\<lambda>j. \<not> f j) (j # js)))
         \<and> (\<forall>j \<in> set (j # js). if f j then processed_in d' j else retry_in (env j) d' j)"
    by blast
  moreover have "\<forall>x \<in> set (jobs d). job_id x \<notin> job_id ` set (j # js) \<longrightarrow> x \<in> set (jobs d')"
    using e(1) keep by auto
  ultimately show ?case using e(2) mono by blast
qed

section \<open>Runs of the queue\<close>

text \<open>What can happen to usage: a report is ingested, a call consumes, a worker cycle runs.\<close>

datatype usage_event =
    Ingest usage_config date date string record_input "string option"
  | Consume consumption
  | Cycle usage_config string date "exn option" date "job_row \<Rightarrow> job_env"

fun run_usage_event :: "usage_event \<Rightarrow> db \<Rightarrow> db" where
  "run_usage_event (Ingest cfg now later jid i secret) d = snd (ingest_usage cfg now later jid i secret d)"
| "run_usage_event (Consume c) d = consume_all [c] d"
| "run_usage_event (Cycle cfg owner lease_now fault now env) d =
     snd (run_scheduled_cycle cfg owner lease_now fault now env d)"

fun run_usage_events :: "usage_event list \<Rightarrow> db \<Rightarrow> db" where
  "run_usage_events [] d = d"
| "run_usage_events (e # es) d = run_usage_events es (run_usage_event e d)"

fun usage_event_ok :: "usage_event \<Rightarrow> bool" where
  "usage_event_ok (Cycle cfg owner lease_now fault now env) = (\<forall>j. env_ok (env j))"
| "usage_event_ok _ = True"

lemma record_plain_ok:
  assumes ok: "queue_ok d" and rec: "record_usage_in_transaction ag i d = (Inr u, d1)" and "ui_job i = None"
  shows "queue_ok d1"
proof -
  note frame = record_usage_frame [OF rec]
  have us: "usages d1 = usages d @ [usage_row_of ag i]" by (rule record_usage_usages [OF rec])
  have "ur_job (usage_row_of ag i) = None" using assms(3) by (simp add: usage_row_of_def)
  then show ?thesis
    using ok record_usage_consistent [OF rec] record_usage_jobs_unique [OF rec]
    by (auto simp: queue_ok_def jobs_unique_def frame us has_record_def)
qed

lemma record_usage_plain_ok:
  "queue_ok d \<Longrightarrow> record_usage ag i d = (res, d1) \<Longrightarrow> ui_job i = None \<Longrightarrow> queue_ok d1"
  by (cases "record_usage_in_transaction ag i d")
    (auto simp: record_usage_def tx_def dest: record_plain_ok split: sum.splits)

lemma create_job_ok:
  assumes "queue_ok d" "create_job (new_job jid t v) d = Inr d'"
  shows "queue_ok d'"
proof -
  obtain js where ins: "insert_unique job_viol (new_job jid t v) (jobs d) = Inr js" "d' = d\<lparr>jobs := js\<rparr>"
    using assms(2) by (auto simp: create_job_def split: if_splits sum.splits)
  have "col_unique (\<lambda>j. Some (job_id j)) js"
    using job_ids.insert_keeps_unique [OF ins(1)] assms(1) by (simp add: queue_ok_def jobs_unique_def)
  moreover have "js = jobs d @ [new_job jid t v]" using ins(1) by (simp add: insert_unique_Inr)
  ultimately show ?thesis
    using assms(1) by (auto simp: ins queue_ok_def jobs_unique_def has_record_def usage_consistent_def new_job_def)
qed

lemma validated_plain: "validate_usage_record_input now i d = Inr v \<Longrightarrow> ui_job v = None"
  by (auto simp: validate_usage_record_input_def Let_def split: option.splits)

lemma ingest_ok:
  assumes "queue_ok d" "ingest_usage cfg now later jid i secret d = (res, d')"
  shows "queue_ok d'"
proof -
  have q: "queue_ok d'" if "writes (create_job (new_job jid later v)) d = (res, d')" for v
    using that create_job_ok [OF assms(1)] assms(1) by (cases res) (auto simp: writes_Inr writes_Inl)
  show ?thesis
    using assms q record_usage_plain_ok [OF assms(1)] validated_plain
    by (cases "validate_usage_record_input now i d")
      (auto simp: ingest_usage_def assert_usage_secret_def create_usage_record_def enqueue_usage_record_def
        bnd_def ret_def raise_def split: if_splits)
qed

lemma consumption_ok:
  assumes "queue_ok d" "authorize_usage_with_consumption ag kid uid pid x n t d = (res, d')"
  shows "queue_ok d'"
  using assms(2)
proof (cases rule: consumption_cases)
  case (allowed a s p r w left)
  show ?thesis by (rule record_plain_ok [OF assms(1) allowed(5)]) (simp add: consumption_input_def)
qed (use assms(1) in simp_all)

lemma lease_keeps_queue:
  assumes "usage_try_acquire_lease cfg owner now fault d = (r, d')"
  shows "usages d' = usages d \<and> jobs d' = jobs d \<and> dailies d' = dailies d \<and> endpoints d' = endpoints d"
proof -
  have "snd (lease_body name ow t e d) = d\<lparr>leases := leases (snd (lease_body name ow t e d))\<rparr>" for name ow t e
    by (auto simp: lease_body_def bnd_def gets_def create_lease_def take_over_lease_def ret_def Let_def
        split: option.splits sum.splits)
  then have "lease_body name ow t e d = (q, d1) \<Longrightarrow> d1 = d\<lparr>leases := leases d1\<rparr>" for name ow t e q d1
    by (metis snd_conv)
  then have "d' = d \<or> d' = d\<lparr>leases := leases d'\<rparr>"
    using lease_transaction_cases [OF assms [unfolded usage_try_acquire_lease_def]] by blast
  then show ?thesis by (metis (no_types, lifting) db.ext_inject db.surjective db.update_convs(7))
qed

lemma queue_ok_lease:
  assumes "usage_try_acquire_lease cfg owner now fault d = (r, d')"
  shows "queue_ok d' = queue_ok d"
  using lease_keeps_queue [OF assms]
  by (simp add: queue_ok_def usage_consistent_def jobs_unique_def has_record_def)

lemma drain_ok:
  assumes "queue_ok d" "\<forall>j. env_ok (env j)" "drain_queue cfg owner lnow fault now env d = (res, d')"
  shows "queue_ok d'"
proof (cases "queue_enabled cfg")
  case False
  then show ?thesis using assms by (simp add: drain_queue_def ret_def)
next
  case True
  obtain r d1 where l: "usage_try_acquire_lease cfg owner lnow fault d = (r, d1)"
    by (cases "usage_try_acquire_lease cfg owner lnow fault d")
  have ok1: "queue_ok d1" using queue_ok_lease [OF l] assms(1) by simp
  show ?thesis
  proof (cases "r = Inr True")
    case False
    then show ?thesis using assms(3) l ok1 True
      by (cases r) (auto simp: drain_queue_def bnd_def ret_def)
  next
    case acquired: True
    obtain c where "run_batch (\<lambda>j. bnd (process_job (env j) j) (\<lambda>_. ret True))
        (due_jobs now (queue_batch cfg) d1) (0, 0) d1 = (c, d')"
      using assms(3) l True acquired
      by (auto simp: drain_queue_def bnd_def gets_def process_jobs_def split: prod.splits)
    moreover have "job_input ` set (due_jobs now (queue_batch cfg) d1) \<subseteq> job_input ` set (jobs d1)"
      by (auto simp: due_jobs_def dest: in_set_takeD)
    ultimately show ?thesis using process_jobs_ok [OF ok1 _ assms(2)] by blast
  qed
qed

lemma cycle_snd:
  "snd (run_scheduled_cycle cfg owner lnow fault now env d) = snd (drain_queue cfg owner lnow fault now env d)"
  by (auto simp: run_scheduled_cycle_def try_catch_def bnd_def ret_def split: prod.splits sum.splits)

lemma run_usage_event_ok:
  assumes "queue_ok d" "usage_event_ok e"
  shows "queue_ok (run_usage_event e d)"
proof (cases e)
  case (Ingest cfg now later jid i secret)
  then show ?thesis using ingest_ok [OF assms(1)] by (metis prod.collapse run_usage_event.simps(1))
next
  case (Consume c)
  then show ?thesis using consumption_ok [OF assms(1)] by (cases c) (simp, metis prod.collapse)
next
  case (Cycle cfg owner lnow fault now env)
  then show ?thesis using drain_ok [OF assms(1)] assms(2) by (simp add: cycle_snd) (metis prod.collapse)
qed

lemma run_usage_events_ok:
  "queue_ok d \<Longrightarrow> list_all usage_event_ok es \<Longrightarrow> queue_ok (run_usage_events es d)"
  by (induction es d rule: run_usage_events.induct) (simp_all add: run_usage_event_ok)

lemma col_unique_once:
  "col_unique col rows \<Longrightarrow> length (filter (\<lambda>r. col r = Some k) rows) \<le> 1"
proof (induction rows)
  case (Cons r rows)
  then have "col r = Some k \<Longrightarrow> filter (\<lambda>r. col r = Some k) rows = []"
    by (auto simp: col_unique_def filter_empty_conv)
  then show ?case using Cons by (auto simp: col_unique_def)
qed simp

section \<open>Properties\<close>

definition job_records :: "db \<Rightarrow> job_row \<Rightarrow> usage_row list" where
  "job_records d j = filter (\<lambda>u. ur_job u = Some (job_id j)) (usages d)"

lemma queue_ok_records:
  assumes "queue_ok d" "j \<in> set (jobs d)"
  shows "length (job_records d j) \<le> 1 \<and> (\<forall>u \<in> set (job_records d j). record_of_job j u)
    \<and> (job_stat j = JProcessed \<longrightarrow> job_records d j \<noteq> [])"
proof -
  have "record_of_job j u" if u: "u \<in> set (job_records d j)" for u
  proof -
    have u': "u \<in> set (usages d)" "ur_job u = Some (job_id j)" using u by (auto simp: job_records_def)
    then obtain k where k: "k \<in> set (jobs d)" "record_of_job k u" using assms(1) by (auto simp: queue_ok_def)
    then have "job_id k = job_id j" using u'(2) by (simp add: record_of_job_def)
    then have "k = j" using assms k
      by (intro col_unique_row [of "\<lambda>j. Some (job_id j)" "jobs d" k j "job_id j"])
        (auto simp: queue_ok_def jobs_unique_def)
    then show ?thesis using k by simp
  qed
  moreover have "length (job_records d j) \<le> 1"
    unfolding job_records_def by (rule col_unique_once) (use assms in \<open>simp add: queue_ok_def\<close>)
  moreover have "job_stat j = JProcessed \<longrightarrow> job_records d j \<noteq> []"
    using assms by (auto simp: queue_ok_def has_record_def job_records_def filter_empty_conv)
  ultimately show ?thesis by blast
qed

text \<open>C14: Queued usage is counted exactly once: in every run of reports, consuming calls and worker
  cycles by any owners, with transactions aborted, commits not acknowledged or markings refused
  at will, a job never has more than one usage record, a record that came from a job carries
  exactly that job's subscription, time, endpoint and count, a job marked PROCESSED has its
  record, and the counters stay consistent with the records.\<close>

theorem queue_exactly_once:
  assumes "queue_ok d" "list_all usage_event_ok es"
  shows "usage_consistent (run_usage_events es d) \<and> (\<forall>j \<in> set (jobs (run_usage_events es d)).
    length (job_records (run_usage_events es d) j) \<le> 1
    \<and> (\<forall>u \<in> set (job_records (run_usage_events es d) j). record_of_job j u)
    \<and> (job_stat j = JProcessed \<longrightarrow> job_records (run_usage_events es d) j \<noteq> []))"
  using run_usage_events_ok [OF assms] queue_ok_records by (auto simp: queue_ok_def)

definition quiet_env :: "date \<Rightarrow> job_env" where
  "quiet_env t = \<lparr>je_aggregated = t, je_marked = t, je_failed = t, je_abort = None, je_lost = None,
     je_refused = None\<rparr>"

definition lost_env :: "date \<Rightarrow> job_env" where
  "lost_env t = (quiet_env t)\<lparr>je_lost := Some (OtherError ''connection lost'')\<rparr>"

definition sample_report :: usage_event where
  "sample_report = Ingest sample_usage_config 5 6 ''j1''
     \<lparr>ri_sub = ''s1'', ri_endpoint = ''/a'', ri_count = 2, ri_at = None\<rparr> (Some ''secret'')"

text \<open>A report, a cycle whose commit is not acknowledged, and a later cycle that finds the record.\<close>

definition sample_run :: "usage_event list" where
  "sample_run = [sample_report, Cycle sample_usage_config ''w1'' 1000 None 1000 (\<lambda>_. lost_env 1000),
     Cycle sample_usage_config ''w1'' 70000 None 70000 (\<lambda>_. quiet_env 70000)]"

lemma sample_market_queue: "queue_ok sample_market"
  by code_simp

lemma sample_run_ok: "list_all usage_event_ok sample_run"
  by (simp add: sample_run_def sample_report_def env_ok_def quiet_env_def lost_env_def
      is_duplicate_source_job_error_def)

theorem queue_exactly_once_witness:
  "usage_consistent (run_usage_events sample_run sample_market)
   \<and> map ur_count (usages (run_usage_events sample_run sample_market)) = [2]
   \<and> map job_stat (jobs (run_usage_events sample_run sample_market)) = [JProcessed]"
proof (intro conjI)
  show "usage_consistent (run_usage_events sample_run sample_market)"
    using queue_exactly_once [OF sample_market_queue sample_run_ok] by blast
  show "map ur_count (usages (run_usage_events sample_run sample_market)) = [2]" by code_simp
  show "map job_stat (jobs (run_usage_events sample_run sample_market)) = [JProcessed]" by code_simp
qed



end
