(* ===== verification/BurstLimiter.thy ===== *)
theory BurstLimiter
  imports Schema
begin

text \<open>
  \<open>src/modules/gateway/gateway-burst-limiter.service.ts\<close>: a token bucket per key, refilled and
  charged in one serializable transaction that is tried up to three times. Tokens are doubles;
  every arithmetic operation of the code is followed by the rounding it does (\<open>dbl\<close>). Which
  attempts the database aborts is an argument (\<open>faults\<close>).
\<close>

section \<open>The limit\<close>

definition resolve_burst_limit :: "gateway_config \<Rightarrow> int option \<Rightarrow> int option" where
  "resolve_burst_limit cfg rpm =
     (case rpm of
        None \<Rightarrow> None
      | Some r \<Rightarrow>
          if \<not> burst_enabled cfg \<or> r \<le> 0 then None
          else let burst_limit =
                 \<lceil>dbl (dbl (dbl (of_int r * of_int (burst_window cfg)) * burst_multiplier cfg) / 60)\<rceil>
               in Some (min (burst_max cfg) (max (burst_min cfg) burst_limit)))"

section \<open>The bucket\<close>

definition find_bucket :: "string \<Rightarrow> db \<Rightarrow> bucket_row option" where
  "find_bucket key d = find_unique (\<lambda>b. bk_key b = key) (buckets d)"

definition create_bucket :: "bucket_row \<Rightarrow> db \<Rightarrow> exn + db" where
  "create_bucket b d =
     (case insert_unique bucket_viol b (buckets d) of
        Inl e \<Rightarrow> Inl e | Inr bs \<Rightarrow> Inr (d\<lparr>buckets := bs\<rparr>))"

definition update_bucket :: "string \<Rightarrow> rat \<Rightarrow> date \<Rightarrow> db \<Rightarrow> exn + db" where
  "update_bucket key tokens now d =
     (case update_unique bucket_viol (\<lambda>b. bk_key b = key)
             (\<lambda>b. b\<lparr>bk_tokens := tokens, bk_refill := now\<rparr>) (buckets d) of
        Inl e \<Rightarrow> Inl e | Inr bs \<Rightarrow> Inr (d\<lparr>buckets := bs\<rparr>))"

definition is_unique_bucket_error :: "exn \<Rightarrow> bool" where
  "is_unique_bucket_error e \<longleftrightarrow> exn_prisma_code e = Some ''P2002''"

definition is_retryable_bucket_error :: "exn \<Rightarrow> bool" where
  "is_retryable_bucket_error e \<longleftrightarrow> exn_prisma_code e = Some ''P2034''"

text \<open>The row, created full if it is missing; \<open>n\<close> passes are left of the code's two.\<close>

primrec lock_bucket_row :: "nat \<Rightarrow> string \<Rightarrow> int \<Rightarrow> date \<Rightarrow> (db, bucket_row) prog" where
  "lock_bucket_row 0 key limit now =
     ret \<lparr>bk_key = key, bk_tokens = of_int limit, bk_refill = now\<rparr>"
| "lock_bucket_row (Suc n) key limit now =
     bnd (gets (find_bucket key)) (\<lambda>existing.
     bnd (case existing of
            Some b \<Rightarrow> ret ()
          | None \<Rightarrow> try_catch
              (writes (create_bucket \<lparr>bk_key = key, bk_tokens = of_int limit, bk_refill = now\<rparr>))
              (\<lambda>e. if \<not> is_unique_bucket_error e then raise e else ret ())) (\<lambda>_.
     bnd (gets (find_bucket key)) (\<lambda>locked.
     case locked of
       Some b \<Rightarrow> ret b
     | None \<Rightarrow> lock_bucket_row n key limit now)))"

definition refill_tokens :: "rat \<Rightarrow> date \<Rightarrow> date \<Rightarrow> int \<Rightarrow> rat \<Rightarrow> rat" where
  "refill_tokens tokens last_refill now limit rate =
     (let elapsed = max 0 (now - last_refill)
      in min (of_int limit) (dbl (tokens + dbl (dbl (of_int elapsed / 1000) * rate))))"

section \<open>Consuming\<close>

record burst_decision =
  bd_allowed :: bool
  bd_limit :: "int option"
  bd_remaining :: "int option"
  bd_window :: "int option"
  bd_retry_after :: "int option"

definition refill_rate :: "gateway_config \<Rightarrow> int \<Rightarrow> rat" where
  "refill_rate cfg limit = dbl (of_int limit / of_int (burst_window cfg))"

definition consume_body ::
  "gateway_config \<Rightarrow> string \<Rightarrow> int \<Rightarrow> int \<Rightarrow> date \<Rightarrow> (db, burst_decision) prog" where
  "consume_body cfg key n limit now =
     bnd (lock_bucket_row 2 key limit now) (\<lambda>bucket.
     let refilled = refill_tokens (bk_tokens bucket) (bk_refill bucket) now limit (refill_rate cfg limit) in
     if refilled < of_int n then
       bnd (writes (update_bucket key refilled now)) (\<lambda>_.
       ret \<lparr>bd_allowed = False, bd_limit = Some limit, bd_remaining = Some (max 0 \<lfloor>refilled\<rfloor>),
            bd_window = Some (burst_window cfg),
            bd_retry_after = Some (max 1 \<lceil>dbl (dbl (of_int n - refilled) / refill_rate cfg limit)\<rceil>)\<rparr>)
     else
       let remaining = dbl (refilled - of_int n) in
       bnd (writes (update_bucket key remaining now)) (\<lambda>_.
       ret \<lparr>bd_allowed = True, bd_limit = Some limit, bd_remaining = Some (max 0 \<lfloor>remaining\<rfloor>),
            bd_window = Some (burst_window cfg), bd_retry_after = None\<rparr>))"

definition max_transaction_retries :: nat where
  "max_transaction_retries = 3"

text \<open>The retry loop: \<open>n\<close> attempts are left, \<open>faults\<close> says which of them are aborted.\<close>

primrec consume_loop ::
  "nat \<Rightarrow> gateway_config \<Rightarrow> string \<Rightarrow> int \<Rightarrow> int \<Rightarrow> date \<Rightarrow> (nat \<Rightarrow> exn option) \<Rightarrow> (db, burst_decision) prog" where
  "consume_loop 0 cfg key n limit now faults =
     ret \<lparr>bd_allowed = False, bd_limit = Some limit, bd_remaining = Some 0,
          bd_window = Some (burst_window cfg), bd_retry_after = Some 1\<rparr>"
| "consume_loop (Suc k) cfg key n limit now faults =
     try_catch
       (tx (bnd (consume_body cfg key n limit now) (\<lambda>r.
            bnd (may_fail (faults (max_transaction_retries - Suc k))) (\<lambda>_. ret r))))
       (\<lambda>e. if is_retryable_bucket_error e \<and> max_transaction_retries - Suc k < max_transaction_retries - 1
            then consume_loop k cfg key n limit now faults
            else raise e)"

definition check_and_consume ::
  "gateway_config \<Rightarrow> string \<Rightarrow> int \<Rightarrow> int option \<Rightarrow> date \<Rightarrow> (nat \<Rightarrow> exn option) \<Rightarrow> (db, burst_decision) prog" where
  "check_and_consume cfg key n rpm now faults =
     (case resolve_burst_limit cfg rpm of
        None \<Rightarrow> ret \<lparr>bd_allowed = True, bd_limit = None, bd_remaining = None, bd_window = None,
                  bd_retry_after = None\<rparr>
      | Some limit \<Rightarrow>
          if limit = 0 then
            ret \<lparr>bd_allowed = True, bd_limit = None, bd_remaining = None, bd_window = None,
                 bd_retry_after = None\<rparr>
          else if limit < n then
            ret \<lparr>bd_allowed = False, bd_limit = Some limit, bd_remaining = Some limit,
                 bd_window = Some (burst_window cfg), bd_retry_after = None\<rparr>
          else consume_loop max_transaction_retries cfg key n limit now faults)"

section \<open>One charge of the bucket\<close>

definition buckets_unique :: "db \<Rightarrow> bool" where
  "buckets_unique d \<longleftrightarrow> col_unique (\<lambda>b. Some (bk_key b)) (buckets d)"

text \<open>A bucket that is missing counts as full now.\<close>

definition bucket_of :: "string \<Rightarrow> int \<Rightarrow> date \<Rightarrow> db \<Rightarrow> bucket_row" where
  "bucket_of key limit now d =
     (case find_bucket key d of
        Some b \<Rightarrow> b | None \<Rightarrow> \<lparr>bk_key = key, bk_tokens = of_int limit, bk_refill = now\<rparr>)"

lemma find_bucket_Some: "find_bucket key d = Some b \<Longrightarrow> b \<in> set (buckets d) \<and> bk_key b = key"
  unfolding find_bucket_def by (drule find_unique_Some) simp

lemma find_bucket_None: "find_bucket key d = None \<longleftrightarrow> (\<forall>b \<in> set (buckets d). bk_key b \<noteq> key)"
  by (simp add: find_bucket_def find_unique_None)

lemma find_bucket_eq:
  "buckets_unique d \<Longrightarrow> b \<in> set (buckets d) \<Longrightarrow> bk_key b = key \<Longrightarrow> find_bucket key d = Some b"
  using find_unique_col [of "\<lambda>b. Some (bk_key b)" "buckets d" b key]
  by (simp add: buckets_unique_def find_bucket_def)

lemma lock_bucket_row_result:
  assumes "buckets_unique d"
  shows "\<exists>d'. lock_bucket_row 2 key limit now d = (Inr (bucket_of key limit now d), d')
    \<and> buckets_unique d' \<and> find_bucket key d' = Some (bucket_of key limit now d)
    \<and> (\<forall>k. k \<noteq> key \<longrightarrow> find_bucket k d' = find_bucket k d)"
proof (cases "find_bucket key d")
  case (Some b)
  then show ?thesis using assms
    by (auto simp: numeral_2_eq_2 bnd_def gets_def ret_def bucket_of_def)
next
  case None
  let ?b = "\<lparr>bk_key = key, bk_tokens = of_int limit, bk_refill = now\<rparr>"
  let ?d = "d\<lparr>buckets := buckets d @ [?b]\<rparr>"
  have "\<forall>x \<in> set (buckets d). bucket_viol ?b x = None"
    using None by (auto simp: find_bucket_def find_unique_None bucket_viol_def)
  then have ins: "insert_unique bucket_viol ?b (buckets d) = Inr (buckets d @ [?b])"
    by (simp add: insert_unique_Inr)
  have u: "buckets_unique ?d"
    using bucket_keys.insert_keeps_unique [OF ins] assms by (simp add: buckets_unique_def)
  have f: "find_bucket key ?d = Some ?b" by (rule find_bucket_eq [OF u]) simp_all
  have o: "find_bucket k ?d = find_bucket k d" if "k \<noteq> key" for k
  proof (cases "find_bucket k d")
    case None
    then have "find_bucket k ?d = None" using that by (auto simp: find_bucket_None)
    then show ?thesis using None by simp
  next
    case (Some c)
    then show ?thesis using find_bucket_Some [OF Some] find_bucket_eq [OF u, of c k] by simp
  qed
  show ?thesis using None ins u f o
    by (auto simp: numeral_2_eq_2 bnd_def gets_def ret_def bucket_of_def create_bucket_def try_catch_def writes_def)
qed

lemma update_bucket_result:
  assumes u: "buckets_unique d" and b: "find_bucket key d = Some b"
  shows "\<exists>d'. update_bucket key t now d = Inr d' \<and> buckets_unique d'
    \<and> find_bucket key d' = Some (b\<lparr>bk_tokens := t, bk_refill := now\<rparr>)
    \<and> (\<forall>k. k \<noteq> key \<longrightarrow> find_bucket k d' = find_bucket k d)"
proof -
  let ?g = "\<lambda>b. b\<lparr>bk_tokens := t, bk_refill := now\<rparr>"
  let ?m = "\<lambda>x. if bk_key x = key then ?g x else x"
  let ?d = "d\<lparr>buckets := map ?m (buckets d)\<rparr>"
  note b' = find_bucket_Some [OF b]
  have "update_unique bucket_viol (\<lambda>b. bk_key b = key) ?g (buckets d) = Inr (map ?m (buckets d))"
    using b b' unfolding update_unique_Inr find_bucket_def
    by (auto simp: bucket_viol_def)
  then have upd: "update_bucket key t now d = Inr ?d" by (simp add: update_bucket_def)
  have ud: "buckets_unique ?d"
    using u col_unique_map [of "buckets d" "\<lambda>b. Some (bk_key b)" ?m] by (simp add: buckets_unique_def)
  have mem: "?m x \<in> set (buckets ?d)" if "x \<in> set (buckets d)" for x
  proof -
    have "?m x \<in> set (map ?m (buckets d))" unfolding list.set_map using that by (rule imageI)
    then show ?thesis by simp
  qed
  have "find_bucket key ?d = Some (?g b)"
    using find_bucket_eq [OF ud mem [of b], of key] b' by simp
  moreover have "find_bucket k ?d = find_bucket k d" if "k \<noteq> key" for k
  proof (cases "find_bucket k d")
    case None
    then have "find_bucket k ?d = None" using that by (auto simp: find_bucket_None)
    then show ?thesis using None by simp
  next
    case (Some c)
    then show ?thesis
      using find_bucket_Some [OF Some] find_bucket_eq [OF ud mem [of c], of k] that by simp
  qed
  ultimately show ?thesis using upd ud by blast
qed

text \<open>
  The bucket after a charge of \<open>n\<close> tokens: refilled, and charged when it holds enough.
\<close>

definition charged :: "gateway_config \<Rightarrow> int \<Rightarrow> int \<Rightarrow> date \<Rightarrow> bucket_row \<Rightarrow> bool \<times> bucket_row" where
  "charged cfg n limit now b =
     (let refilled = refill_tokens (bk_tokens b) (bk_refill b) now limit (refill_rate cfg limit)
      in if refilled < of_int n then (False, b\<lparr>bk_tokens := refilled, bk_refill := now\<rparr>)
         else (True, b\<lparr>bk_tokens := dbl (refilled - of_int n), bk_refill := now\<rparr>))"

lemma consume_body_result:
  assumes "buckets_unique d"
  shows "\<exists>r d'. consume_body cfg key n limit now d = (Inr r, d') \<and> buckets_unique d'
    \<and> bd_allowed r = fst (charged cfg n limit now (bucket_of key limit now d))
    \<and> bd_limit r = Some limit
    \<and> (\<forall>s. bd_retry_after r = Some s \<longrightarrow> 1 \<le> s) \<and> (bd_allowed r \<longleftrightarrow> bd_retry_after r = None)
    \<and> bd_remaining r = Some (max 0 \<lfloor>bk_tokens (snd (charged cfg n limit now (bucket_of key limit now d)))\<rfloor>)
    \<and> find_bucket key d' = Some (snd (charged cfg n limit now (bucket_of key limit now d)))
    \<and> (\<forall>k. k \<noteq> key \<longrightarrow> find_bucket k d' = find_bucket k d)"
proof -
  let ?b = "bucket_of key limit now d"
  obtain d1 where l: "lock_bucket_row 2 key limit now d = (Inr ?b, d1)" "buckets_unique d1"
      "find_bucket key d1 = Some ?b" "\<forall>k. k \<noteq> key \<longrightarrow> find_bucket k d1 = find_bucket k d"
    using lock_bucket_row_result [OF assms] by blast
  define t where "t = refill_tokens (bk_tokens ?b) (bk_refill ?b) now limit (refill_rate cfg limit)"
  define v where "v = (if t < of_int n then t else dbl (t - of_int n))"
  obtain d2 where u: "update_bucket key v now d1 = Inr d2" "buckets_unique d2"
      "find_bucket key d2 = Some (?b\<lparr>bk_tokens := v, bk_refill := now\<rparr>)"
      "\<forall>k. k \<noteq> key \<longrightarrow> find_bucket k d2 = find_bucket k d1"
    using update_bucket_result [OF l(2,3)] by blast
  show ?thesis
  proof (cases "t < of_int n")
    case True
    then show ?thesis using l u
      by (simp add: consume_body_def charged_def Let_def bnd_def writes_def ret_def v_def t_def)
  next
    case False
    then show ?thesis using l u
      by (simp add: consume_body_def charged_def Let_def bnd_def writes_def ret_def v_def t_def)
  qed
qed

section \<open>Bounds on the tokens\<close>

lemma refill_rate_nonneg: "0 \<le> limit \<Longrightarrow> 0 < burst_window cfg \<Longrightarrow> 0 \<le> refill_rate cfg limit"
  unfolding refill_rate_def by (intro dbl_nonneg) simp

lemma is_double_int: "\<bar>n\<bar> \<le> 2 ^ 53 \<Longrightarrow> is_double (of_int n)"
  by (simp add: is_double_def dbl_of_int)

lemma is_double_min: "is_double a \<Longrightarrow> is_double b \<Longrightarrow> is_double (min a b)"
  by (simp add: min_def)

lemma refill_bounds:
  assumes "0 \<le> tokens" "0 \<le> limit" "limit \<le> 2 ^ 53" "0 \<le> rate"
  shows "0 \<le> refill_tokens tokens last_refill now limit rate"
    "refill_tokens tokens last_refill now limit rate \<le> of_int limit"
    "is_double (refill_tokens tokens last_refill now limit rate)"
proof -
  have "0 \<le> dbl (tokens + dbl (dbl (of_int (max 0 (now - last_refill)) / 1000) * rate))"
    using assms by (intro dbl_nonneg add_nonneg_nonneg mult_nonneg_nonneg) simp_all
  then show "0 \<le> refill_tokens tokens last_refill now limit rate"
    using assms(2) by (simp add: refill_tokens_def Let_def)
  show "refill_tokens tokens last_refill now limit rate \<le> of_int limit"
    by (simp add: refill_tokens_def Let_def)
  show "is_double (refill_tokens tokens last_refill now limit rate)"
    unfolding refill_tokens_def Let_def using assms by (intro is_double_min is_double_int) simp_all
qed

lemma dbl_upper:
  assumes "0 \<le> x"
  shows "dbl x \<le> x * (1 + 1 / 2 ^ 53)"
proof (cases "x = 0")
  case False
  then have "dbl x - x \<le> x / 2 ^ 53" using assms by (rule_tac abs_le_D1 [OF dbl_error]) simp
  moreover have "x * (1 + 1 / 2 ^ 53) = x + x / 2 ^ 53"
    by (simp only: distrib_left mult_1_right times_divide_eq_right)
  ultimately show ?thesis by linarith
qed simp

text \<open>Rounding lets a refill exceed the exact one by at most \<open>limit / 2 ^ 51\<close>.\<close>

lemma refill_upper:
  assumes t: "0 \<le> tokens" and l: "0 \<le> limit" and r: "0 \<le> rate"
  shows "refill_tokens tokens last_refill now limit rate
    \<le> tokens + of_int (max 0 (now - last_refill)) / 1000 * rate + of_int limit / 2 ^ 51"
proof -
  define e where "e = (of_int (max 0 (now - last_refill)) / 1000 :: rat)"
  define u where "u = (1 / 2 ^ 53 :: rat)"
  have e0: "0 \<le> e" unfolding e_def by (intro divide_nonneg_nonneg) simp_all
  have u0: "0 \<le> u" "u \<le> 1 / 4" by (simp_all add: u_def)
  define E where "E = e * rate"
  have E0: "0 \<le> E" using e0 r by (simp add: E_def)
  define z where "z = dbl (tokens + dbl (dbl e * rate))"
  have de: "0 \<le> dbl e" "dbl e \<le> e * (1 + u)"
    using dbl_upper [OF e0] dbl_nonneg [OF e0] unfolding u_def by blast+
  have m0: "0 \<le> dbl e * rate" using de r by simp
  have "dbl e * rate \<le> e * (1 + u) * rate" using de(2) r by (rule mult_right_mono)
  also have "\<dots> = E + E * u" by (simp add: E_def algebra_simps)
  finally have m1: "dbl e * rate \<le> E + E * u" .
  have "dbl (dbl e * rate) \<le> (dbl e * rate) * (1 + u)"
    using dbl_upper [OF m0] unfolding u_def .
  also have "\<dots> \<le> (E + E * u) * (1 + u)" using m1 u0 by (intro mult_right_mono) simp_all
  finally have m2: "dbl (dbl e * rate) \<le> (E + E * u) * (1 + u)" .
  have s0: "0 \<le> tokens + dbl (dbl e * rate)" using t dbl_nonneg [OF m0] by simp
  have "z \<le> (tokens + dbl (dbl e * rate)) * (1 + u)"
    using dbl_upper [OF s0] unfolding u_def z_def .
  also have "\<dots> \<le> (tokens + (E + E * u) * (1 + u)) * (1 + u)"
    using m2 u0 by (intro mult_right_mono add_left_mono) simp_all
  finally have z1: "z \<le> (tokens + (E + E * u) * (1 + u)) * (1 + u)" .
  have res: "refill_tokens tokens last_refill now limit rate = min (of_int limit) z"
    by (simp add: refill_tokens_def Let_def z_def e_def)
  have goal: "min (of_int limit) z \<le> tokens + E + 4 * u * of_int limit"
  proof (cases "of_int limit \<le> tokens + E")
    case True
    have "0 \<le> 4 * u * (of_int limit :: rat)" using u0 l by simp
    then show ?thesis using True by linarith
  next
    case False
    have c: "3 * u + 3 * (u * u) + u * u * u \<le> 4 * u" by (simp add: u_def)
    have "(tokens + (E + E * u) * (1 + u)) * (1 + u)
        = tokens + E + (tokens * u + E * (3 * u + 3 * (u * u) + u * u * u))" by (simp add: algebra_simps)
    also have "\<dots> \<le> tokens + E + (tokens * (4 * u) + E * (4 * u))"
      using c t E0 u0 by (intro add_left_mono add_mono mult_left_mono) simp_all
    also have "\<dots> = tokens + E + 4 * u * (tokens + E)" by (simp add: algebra_simps)
    also have "\<dots> \<le> tokens + E + 4 * u * of_int limit"
      using False u0 by (intro add_left_mono mult_left_mono) simp_all
    finally show ?thesis using z1 by linarith
  qed
  have "4 * u * of_int limit = of_int limit / 2 ^ 51" by (simp add: u_def)
  then show ?thesis using goal unfolding res E_def e_def by argo
qed

text \<open>The accounting of one charge.\<close>

lemma charged_account:
  assumes b: "0 \<le> bk_tokens b" and n: "0 \<le> n" and l: "0 < limit" "limit \<le> 2 ^ 53"
    and w: "0 < burst_window cfg"
    and c: "charged cfg n limit now b = (ok, b')"
  shows "0 \<le> bk_tokens b' \<and> bk_tokens b' \<le> of_int limit \<and> bk_refill b' = now \<and> bk_key b' = bk_key b
    \<and> bk_tokens b' + (if ok then of_int n else 0)
        = refill_tokens (bk_tokens b) (bk_refill b) now limit (refill_rate cfg limit)"
proof -
  let ?t = "refill_tokens (bk_tokens b) (bk_refill b) now limit (refill_rate cfg limit)"
  have r0: "0 \<le> refill_rate cfg limit" using refill_rate_nonneg [OF _ w] l by simp
  have t: "0 \<le> ?t" "?t \<le> of_int limit" "is_double ?t"
    using refill_bounds [OF b _ l(2) r0] l by simp_all
  have t53: "?t \<le> 2 ^ 53"
    using t(2) l(2) by (metis of_int_le_iff of_int_numeral of_int_power order_trans)
  show ?thesis
  proof (cases "?t < of_int n")
    case True
    then show ?thesis using c t by (auto simp: charged_def Let_def)
  next
    case False
    have "dbl (?t - of_int n) = ?t - of_int n"
      using dbl_sub_int_exact [OF t(3) n _ t53] False by simp
    moreover have "(0 :: rat) \<le> of_int n" using n by simp
    ultimately show ?thesis using c t False by (auto simp: charged_def Let_def)
  qed
qed

section \<open>The retry loop\<close>

lemma consume_attempt:
  assumes "consume_body cfg key n limit now d = (Inr r, d')"
  shows "tx (bnd (consume_body cfg key n limit now) (\<lambda>r. bnd (may_fail f) (\<lambda>_. ret r))) d
    = (case f of None \<Rightarrow> (Inr r, d') | Some e \<Rightarrow> (Inl e, d))"
  using assms by (simp add: tx_def bnd_def may_fail_def ret_def raise_def split: option.splits)

text \<open>The loop commits the first attempt that is not aborted, or gives up with the error of the
  attempt it did not retry, having written nothing.\<close>

lemma consume_loop_cases:
  assumes "consume_body cfg key n limit now d = (Inr r, d1)"
    and run: "consume_loop max_transaction_retries cfg key n limit now faults d = (res, d')"
  shows "(res = Inr r \<and> d' = d1 \<and> (\<exists>i < 3. faults i = None
        \<and> (\<forall>j < i. \<exists>e. faults j = Some e \<and> is_retryable_bucket_error e)))
    \<or> (\<exists>e i. res = Inl e \<and> d' = d \<and> i < 3 \<and> faults i = Some e
        \<and> (\<forall>j < i. \<exists>e. faults j = Some e \<and> is_retryable_bucket_error e)
        \<and> (is_retryable_bucket_error e \<longrightarrow> i = 2))"
proof -
  note step = consume_attempt [OF assms(1)]
  have loop: "consume_loop (Suc k) cfg key n limit now faults d =
      (case faults (3 - Suc k) of
         None \<Rightarrow> (Inr r, d1)
       | Some e \<Rightarrow> if is_retryable_bucket_error e \<and> 3 - Suc k < 2
                  then consume_loop k cfg key n limit now faults d else (Inl e, d))" for k
    by (simp add: step try_catch_def raise_def max_transaction_retries_def split: option.splits)
  have l0: "consume_loop max_transaction_retries cfg key n limit now faults d =
      (case faults 0 of None \<Rightarrow> (Inr r, d1)
       | Some e \<Rightarrow> if is_retryable_bucket_error e
          then (case faults 1 of None \<Rightarrow> (Inr r, d1)
             | Some e \<Rightarrow> if is_retryable_bucket_error e
                then (case faults 2 of None \<Rightarrow> (Inr r, d1) | Some e \<Rightarrow> (Inl e, d)) else (Inl e, d))
          else (Inl e, d))"
    unfolding max_transaction_retries_def numeral_3_eq_3 loop [unfolded numeral_3_eq_3]
    by (simp add: numeral_2_eq_2 numeral_3_eq_3 split: option.splits)
  show ?thesis
  proof (cases "faults 0")
    case None
    then show ?thesis using run l0 by (auto intro: exI [of _ 0])
  next
    case f0: (Some e0)
    show ?thesis
    proof (cases "is_retryable_bucket_error e0")
      case False
      then show ?thesis using run l0 f0 by (auto intro!: exI [of _ 0])
    next
      case r0: True
      show ?thesis
      proof (cases "faults 1")
        case None
        then show ?thesis using run l0 f0 r0 by (auto intro!: exI [of _ 1])
      next
        case f1: (Some e1)
        show ?thesis
        proof (cases "is_retryable_bucket_error e1")
          case False
          then show ?thesis using run l0 f0 r0 f1 by (auto intro!: exI [of _ 1])
        next
          case True
          have two: "\<forall>j < 2. \<exists>e. faults j = Some e \<and> is_retryable_bucket_error e"
            using f0 r0 f1 True by (auto simp: less_2_cases_iff)
          show ?thesis
          proof (cases "faults 2")
            case None
            then have "res = Inr r \<and> d' = d1" using run l0 f0 r0 f1 True by simp
            then show ?thesis using None two by (intro disjI1 conjI exI [of _ 2]) simp_all
          next
            case (Some e2)
            then have "res = Inl e2 \<and> d' = d" using run l0 f0 r0 f1 True by simp
            then show ?thesis using Some two by (intro disjI2 exI [of _ e2] exI [of _ 2]) simp_all
          qed
        qed
      qed
    qed
  qed
qed

text \<open>What a call does to the buckets.\<close>

lemma check_and_consume_effect:
  assumes u: "buckets_unique d" and limit: "resolve_burst_limit cfg rpm = Some limit" "0 < limit"
    and run: "check_and_consume cfg key n rpm now faults d = (res, d')"
  shows "buckets_unique d' \<and> (\<forall>k. k \<noteq> key \<longrightarrow> find_bucket k d' = find_bucket k d)
    \<and> (d' = d \<and> (\<forall>r. res = Inr r \<longrightarrow> \<not> bd_allowed r)
       \<or> (\<exists>r. res = Inr r \<and> n \<le> limit \<and> charged cfg n limit now (bucket_of key limit now d) = (bd_allowed r, the (find_bucket key d'))
            \<and> find_bucket key d' \<noteq> None))"
proof (cases "limit < n")
  case True
  then have "d' = d \<and> (\<forall>r. res = Inr r \<longrightarrow> \<not> bd_allowed r)"
    using run limit by (auto simp: check_and_consume_def ret_def)
  then show ?thesis using u by simp
next
  case False
  then have loop: "consume_loop max_transaction_retries cfg key n limit now faults d = (res, d')"
    using run limit by (simp add: check_and_consume_def)
  obtain r d1 where body: "consume_body cfg key n limit now d = (Inr r, d1)" "buckets_unique d1"
      "bd_allowed r = fst (charged cfg n limit now (bucket_of key limit now d))"
      "find_bucket key d1 = Some (snd (charged cfg n limit now (bucket_of key limit now d)))"
      "\<forall>k. k \<noteq> key \<longrightarrow> find_bucket k d1 = find_bucket k d"
    using consume_body_result [OF u, of cfg key n limit now] by blast
  from consume_loop_cases [OF body(1) loop] show ?thesis
  proof (elim disjE exE conjE)
    assume "res = Inr r" "d' = d1"
    then show ?thesis using body False by auto
  next
    fix e assume "res = Inl e" "d' = d"
    then show ?thesis using u by simp
  qed
qed

section \<open>Runs of calls\<close>

type_synonym burst_call = "string \<times> int \<times> int option \<times> date \<times> (nat \<Rightarrow> exn option)"

fun allowed_requests :: "gateway_config \<Rightarrow> string \<Rightarrow> burst_call list \<Rightarrow> db \<Rightarrow> int" where
  "allowed_requests cfg key [] d = 0"
| "allowed_requests cfg key ((k, n, rpm, now, faults) # cs) d =
     (case check_and_consume cfg k n rpm now faults d of
        (Inl e, d') \<Rightarrow> allowed_requests cfg key cs d'
      | (Inr r, d') \<Rightarrow> (if k = key \<and> bd_allowed r then n else 0) + allowed_requests cfg key cs d')"

definition calls_on :: "string \<Rightarrow> burst_call list \<Rightarrow> burst_call list" where
  "calls_on key cs = filter (\<lambda>(k, _). k = key) cs"

definition call_time :: "burst_call \<Rightarrow> date" where
  "call_time = (\<lambda>(k, n, rpm, now, faults). now)"

text \<open>The calls on a key all see the same positive limit, ask for no negative count, and fall in
  \<open>[a, b]\<close>; every other call has some positive limit.\<close>

definition call_ok :: "gateway_config \<Rightarrow> string \<Rightarrow> int \<Rightarrow> date \<Rightarrow> date \<Rightarrow> burst_call \<Rightarrow> bool" where
  "call_ok cfg key limit a b = (\<lambda>(k, n, rpm, now, faults).
     (case resolve_burst_limit cfg rpm of None \<Rightarrow> False | Some l \<Rightarrow> 0 < l)
     \<and> (k = key \<longrightarrow> resolve_burst_limit cfg rpm = Some limit \<and> 0 \<le> n \<and> a \<le> now \<and> now \<le> b))"

lemma calls_on_Cons:
  "calls_on key ((k, c) # cs) = (if k = key then (k, c) # calls_on key cs else calls_on key cs)"
  by (simp add: calls_on_def)

text \<open>From a bucket with \<open>tokens\<close>, last refilled at \<open>last\<close>: no more than the tokens, the refill
  and the rounding of each call.\<close>

lemma allowed_from_bucket:
  assumes "buckets_unique d" "find_bucket key d = Some bk" "0 \<le> bk_tokens bk" "bk_refill bk \<le> b"
    and l: "0 < limit" "limit \<le> 2 ^ 53" and w: "0 < burst_window cfg"
    and "list_all (call_ok cfg key limit (bk_refill bk) b) cs"
    and "sorted (map call_time (calls_on key cs))"
  shows "of_int (allowed_requests cfg key cs d)
    \<le> bk_tokens bk + of_int (b - bk_refill bk) / 1000 * refill_rate cfg limit
       + of_int (int (length (calls_on key cs))) * (of_int limit / 2 ^ 51)"
  using assms(1-4) assms(8-)
proof (induction cs arbitrary: d bk)
  case Nil
  have "0 \<le> of_int (b - bk_refill bk) / 1000 * refill_rate cfg limit"
    using refill_rate_nonneg [OF _ w, of limit] l Nil(4) by (intro mult_nonneg_nonneg divide_nonneg_nonneg) simp_all
  then show ?case using Nil(3) by (simp add: calls_on_def)
next
  case (Cons c cs)
  obtain k n rpm now faults where c: "c = (k, n, rpm, now, faults)" by (cases c)
  obtain res d1 where run: "check_and_consume cfg k n rpm now faults d = (res, d1)"
    by (cases "check_and_consume cfg k n rpm now faults d")
  obtain lk where lk: "resolve_burst_limit cfg rpm = Some lk" "0 < lk" "k = key \<longrightarrow> lk = limit"
    using Cons.prems(5) by (auto simp: c call_ok_def split: option.splits)
  note eff = check_and_consume_effect [OF Cons.prems(1) lk(1,2) run]
  have r0: "0 \<le> refill_rate cfg limit" using refill_rate_nonneg [OF _ w] l by simp
  have d0: "(0 :: rat) \<le> of_int limit / 2 ^ 51" using l by simp
  have rest: "list_all (call_ok cfg key limit (bk_refill bk) b) cs" using Cons.prems(5) by simp
  show ?case
  proof (cases "k = key")
    case False
    then have "find_bucket key d1 = Some bk" using eff Cons.prems(2) by metis
    moreover have "calls_on key (c # cs) = calls_on key cs" using False by (simp add: c calls_on_Cons)
    moreover have "allowed_requests cfg key (c # cs) d = allowed_requests cfg key cs d1"
      using run False by (cases res) (simp_all add: c)
    ultimately show ?thesis using Cons.IH [of d1 bk] eff Cons.prems rest by simp
  next
    case True
    have srt: "sorted (map call_time (calls_on key cs))"
      and ge: "\<forall>x \<in> set (calls_on key cs). now \<le> call_time x"
      using Cons.prems(6) True by (auto simp: c calls_on_Cons call_time_def)
    have len: "of_int (int (length (calls_on key (c # cs)))) * (of_int limit / 2 ^ 51 :: rat)
        = of_int limit / 2 ^ 51 + of_int (int (length (calls_on key cs))) * (of_int limit / 2 ^ 51)"
      using True by (simp add: c calls_on_Cons distrib_right)
    have here: "0 \<le> n" "bk_refill bk \<le> now" "now \<le> b" "lk = limit"
      using Cons.prems(5) True lk by (auto simp: c call_ok_def)
    consider (same) "d1 = d" "\<forall>r. res = Inr r \<longrightarrow> \<not> bd_allowed r"
      | (charge) r bk1 where "res = Inr r" "charged cfg n limit now bk = (bd_allowed r, bk1)"
        "find_bucket key d1 = Some bk1"
      using eff Cons.prems(2) True here(4) by (auto simp: bucket_of_def)
    then show ?thesis
    proof cases
      case same
      then have "allowed_requests cfg key (c # cs) d = allowed_requests cfg key cs d"
        using run by (cases res) (simp_all add: c)
      then show ?thesis using Cons.IH [OF Cons.prems(1-4) rest srt] d0 len by linarith
    next
      case charge
      note acc = charged_account [OF Cons.prems(3) here(1) l w charge(2)]
      have late: "list_all (call_ok cfg key limit (bk_refill bk1) b) cs"
        unfolding list_all_iff
      proof
        fix x assume x: "x \<in> set cs"
        obtain kx nx rx tx fx where xe: "x = (kx, nx, rx, tx, fx)" by (cases x)
        have "kx = key \<Longrightarrow> now \<le> tx" using ge x by (auto simp: calls_on_def xe call_time_def)
        moreover have "call_ok cfg key limit (bk_refill bk) b x" using rest x by (simp add: list_all_iff)
        ultimately show "call_ok cfg key limit (bk_refill bk1) b x" using acc by (auto simp: call_ok_def xe)
      qed
      have IH: "of_int (allowed_requests cfg key cs d1) \<le> bk_tokens bk1
          + of_int (b - now) / 1000 * refill_rate cfg limit
          + of_int (int (length (calls_on key cs))) * (of_int limit / 2 ^ 51)"
        using Cons.IH [of d1 bk1] eff charge(3) acc here(3) late srt by auto
      have up: "bk_tokens bk1 + (if bd_allowed r then of_int n else 0)
          \<le> bk_tokens bk + of_int (now - bk_refill bk) / 1000 * refill_rate cfg limit + of_int limit / 2 ^ 51"
        using acc refill_upper [OF Cons.prems(3) _ r0, of limit "bk_refill bk" now] l here(2) by simp
      have split: "of_int (b - bk_refill bk) / 1000 * refill_rate cfg limit
          = of_int (now - bk_refill bk) / 1000 * refill_rate cfg limit
            + of_int (b - now) / 1000 * refill_rate cfg limit"
      proof -
        have "of_int (b - bk_refill bk) = of_int (now - bk_refill bk) + (of_int (b - now) :: rat)" by simp
        then show ?thesis by (simp only: add_divide_distrib distrib_right)
      qed
      have "of_int (allowed_requests cfg key (c # cs) d)
          = (if bd_allowed r then of_int n else (0 :: rat)) + of_int (allowed_requests cfg key cs d1)"
        using run charge(1) True by (simp add: c)
      then show ?thesis using IH up split len by linarith
    qed
  qed
qed

text \<open>The first charge starts from at most a full bucket.\<close>

lemma allowed_from_anything:
  assumes "buckets_unique d" "\<forall>bk. find_bucket key d = Some bk \<longrightarrow> 0 \<le> bk_tokens bk"
    and l: "0 < limit" "limit \<le> 2 ^ 53" and w: "0 < burst_window cfg" and ab: "a \<le> b"
    and "list_all (call_ok cfg key limit a b) cs"
    and "sorted (map call_time (calls_on key cs))"
  shows "of_int (allowed_requests cfg key cs d)
    \<le> of_int limit + of_int (b - a) / 1000 * refill_rate cfg limit
       + of_int (int (length (calls_on key cs))) * (of_int limit / 2 ^ 51)"
  using assms(1,2) assms(7-)
proof (induction cs arbitrary: d)
  case Nil
  have "0 \<le> of_int (b - a) / 1000 * refill_rate cfg limit"
    using refill_rate_nonneg [OF _ w, of limit] l ab by (intro mult_nonneg_nonneg divide_nonneg_nonneg) simp_all
  then show ?case using l by (simp add: calls_on_def)
next
  case (Cons c cs)
  obtain k n rpm now faults where c: "c = (k, n, rpm, now, faults)" by (cases c)
  obtain res d1 where run: "check_and_consume cfg k n rpm now faults d = (res, d1)"
    by (cases "check_and_consume cfg k n rpm now faults d")
  obtain lk where lk: "resolve_burst_limit cfg rpm = Some lk" "0 < lk" "k = key \<longrightarrow> lk = limit"
    using Cons.prems(3) by (auto simp: c call_ok_def split: option.splits)
  note eff = check_and_consume_effect [OF Cons.prems(1) lk(1,2) run]
  have r0: "0 \<le> refill_rate cfg limit" using refill_rate_nonneg [OF _ w] l by simp
  have d0: "(0 :: rat) \<le> of_int limit / 2 ^ 51" using l by simp
  have rest: "list_all (call_ok cfg key limit a b) cs" using Cons.prems(3) by simp
  show ?case
  proof (cases "k = key")
    case False
    then have "find_bucket key d1 = find_bucket key d" using eff by metis
    moreover have "calls_on key (c # cs) = calls_on key cs" using False by (simp add: c calls_on_Cons)
    moreover have "allowed_requests cfg key (c # cs) d = allowed_requests cfg key cs d1"
      using run False by (cases res) (simp_all add: c)
    ultimately show ?thesis using Cons.IH [of d1] eff Cons.prems rest by simp
  next
    case True
    have srt: "sorted (map call_time (calls_on key cs))"
      and ge: "\<forall>x \<in> set (calls_on key cs). now \<le> call_time x"
      using Cons.prems(4) True by (auto simp: c calls_on_Cons call_time_def)
    have len: "of_int (int (length (calls_on key (c # cs)))) * (of_int limit / 2 ^ 51 :: rat)
        = of_int limit / 2 ^ 51 + of_int (int (length (calls_on key cs))) * (of_int limit / 2 ^ 51)"
      using True by (simp add: c calls_on_Cons distrib_right)
    have here: "0 \<le> n" "a \<le> now" "now \<le> b" "lk = limit"
      using Cons.prems(3) True lk by (auto simp: c call_ok_def)
    let ?bk = "bucket_of key limit now d"
    have bk0: "0 \<le> bk_tokens ?bk"
      using Cons.prems(2) l by (auto simp: bucket_of_def split: option.splits)
    consider (same) "d1 = d" "\<forall>r. res = Inr r \<longrightarrow> \<not> bd_allowed r"
      | (charge) r bk1 where "res = Inr r" "charged cfg n limit now ?bk = (bd_allowed r, bk1)"
        "find_bucket key d1 = Some bk1"
      using eff True here(4) by auto
    then show ?thesis
    proof cases
      case same
      then have "allowed_requests cfg key (c # cs) d = allowed_requests cfg key cs d"
        using run by (cases res) (simp_all add: c)
      then show ?thesis using Cons.IH [OF Cons.prems(1,2) rest srt] d0 len by linarith
    next
      case charge
      note acc = charged_account [OF bk0 here(1) l w charge(2)]
      have late: "list_all (call_ok cfg key limit (bk_refill bk1) b) cs"
        unfolding list_all_iff
      proof
        fix x assume x: "x \<in> set cs"
        obtain kx nx rx tx fx where xe: "x = (kx, nx, rx, tx, fx)" by (cases x)
        have "kx = key \<Longrightarrow> now \<le> tx" using ge x by (auto simp: calls_on_def xe call_time_def)
        moreover have "call_ok cfg key limit a b x" using rest x by (simp add: list_all_iff)
        ultimately show "call_ok cfg key limit (bk_refill bk1) b x" using acc by (auto simp: call_ok_def xe)
      qed
      have "of_int (allowed_requests cfg key cs d1) \<le> bk_tokens bk1
          + of_int (b - bk_refill bk1) / 1000 * refill_rate cfg limit
          + of_int (int (length (calls_on key cs))) * (of_int limit / 2 ^ 51)"
        by (rule allowed_from_bucket [OF _ charge(3) _ _ l w late srt]) (use eff acc here(3) in auto)
      moreover have "bk_tokens bk1 + (if bd_allowed r then of_int n else 0) \<le> of_int limit"
        using acc refill_bounds(2) [OF bk0 _ l(2) r0] l by simp
      moreover have "of_int (b - bk_refill bk1) / 1000 * refill_rate cfg limit
          \<le> of_int (b - a) / 1000 * refill_rate cfg limit"
        using acc here(2) r0 by (intro mult_right_mono divide_right_mono) simp_all
      moreover have "of_int (allowed_requests cfg key (c # cs) d)
          = (if bd_allowed r then of_int n else (0 :: rat)) + of_int (allowed_requests cfg key cs d1)"
        using run charge(1) True by (simp add: c)
      ultimately show ?thesis using len d0 by linarith
    qed
  qed
qed

section \<open>Properties\<close>

text \<open>C11: The burst limit holds over time: whatever calls on whatever keys run in between, and
  whichever attempts the database aborts, the requests allowed on a key by calls with
  non-decreasing clocks within an interval are at most one full bucket plus the refill of the
  interval at \<open>limit / window\<close> per second (plus a rounding error of at most \<open>limit / 2 ^ 51\<close>
  per call).\<close>

theorem burst_limit_holds:
  assumes "buckets_unique d" "\<forall>bk \<in> set (buckets d). 0 \<le> bk_tokens bk"
    and "0 < limit" "limit \<le> 2 ^ 53" "0 < burst_window cfg" "a \<le> b"
    and "list_all (call_ok cfg key limit a b) calls"
    and "sorted (map call_time (calls_on key calls))"
  shows "of_int (allowed_requests cfg key calls d)
    \<le> of_int limit + of_int (b - a) / 1000 * refill_rate cfg limit
       + of_int (int (length (calls_on key calls))) * (of_int limit / 2 ^ 51)"
  by (rule allowed_from_anything [OF assms(1) _ assms(3-)]) (use assms(2) find_bucket_Some in blast)

definition sample_gateway_config :: gateway_config where
  "sample_gateway_config = \<lparr>upstream_timeout = 10000, burst_enabled = True, burst_window = 10,
     burst_multiplier = 2, burst_min = 5, burst_max = 1000, request_limit = 1048576,
     response_limit = 5242880\<rparr>"

lemmas burst_eval = resolve_burst_limit_def check_and_consume_def consume_body_def refill_rate_def
  refill_tokens_def find_bucket_def find_unique_def create_bucket_def update_bucket_def insert_unique_def
  update_unique_def bucket_viol_def List.map_filter_simps max_transaction_retries_def try_catch_def tx_def bnd_def
  gets_def ret_def raise_def writes_def may_fail_def sample_gateway_config_def empty_db_def numeral_2_eq_2
  numeral_3_eq_3 is_retryable_bucket_error_def

lemma sample_burst_limit: "resolve_burst_limit sample_gateway_config (Some 60) = Some 20"
  by (simp add: burst_eval)

definition sample_calls :: "burst_call list" where
  "sample_calls = [(''k'', 15, Some 60, 1000, \<lambda>_. None), (''x'', 9, Some 60, 500, \<lambda>_. None),
     (''k'', 6, Some 60, 2000, \<lambda>_. None), (''k'', 6, Some 60, 3000, \<lambda>_. None)]"

theorem burst_limit_holds_witness:
  "of_int (allowed_requests sample_gateway_config ''k'' sample_calls empty_db)
     \<le> (20 :: rat) + 3 * refill_rate sample_gateway_config 20 + 3 * (20 / 2 ^ 51)
   \<and> allowed_requests sample_gateway_config ''k'' sample_calls empty_db = 21"
proof (rule conjI)
  have "list_all (call_ok sample_gateway_config ''k'' 20 0 3000) sample_calls"
    by (simp add: sample_calls_def call_ok_def sample_burst_limit)
  moreover have "sorted (map call_time (calls_on ''k'' sample_calls))"
    by (simp add: sample_calls_def calls_on_def call_time_def)
  moreover have "length (calls_on ''k'' sample_calls) = 3" by (simp add: sample_calls_def calls_on_def)
  moreover have "buckets_unique empty_db" by (simp add: buckets_unique_def empty_db_def)
  ultimately show "of_int (allowed_requests sample_gateway_config ''k'' sample_calls empty_db)
     \<le> (20 :: rat) + 3 * refill_rate sample_gateway_config 20 + 3 * (20 / 2 ^ 51)"
    using burst_limit_holds [of empty_db 20 sample_gateway_config 0 3000 "''k''" sample_calls]
    by (simp add: sample_gateway_config_def empty_db_def)
  show "allowed_requests sample_gateway_config ''k'' sample_calls empty_db = 21"
    by (simp add: burst_eval sample_calls_def)
qed

text \<open>
  The clocks must not go back: a call with an earlier clock moves the bucket's refill time back,
  and the next call refills for the same interval again. Here 60 requests pass at two instants
  ten seconds apart with a limit of 20 per ten seconds, where clocks in order would allow 40.
\<close>

lemma burst_clock_skew_refills:
  "allowed_requests sample_gateway_config ''k'' [(''k'', 20, Some 60, 11000, \<lambda>_. None),
     (''k'', 20, Some 60, 1000, \<lambda>_. None), (''k'', 20, Some 60, 11000, \<lambda>_. None),
     (''k'', 20, Some 60, 1000, \<lambda>_. None), (''k'', 20, Some 60, 11000, \<lambda>_. None)] empty_db = 60"
  by (simp add: burst_eval)

text \<open>C29: A charge of the bucket is all or nothing and exact: a call within the limit either
  returns an answer, having stored a bucket refilled up to now (never above the limit, never
  negative) and reduced by exactly the count if the call is allowed, or fails having written
  nothing; it is refused exactly when the refilled tokens do not cover the count, with a
  wait of at least one second; it fails only on an error that is not a serialization failure or
  on a third serialization failure, and no other key's bucket is touched.\<close>

theorem burst_charge_exact:
  assumes "buckets_unique d" "\<forall>bk \<in> set (buckets d). 0 \<le> bk_tokens bk"
    and "resolve_burst_limit cfg rpm = Some limit" "0 < limit" "limit \<le> 2 ^ 53" "0 < burst_window cfg"
    and "0 \<le> n" "n \<le> limit"
    and "check_and_consume cfg key n rpm now faults d = (res, d')"
  shows "(\<forall>k. k \<noteq> key \<longrightarrow> find_bucket k d' = find_bucket k d) \<and> (case res of
      Inl e \<Rightarrow> d' = d \<and> (\<exists>i < 3. faults i = Some e \<and> (is_retryable_bucket_error e \<longrightarrow> i = 2))
    | Inr r \<Rightarrow> (\<exists>tokens bk. find_bucket key d' = Some bk \<and> bk_refill bk = now
        \<and> tokens = refill_tokens (bk_tokens (bucket_of key limit now d)) (bk_refill (bucket_of key limit now d))
             now limit (refill_rate cfg limit)
        \<and> bd_allowed r = (of_int n \<le> tokens) \<and> 0 \<le> bk_tokens bk \<and> tokens \<le> of_int limit
        \<and> bk_tokens bk = (if bd_allowed r then tokens - of_int n else tokens)
        \<and> bd_remaining r = Some \<lfloor>bk_tokens bk\<rfloor>
        \<and> (case bd_retry_after r of None \<Rightarrow> bd_allowed r | Some s \<Rightarrow> \<not> bd_allowed r \<and> 1 \<le> s)))"
proof -
  let ?b = "bucket_of key limit now d"
  let ?t = "refill_tokens (bk_tokens ?b) (bk_refill ?b) now limit (refill_rate cfg limit)"
  have b0: "0 \<le> bk_tokens ?b"
    using assms(2,4) find_bucket_Some by (fastforce simp: bucket_of_def split: option.splits)
  obtain r d1 where body: "consume_body cfg key n limit now d = (Inr r, d1)"
      "bd_allowed r = fst (charged cfg n limit now ?b)"
      "\<forall>s. bd_retry_after r = Some s \<longrightarrow> 1 \<le> s" "bd_allowed r \<longleftrightarrow> bd_retry_after r = None"
      "bd_remaining r = Some (max 0 \<lfloor>bk_tokens (snd (charged cfg n limit now ?b))\<rfloor>)"
      "find_bucket key d1 = Some (snd (charged cfg n limit now ?b))"
      "\<forall>k. k \<noteq> key \<longrightarrow> find_bucket k d1 = find_bucket k d"
    using consume_body_result [OF assms(1), of cfg key n limit now] by (elim exE conjE) (rule that)
  define bk where "bk = snd (charged cfg n limit now ?b)"
  have ch: "charged cfg n limit now ?b = (bd_allowed r, bk)" by (simp add: body(2) bk_def)
  note acc = charged_account [OF b0 assms(7,4,5,6) ch]
  have rt: "?t \<le> of_int limit"
    using refill_bounds(2) [OF b0 _ assms(5) refill_rate_nonneg [OF _ assms(6)]] assms(4) by simp
  have al: "bd_allowed r = (of_int n \<le> ?t)"
    unfolding body(2) by (simp add: charged_def Let_def not_less)
  have loop: "consume_loop max_transaction_retries cfg key n limit now faults d = (res, d')"
    using assms(3,4,8,9) by (simp add: check_and_consume_def)
  from consume_loop_cases [OF body(1) loop] show ?thesis
  proof (elim disjE exE conjE)
    assume res: "res = Inr r" "d' = d1"
    have "find_bucket key d' = Some bk" using body(6) res by (simp add: bk_def)
    moreover have "bk_tokens bk = (if bd_allowed r then ?t - of_int n else ?t)"
      using acc by (cases "bd_allowed r") simp_all
    moreover have "bd_remaining r = Some \<lfloor>bk_tokens bk\<rfloor>" using body(5) acc by (simp add: bk_def)
    moreover have "case bd_retry_after r of None \<Rightarrow> bd_allowed r | Some s \<Rightarrow> \<not> bd_allowed r \<and> 1 \<le> s"
      using body(3,4) by (auto split: option.splits)
    moreover have "\<forall>k. k \<noteq> key \<longrightarrow> find_bucket k d' = find_bucket k d" using body(7) res by simp
    moreover have "bk_refill bk = now" "0 \<le> bk_tokens bk" using acc by simp_all
    ultimately show ?thesis unfolding res(1) sum.case using rt al by blast
  next
    fix e i assume "res = Inl e" "d' = d" "i < 3" "faults i = Some e" "is_retryable_bucket_error e \<longrightarrow> i = 2"
    then show ?thesis by auto
  qed
qed

theorem burst_charge_exact_witness:
  "\<exists>r d'. check_and_consume sample_gateway_config ''k'' 15 (Some 60) 1000
       (\<lambda>i. if i < 2 then Some (PrismaError ''P2034'' [] ''conflict'') else None) empty_db = (Inr r, d')
     \<and> bd_allowed r \<and> find_bucket ''k'' d' \<noteq> None"
proof -
  let ?f = "\<lambda>i :: nat. if i < 2 then Some (PrismaError ''P2034'' [] ''conflict'') else None"
  let ?p = "check_and_consume sample_gateway_config ''k'' 15 (Some 60) 1000 ?f empty_db"
  have "case fst ?p of Inl e \<Rightarrow> False | Inr r \<Rightarrow> bd_allowed r" by (simp add: burst_eval)
  then obtain r d' where p: "?p = (Inr r, d')" "bd_allowed r" by (cases ?p) (auto split: sum.splits)
  have "buckets_unique empty_db" by (simp add: buckets_unique_def empty_db_def)
  from burst_charge_exact [OF this _ sample_burst_limit _ _ _ _ _ p(1)] p show ?thesis
    by (auto simp: sample_gateway_config_def empty_db_def)
qed

text \<open>The burst limit resolved for a plan: there is none exactly when the limiter is off or the
  plan has no positive rate limit; otherwise it lies between the configured minimum and maximum
  (the maximum wins if they cross) and is positive, so a call is never let through because the
  limit came out as zero.\<close>

theorem burst_limit_resolved:
  assumes "valid_gateway_env cfg"
  shows "(resolve_burst_limit cfg rpm = None \<longleftrightarrow> \<not> burst_enabled cfg \<or> (\<forall>r. rpm = Some r \<longrightarrow> r \<le> 0))
    \<and> (\<forall>l. resolve_burst_limit cfg rpm = Some l \<longrightarrow>
         0 < l \<and> l \<le> burst_max cfg \<and> min (burst_min cfg) (burst_max cfg) \<le> l)"
proof (intro conjI)
  have pos: "0 < burst_min cfg" "0 < burst_max cfg" using assms by (simp_all add: valid_gateway_env_def)
  show "resolve_burst_limit cfg rpm = None \<longleftrightarrow> \<not> burst_enabled cfg \<or> (\<forall>r. rpm = Some r \<longrightarrow> r \<le> 0)"
    by (auto simp: resolve_burst_limit_def Let_def split: option.splits)
  show "\<forall>l. resolve_burst_limit cfg rpm = Some l \<longrightarrow>
         0 < l \<and> l \<le> burst_max cfg \<and> min (burst_min cfg) (burst_max cfg) \<le> l"
    using pos by (auto simp: resolve_burst_limit_def Let_def split: option.splits if_splits)
qed

theorem burst_limit_resolved_witness:
  "resolve_burst_limit sample_gateway_config (Some 60) = Some 20 \<and> (20 :: int) \<le> burst_max sample_gateway_config"
proof -
  have "valid_gateway_env sample_gateway_config" by (simp add: valid_gateway_env_def sample_gateway_config_def)
  from burst_limit_resolved [OF this, of "Some 60"] show ?thesis by (simp add: sample_burst_limit)
qed

end
