(* ===== verification/BillingRows.thy ===== *)
theory BillingRows
  imports Schema
begin

text \<open>
  Subscriptions and invoices as stored: the writes the billing services make, with the checks
  of the database (32-bit columns, unique columns, the foreign key of an invoice), and the
  well-formedness \<open>billing_ok\<close> of the two tables, which every write keeps.
\<close>

section \<open>Writes\<close>

definition opt_int4_ok :: "int option \<Rightarrow> bool" where
  "opt_int4_ok v = (case v of None \<Rightarrow> True | Some n \<Rightarrow> int4_ok n)"

definition invoice_int4 :: "invoice_row \<Rightarrow> bool" where
  "invoice_int4 r \<longleftrightarrow> int4_ok (inv_amount r) \<and> int4_ok (inv_attempts r) \<and> int4_ok (mr_count (inv_retry r))
     \<and> opt_int4_ok (inv_overage_requests r) \<and> opt_int4_ok (inv_overage_units r)"

definition foreign_key_violation :: exn where
  "foreign_key_violation = PrismaError ''P2003'' [] ''Foreign key constraint violated''"

definition create_invoice :: "invoice_row \<Rightarrow> (db, unit) prog" where
  "create_invoice r = writes (\<lambda>d.
     if \<not> invoice_int4 r then Inl int4_overflow
     else if sub_of d r = None then Inl foreign_key_violation
     else (case insert_unique invoice_viol r (invoices d) of
             Inl e \<Rightarrow> Inl e | Inr rows \<Rightarrow> Inr (d\<lparr>invoices := rows\<rparr>)))"

definition update_invoice :: "string \<Rightarrow> (invoice_row \<Rightarrow> invoice_row) \<Rightarrow> (db, unit) prog" where
  "update_invoice iid g = writes (\<lambda>d.
     case find_unique (\<lambda>r. Some (inv_id r) = Some iid) (invoices d) of
       None \<Rightarrow> Inl record_missing
     | Some r \<Rightarrow>
         if \<not> invoice_int4 (g r) then Inl int4_overflow
         else (case update_unique invoice_viol (\<lambda>r. Some (inv_id r) = Some iid) g (invoices d) of
                 Inl e \<Rightarrow> Inl e | Inr rows \<Rightarrow> Inr (d\<lparr>invoices := rows\<rparr>)))"

definition create_sub :: "sub_row \<Rightarrow> (db, unit) prog" where
  "create_sub r = writes (\<lambda>d.
     if user_of d r = None \<or> plan_of d r = None then Inl foreign_key_violation
     else (case insert_unique sub_viol r (subs d) of
             Inl e \<Rightarrow> Inl e | Inr rows \<Rightarrow> Inr (d\<lparr>subs := rows\<rparr>)))"

text \<open>An update sets \<open>updatedAt\<close>.\<close>

definition update_sub :: "date \<Rightarrow> string \<Rightarrow> (sub_row \<Rightarrow> sub_row) \<Rightarrow> (db, unit) prog" where
  "update_sub now sid g = writes (\<lambda>d.
     case update_unique sub_viol (\<lambda>r. Some (sub_id r) = Some sid)
            (\<lambda>r. (g r)\<lparr>sub_updated := now\<rparr>) (subs d) of
       Inl e \<Rightarrow> Inl e | Inr rows \<Rightarrow> Inr (d\<lparr>subs := rows\<rparr>))"

text \<open>\<open>findUnique\<close> on an invoice, with its subscription.\<close>

definition find_invoice :: "db \<Rightarrow> string \<Rightarrow> (invoice_row \<times> sub_row) option" where
  "find_invoice d iid =
     (case find_unique (\<lambda>r. inv_id r = iid) (invoices d) of
        None \<Rightarrow> None
      | Some i \<Rightarrow> (case sub_of d i of None \<Rightarrow> None | Some s \<Rightarrow> Some (i, s)))"

definition find_sub_by_external :: "db \<Rightarrow> string \<Rightarrow> sub_row option" where
  "find_sub_by_external d x = find_unique (\<lambda>s. sub_external s = Some x) (subs d)"

definition find_invoice_by_external :: "db \<Rightarrow> string \<Rightarrow> invoice_row option" where
  "find_invoice_by_external d x = find_unique (\<lambda>r. inv_external r = Some x) (invoices d)"

section \<open>Well-formed tables\<close>

definition billing_ok :: "db \<Rightarrow> bool" where
  "billing_ok d \<longleftrightarrow>
     col_unique (\<lambda>s. Some (sub_id s)) (subs d) \<and> col_unique sub_external (subs d)
     \<and> col_unique (\<lambda>i. Some (inv_id i)) (invoices d) \<and> col_unique inv_session (invoices d)
     \<and> col_unique inv_external (invoices d) \<and> col_unique inv_source (invoices d)
     \<and> inv_sub ` set (invoices d) \<subseteq> sub_id ` set (subs d)
     \<and> list_all invoice_int4 (invoices d)"

lemma billing_okD:
  assumes "billing_ok d"
  shows "distinct (map sub_id (subs d))" "distinct (map inv_id (invoices d))"
    "col_unique sub_external (subs d)" "col_unique inv_session (invoices d)"
    "col_unique inv_external (invoices d)" "col_unique inv_source (invoices d)"
    "inv_sub ` set (invoices d) \<subseteq> sub_id ` set (subs d)"
  using assms by (simp_all add: billing_ok_def col_unique_ids)

lemma billing_ok_frame:
  "billing_ok d \<Longrightarrow> subs d' = subs d \<Longrightarrow> invoices d' = invoices d \<Longrightarrow> billing_ok d'"
  by (simp add: billing_ok_def)

lemma create_invoice_cases:
  assumes "create_invoice r d = (res, d')"
  obtains e where "res = Inl e" "d' = d"
  | "res = Inr ()" "d' = d\<lparr>invoices := invoices d @ [r]\<rparr>" "invoice_int4 r" "sub_of d r \<noteq> None"
    "insert_unique invoice_viol r (invoices d) = Inr (invoices d @ [r])"
  using assms unfolding create_invoice_def
proof (cases rule: writes_cases)
  case (1 e)
  then show ?thesis by (intro that(1))
next
  case 2
  then obtain rows where ins: "insert_unique invoice_viol r (invoices d) = Inr rows" "invoice_int4 r"
    "sub_of d r \<noteq> None" "d' = d\<lparr>invoices := rows\<rparr>" by (simp split: if_splits sum.splits)
  have "rows = invoices d @ [r]" using ins(1) by (simp add: insert_unique_Inr)
  then show ?thesis using ins 2(2) that(2) by simp
qed

lemma create_sub_cases:
  assumes "create_sub r d = (res, d')"
  obtains e where "res = Inl e" "d' = d"
  | "res = Inr ()" "d' = d\<lparr>subs := subs d @ [r]\<rparr>"
    "insert_unique sub_viol r (subs d) = Inr (subs d @ [r])"
  using assms unfolding create_sub_def
proof (cases rule: writes_cases)
  case (1 e)
  then show ?thesis by (intro that(1))
next
  case 2
  then obtain rows where ins: "insert_unique sub_viol r (subs d) = Inr rows" "d' = d\<lparr>subs := rows\<rparr>"
    by (simp split: if_splits sum.splits)
  have "rows = subs d @ [r]" using ins(1) by (simp add: insert_unique_Inr)
  then show ?thesis using ins 2(2) that(2) by simp
qed

definition set_invoice :: "string \<Rightarrow> (invoice_row \<Rightarrow> invoice_row) \<Rightarrow> db \<Rightarrow> db" where
  "set_invoice iid g d = d\<lparr>invoices := map (\<lambda>r. if inv_id r = iid then g r else r) (invoices d)\<rparr>"

definition set_sub :: "string \<Rightarrow> (sub_row \<Rightarrow> sub_row) \<Rightarrow> db \<Rightarrow> db" where
  "set_sub sid g d = d\<lparr>subs := map (\<lambda>r. if sub_id r = sid then g r else r) (subs d)\<rparr>"

lemma update_invoice_cases:
  assumes "update_invoice iid g d = (res, d')"
  obtains e where "res = Inl e" "d' = d"
  | r rows where "res = Inr ()" "d' = set_invoice iid g d" "d' = d\<lparr>invoices := rows\<rparr>"
    "find_unique (\<lambda>r. inv_id r = iid) (invoices d) = Some r" "invoice_int4 (g r)"
    "update_unique invoice_viol (\<lambda>r. Some (inv_id r) = Some iid) g (invoices d) = Inr rows"
  using assms unfolding update_invoice_def
proof (cases rule: writes_cases)
  case (1 e)
  then show ?thesis by (intro that(1))
next
  case 2
  then obtain r rows where upd: "find_unique (\<lambda>r. inv_id r = iid) (invoices d) = Some r"
      "invoice_int4 (g r)" "d' = d\<lparr>invoices := rows\<rparr>"
      "update_unique invoice_viol (\<lambda>r. Some (inv_id r) = Some iid) g (invoices d) = Inr rows"
    by (auto split: option.splits if_splits sum.splits)
  have "rows = map (\<lambda>r. if Some (inv_id r) = Some iid then g r else r) (invoices d)"
    using upd(4) unfolding update_unique_Inr by blast
  then have "d' = set_invoice iid g d" using upd(3) by (simp add: set_invoice_def)
  then show ?thesis using upd 2(2) that(2) [of rows r] by simp
qed

lemma update_sub_cases:
  assumes "update_sub now sid g d = (res, d')"
  obtains e where "res = Inl e" "d' = d"
  | r rows where "res = Inr ()" "d' = set_sub sid (\<lambda>r. (g r)\<lparr>sub_updated := now\<rparr>) d"
    "d' = d\<lparr>subs := rows\<rparr>" "find_unique (\<lambda>r. sub_id r = sid) (subs d) = Some r"
    "update_unique sub_viol (\<lambda>r. Some (sub_id r) = Some sid) (\<lambda>r. (g r)\<lparr>sub_updated := now\<rparr>) (subs d)
      = Inr rows"
  using assms unfolding update_sub_def
proof (cases rule: writes_cases)
  case (1 e)
  then show ?thesis by (intro that(1))
next
  case 2
  then obtain rows where upd: "d' = d\<lparr>subs := rows\<rparr>"
      "update_unique sub_viol (\<lambda>r. Some (sub_id r) = Some sid) (\<lambda>r. (g r)\<lparr>sub_updated := now\<rparr>) (subs d)
        = Inr rows" by (auto split: sum.splits)
  obtain r where r: "find_unique (\<lambda>r. Some (sub_id r) = Some sid) (subs d) = Some r"
    and rows: "rows = map (\<lambda>r. if Some (sub_id r) = Some sid then (g r)\<lparr>sub_updated := now\<rparr> else r) (subs d)"
    using upd(2) unfolding update_unique_Inr by blast
  have "d' = set_sub sid (\<lambda>r. (g r)\<lparr>sub_updated := now\<rparr>) d" using upd(1) rows by (simp add: set_sub_def)
  then show ?thesis using upd r 2(2) that(2) [of rows r] by simp
qed

lemma update_invoice_Inl: "update_invoice iid g d = (Inl e, d') \<Longrightarrow> d' = d"
  by (erule update_invoice_cases) auto

lemma update_sub_Inl: "update_sub now sid g d = (Inl e, d') \<Longrightarrow> d' = d"
  by (erule update_sub_cases) auto

section \<open>Writes keep the tables well formed\<close>

lemma create_invoice_ok [inv_intros]:
  assumes "create_invoice r d = (res, d')" "billing_ok d"
  shows "billing_ok d'"
  using assms(1)
proof (cases rule: create_invoice_cases)
  case (1 e)
  then show ?thesis using assms(2) by simp
next
  case 2
  have fk: "inv_sub r \<in> sub_id ` set (subs d)"
    using 2(4) by (force simp: sub_of_def dest!: find_unique_Some)
  have "col_unique (\<lambda>i. Some (inv_id i)) (invoices d @ [r])" "col_unique inv_session (invoices d @ [r])"
    "col_unique inv_external (invoices d @ [r])" "col_unique inv_source (invoices d @ [r])"
    using assms(2) by (auto simp: billing_ok_def
        intro: invoice_ids.insert_keeps_unique [OF 2(5)] invoice_sessions.insert_keeps_unique [OF 2(5)]
          invoice_externals.insert_keeps_unique [OF 2(5)] invoice_sources.insert_keeps_unique [OF 2(5)])
  then show ?thesis using assms(2) fk 2(3) by (simp add: 2(2) billing_ok_def)
qed

lemma create_sub_ok [inv_intros]:
  assumes "create_sub r d = (res, d')" "billing_ok d"
  shows "billing_ok d'"
  using assms(1)
proof (cases rule: create_sub_cases)
  case (1 e)
  then show ?thesis using assms(2) by simp
next
  case 2
  have "col_unique (\<lambda>i. Some (sub_id i)) (subs d @ [r])" "col_unique sub_external (subs d @ [r])"
    using assms(2) by (auto simp: billing_ok_def
        intro: sub_ids.insert_keeps_unique [OF 2(3)] sub_externals.insert_keeps_unique [OF 2(3)])
  then show ?thesis using assms(2) by (auto simp: 2(2) billing_ok_def)
qed

text \<open>An update that does not move an invoice to another subscription.\<close>

lemma update_invoice_ok:
  assumes "update_invoice iid g d = (res, d')" "billing_ok d" and same: "\<And>r. inv_sub (g r) = inv_sub r"
  shows "billing_ok d'"
  using assms(1)
proof (cases rule: update_invoice_cases)
  case (1 e)
  then show ?thesis using assms(2) by simp
next
  case (2 r rows)
  have ids: "col_unique (\<lambda>i. Some (inv_id i)) (invoices d)" using assms(2) by (simp add: billing_ok_def)
  have "col_unique (\<lambda>i. Some (inv_id i)) rows" "col_unique inv_session rows"
    "col_unique inv_external rows" "col_unique inv_source rows"
    using assms(2) ids by (auto simp: billing_ok_def
        intro: invoice_ids.update_by_col_keeps_unique [OF 2(6)]
          invoice_sessions.update_by_col_keeps_unique [OF 2(6)]
          invoice_externals.update_by_col_keeps_unique [OF 2(6)]
          invoice_sources.update_by_col_keeps_unique [OF 2(6)])
  moreover have rows: "rows = map (\<lambda>r. if inv_id r = iid then g r else r) (invoices d)"
    using arg_cong [OF 2(2), of invoices] arg_cong [OF 2(3), of invoices] by (simp add: set_invoice_def)
  moreover have "map inv_sub rows = map inv_sub (invoices d)"
    unfolding rows by (rule map_key_update) (rule same)
  then have "inv_sub ` set rows = inv_sub ` set (invoices d)" by (metis set_map)
  moreover have "list_all invoice_int4 rows"
  proof -
    have "r' = r" if "r' \<in> set (invoices d)" "inv_id r' = iid" for r'
      using find_unique_Some [OF 2(4)] col_unique_row [OF ids that(1)] that(2) by simp
    then show ?thesis using assms(2) 2(5)
      by (auto simp: rows billing_ok_def list_all_iff)
  qed
  ultimately show ?thesis using assms(2) by (simp add: 2(3) billing_ok_def)
qed

lemma update_sub_ok:
  assumes "update_sub now sid g d = (res, d')" "billing_ok d" and same: "\<And>r. sub_id (g r) = sub_id r"
  shows "billing_ok d'"
  using assms(1)
proof (cases rule: update_sub_cases)
  case (1 e)
  then show ?thesis using assms(2) by simp
next
  case (2 r rows)
  have ids: "col_unique (\<lambda>i. Some (sub_id i)) (subs d)" using assms(2) by (simp add: billing_ok_def)
  have "col_unique (\<lambda>i. Some (sub_id i)) rows" "col_unique sub_external rows"
    using assms(2) ids by (auto simp: billing_ok_def
        intro: sub_ids.update_by_col_keeps_unique [OF 2(5)] sub_externals.update_by_col_keeps_unique [OF 2(5)])
  moreover have rows: "rows = map (\<lambda>r. if sub_id r = sid then (g r)\<lparr>sub_updated := now\<rparr> else r) (subs d)"
    using arg_cong [OF 2(2), of subs] arg_cong [OF 2(3), of subs] by (simp add: set_sub_def)
  moreover have "map sub_id rows = map sub_id (subs d)"
    unfolding rows by (rule map_key_update) (simp add: same)
  then have "sub_id ` set rows = sub_id ` set (subs d)" by (metis set_map)
  ultimately show ?thesis using assms(2) by (simp add: 2(3) billing_ok_def)
qed

section \<open>Reads after writes\<close>

lemma find_invoice_row:
  assumes "find_invoice d iid = Some (i, s)"
  shows "i \<in> set (invoices d)" "inv_id i = iid" "s \<in> set (subs d)" "sub_id s = inv_sub i"
  using assms by (auto simp: find_invoice_def sub_of_def split: option.splits dest!: find_unique_Some)

lemma find_invoice_Some:
  assumes "billing_ok d" "i \<in> set (invoices d)"
  shows "\<exists>s. find_invoice d (inv_id i) = Some (i, s)"
proof -
  have "find_unique (\<lambda>r. inv_id r = inv_id i) (invoices d) = Some i"
    using find_unique_col [of "\<lambda>r. Some (inv_id r)" "invoices d" i "inv_id i"] assms
    by (simp add: billing_ok_def)
  moreover have "inv_sub i \<in> sub_id ` set (subs d)"
    using billing_okD(7) [OF assms(1)] assms(2) by blast
  then have "sub_of d i \<noteq> None" by (auto simp: sub_of_def find_unique_None)
  ultimately show ?thesis by (auto simp: find_invoice_def)
qed

lemma find_map_same_key:
  assumes "\<And>r. key (g r) = key r"
  shows "find_unique (\<lambda>r. key r = k) (map (\<lambda>r. if key r = k then g r else r) rows)
       = map_option g (find_unique (\<lambda>r. key r = k) rows)"
  using assms by (induction rows) (auto simp: find_unique_def)

lemma find_map_other_key:
  assumes "\<And>r. key (g r) = key r" "k \<noteq> k'"
  shows "find_unique (\<lambda>r. key r = k) (map (\<lambda>r. if key r = k' then g r else r) rows)
       = find_unique (\<lambda>r. key r = k) rows"
  using assms by (induction rows) (auto simp: find_unique_def)

end
