(* ===== verification/Payments.thy ===== *)
theory Payments
  imports Schema JsString
begin

text \<open>
  \<open>src/modules/billing/payment\<close>: the interface of a payment provider, the mock provider and the
  Stripe provider. The Stripe client is a parameter: the record \<open>stripe_sdk\<close> of its calls, from
  the request the code builds to the object or the error it answers. Of a Stripe object the model
  keeps the fields the code reads; a field that may hold a string or an expanded object is
  \<open>Some\<close> when it holds a string. Times of Stripe objects are seconds.
\<close>

section \<open>The interface\<close>

record create_payment_params =
  cp_invoice :: string
  cp_sub :: string
  cp_user :: string
  cp_email :: string
  cp_plan :: string
  cp_plan_name :: string
  cp_title :: string
  cp_amount :: int
  cp_currency :: string
  cp_setup_only :: bool

record create_payment_result =
  pr_link :: string
  pr_provider :: billing_provider
  pr_external :: "string option"

text \<open>\<open>currentPeriodEnd?: Date | null\<close>: absent, present and null, or present.\<close>

record cancel_result =
  cr_cancel :: bool
  cr_end :: "date option option"

record retry_result =
  rr_invoice :: string
  rr_sub :: "string option"
  rr_amount :: int
  rr_currency :: string
  rr_start :: date
  rr_end :: date
  rr_status :: invoice_status
  rr_attempts :: "int option"
  rr_next :: "date option"

record managed_params =
  mg_invoice :: string
  mg_sub :: "string option"
  mg_user :: string
  mg_email :: string
  mg_amount :: int
  mg_currency :: string
  mg_description :: string
  mg_start :: date
  mg_end :: date

record payment_provider =
  pp_provider :: billing_provider
  pp_create :: "create_payment_params \<Rightarrow> (db, create_payment_result) prog"
  pp_portal :: "string \<Rightarrow> string \<Rightarrow> (db, string) prog"
  pp_cancel :: "string \<Rightarrow> (db, cancel_result) prog"
  pp_retry :: "string \<Rightarrow> (db, retry_result) prog"
  pp_managed :: "managed_params \<Rightarrow> (db, retry_result) prog"

definition provider_not_enabled :: exn where
  "provider_not_enabled =
     AppError PAYMENT_PROVIDER_NOT_ENABLED ''PAYMENT_PROVIDER_NOT_ENABLED'' 400 []"

section \<open>The mock provider\<close>

definition mock_create_payment ::
  "int \<Rightarrow> create_payment_params \<Rightarrow> (db, create_payment_result) prog" where
  "mock_create_payment port params =
     ret \<lparr>pr_link = ''http://localhost:'' @ js_int_to_string port @ ''/billing/mock/pay?invoiceId=''
            @ cp_invoice params,
          pr_provider = MOCK, pr_external = None\<rparr>"

definition mock_payment_provider :: "int \<Rightarrow> payment_provider" where
  "mock_payment_provider port =
     \<lparr>pp_provider = MOCK,
      pp_create = mock_create_payment port,
      pp_portal = (\<lambda>user_id email. raise provider_not_enabled),
      pp_cancel = (\<lambda>external. ret \<lparr>cr_cancel = True, cr_end = None\<rparr>),
      pp_retry = (\<lambda>external. raise provider_not_enabled),
      pp_managed = (\<lambda>params. raise provider_not_enabled)\<rparr>"

section \<open>Stripe objects and calls\<close>

record stripe_invoice =
  si_id :: string
  si_total :: int
  si_currency :: string
  si_status :: "string option"
  si_start :: int
  si_end :: int
  si_attempts :: "int option"
  si_next_attempt :: "int option"
  si_parent_sub :: "string option"
  si_parent_meta :: "string option"
  si_root_sub :: "string option"
  si_meta :: "string option"
  si_reason :: "string option"

datatype latest_invoice = NoLatest | LatestId string | LatestObject stripe_invoice

record stripe_subscription =
  ss_id :: string
  ss_status :: string
  ss_cancel :: bool
  ss_customer :: "string option"
  ss_items :: "(int option \<times> int option) list"
  ss_meta :: "string option"
  ss_latest :: latest_invoice

record checkout_session =
  cs_id :: string
  cs_url :: "string option"

record checkout_metadata =
  cm_invoice :: string
  cm_sub :: string
  cm_user :: string
  cm_plan :: string

record checkout_item =
  ci_currency :: string
  ci_amount :: int
  ci_name :: string
  ci_description :: string

text \<open>A checkout without an item has mode \<open>setup\<close>, one with an item mode \<open>subscription\<close> and the
  metadata copied to the subscription.\<close>

record checkout_request =
  ck_customer :: string
  ck_reference :: string
  ck_success :: string
  ck_cancel :: "string option"
  ck_metadata :: checkout_metadata
  ck_item :: "checkout_item option"

record managed_metadata =
  mm_invoice :: string
  mm_start :: string
  mm_end :: string

record invoice_item_request =
  ii_customer :: string
  ii_sub :: "string option"
  ii_currency :: string
  ii_amount :: int
  ii_description :: string
  ii_metadata :: managed_metadata

record managed_invoice_request =
  mi_customer :: string
  mi_sub :: "string option"
  mi_metadata :: managed_metadata

record stripe_sdk =
  sdk_checkout :: "checkout_request \<Rightarrow> exn + checkout_session"
  sdk_portal :: "string \<Rightarrow> string option \<Rightarrow> exn + string"
  sdk_cancel_at_end :: "string \<Rightarrow> exn + stripe_subscription"
  sdk_subscription :: "string \<Rightarrow> exn + stripe_subscription"
  sdk_create_item :: "invoice_item_request \<Rightarrow> exn + unit"
  sdk_create_invoice :: "managed_invoice_request \<Rightarrow> exn + stripe_invoice"
  sdk_finalize :: "string \<Rightarrow> exn + stripe_invoice"
  sdk_pay :: "string \<Rightarrow> exn + stripe_invoice"
  sdk_invoice :: "string \<Rightarrow> exn + stripe_invoice"
  sdk_create_customer :: "string \<Rightarrow> string \<Rightarrow> exn + string"
  sdk_success_url :: "string option \<Rightarrow> string \<Rightarrow> string \<Rightarrow> exn + string"

text \<open>
  The settings of the provider. \<open>sdk_success_url\<close> stands for Node's \<open>URL\<close>: it parses the url
  and sets a query parameter.
\<close>

record stripe_config =
  sc_secret_key :: "string option"
  sc_webhook_secret :: "string option"
  sc_success_url :: "string option"
  sc_cancel_url :: "string option"
  sc_portal_url :: "string option"

text \<open>The \<open>client\<close> getter: every call goes through it.\<close>

definition with_client :: "stripe_config \<Rightarrow> exn + 'a \<Rightarrow> (db, 'a) prog" where
  "with_client cfg call =
     (if \<not> js_truthy_str (sc_secret_key cfg) then raise provider_not_enabled else from_result call)"

section \<open>Periods and statuses of Stripe objects\<close>

text \<open>\<open>Math.min\<close> and \<open>Math.max\<close> of a list that is not empty.\<close>

definition js_min_list :: "int \<Rightarrow> int list \<Rightarrow> int" where
  "js_min_list x xs = foldl min x xs"

definition js_max_list :: "int \<Rightarrow> int list \<Rightarrow> int" where
  "js_max_list x xs = foldl max x xs"

definition item_periods :: "stripe_subscription \<Rightarrow> (int \<times> int) list" where
  "item_periods s = List.map_filter (\<lambda>(a, b). case (a, b) of
     (Some a, Some b) \<Rightarrow> Some (a, b) | _ \<Rightarrow> None) (ss_items s)"

definition extract_stripe_subscription_period ::
  "stripe_subscription \<Rightarrow> date option \<times> date option" where
  "extract_stripe_subscription_period s =
     (case item_periods s of
        [] \<Rightarrow> (None, None)
      | p # ps \<Rightarrow> (Some (js_min_list (fst p) (map fst ps) * 1000),
                   Some (js_max_list (snd p) (map snd ps) * 1000)))"

definition extract_external_subscription_id :: "stripe_invoice \<Rightarrow> string option" where
  "extract_external_subscription_id i =
     (case si_parent_sub i of Some s \<Rightarrow> Some s | None \<Rightarrow> si_root_sub i)"

definition map_invoice_status :: "stripe_invoice \<Rightarrow> invoice_status" where
  "map_invoice_status i =
     (if si_status i = Some ''paid'' then IPaid
      else if si_status i = Some ''void'' \<or> si_status i = Some ''uncollectible'' then IVoid
      else IPastDue)"

text \<open>\<open>next_payment_attempt\<close> is used when it is truthy: a zero counts as none.\<close>

definition next_payment_attempt :: "stripe_invoice \<Rightarrow> date option" where
  "next_payment_attempt i =
     (case si_next_attempt i of None \<Rightarrow> None | Some n \<Rightarrow> if n = 0 then None else Some (n * 1000))"

definition to_invoice_result :: "stripe_invoice \<Rightarrow> retry_result" where
  "to_invoice_result i =
     \<lparr>rr_invoice = si_id i, rr_sub = extract_external_subscription_id i, rr_amount = si_total i,
      rr_currency = to_upper_case (si_currency i), rr_start = si_start i * 1000,
      rr_end = si_end i * 1000, rr_status = map_invoice_status i,
      rr_attempts = Some (case si_attempts i of None \<Rightarrow> 0 | Some n \<Rightarrow> n),
      rr_next = next_payment_attempt i\<rparr>"

section \<open>The Stripe provider\<close>

definition user_viol :: "user_row \<Rightarrow> user_row \<Rightarrow> exn option" where
  "user_viol r r' =
     (if usr_id r = usr_id r' then Some (unique_violation ''id'')
      else if usr_email r = usr_email r' then Some (unique_violation ''email'')
      else if clash usr_stripe_customer r r' then Some (unique_violation ''stripeCustomerId'')
      else None)"

interpretation user_ids: unique_column "\<lambda>r. Some (usr_id r)" user_viol
  by unfold_locales (auto simp: user_viol_def split: if_splits)

interpretation user_emails: unique_column "\<lambda>r. Some (usr_email r)" user_viol
  by unfold_locales (auto simp: user_viol_def split: if_splits)

interpretation user_customers: unique_column usr_stripe_customer user_viol
  by unfold_locales (auto simp: user_viol_def clash_def split: if_splits)

definition store_customer :: "string \<Rightarrow> string \<Rightarrow> (db, unit) prog" where
  "store_customer user_id customer = writes (\<lambda>d.
     case update_unique user_viol (\<lambda>u. Some (usr_id u) = Some user_id)
            (\<lambda>u. u\<lparr>usr_stripe_customer := Some customer\<rparr>) (users d) of
       Inl e \<Rightarrow> Inl e
     | Inr us \<Rightarrow> Inr (d\<lparr>users := us\<rparr>))"

definition ensure_customer ::
  "stripe_config \<Rightarrow> stripe_sdk \<Rightarrow> string \<Rightarrow> string \<Rightarrow> (db, string) prog" where
  "ensure_customer cfg sdk user_id email =
     bnd (gets (\<lambda>d. find_unique (\<lambda>u. usr_id u = user_id) (users d))) (\<lambda>found.
       case found of
         None \<Rightarrow> raise (AppError NOT_FOUND ''USER_NOT_FOUND'' 404 [])
       | Some u \<Rightarrow>
           if js_truthy_str (usr_stripe_customer u) then ret (the (usr_stripe_customer u))
           else
             bnd (with_client cfg (sdk_create_customer sdk
                    (if usr_email u = [] then email else usr_email u) (usr_id u))) (\<lambda>customer.
             bnd (store_customer (usr_id u) customer) (\<lambda>_. ret customer)))"

definition checkout_placeholder :: string where
  "checkout_placeholder = ''__CHECKOUT_SESSION_ID__''"

definition build_success_url :: "stripe_config \<Rightarrow> stripe_sdk \<Rightarrow> exn + string" where
  "build_success_url cfg sdk =
     (case sdk_success_url sdk (sc_success_url cfg) ''session_id'' checkout_placeholder of
        Inl e \<Rightarrow> Inl e
      | Inr url \<Rightarrow> Inr (replace_first checkout_placeholder ''{CHECKOUT_SESSION_ID}'' url))"

definition checkout_metadata_of :: "create_payment_params \<Rightarrow> checkout_metadata" where
  "checkout_metadata_of p = \<lparr>cm_invoice = cp_invoice p, cm_sub = cp_sub p, cm_user = cp_user p,
     cm_plan = cp_plan p\<rparr>"

definition checkout_request_of ::
  "stripe_config \<Rightarrow> create_payment_params \<Rightarrow> string \<Rightarrow> string \<Rightarrow> checkout_request" where
  "checkout_request_of cfg p customer success =
     \<lparr>ck_customer = customer, ck_reference = cp_invoice p, ck_success = success,
      ck_cancel = sc_cancel_url cfg, ck_metadata = checkout_metadata_of p,
      ck_item = (if cp_setup_only p then None
        else Some \<lparr>ci_currency = to_lower_case (cp_currency p), ci_amount = cp_amount p,
               ci_name = cp_title p, ci_description = ''Plan: '' @ cp_plan_name p\<rparr>)\<rparr>"

definition currency_conflict :: "string \<Rightarrow> string \<Rightarrow> exn" where
  "currency_conflict customer currency =
     AppError CONFLICT
       (''Stripe customer already has billing activity in another currency. ''
        @ ''Use a fresh account or a plan with the same currency.'') 409
       [(''customerId'', DStr customer), (''requestedCurrency'', DStr (to_upper_case currency))]"

definition handle_create_payment_error :: "exn \<Rightarrow> string \<Rightarrow> string \<Rightarrow> exn" where
  "handle_create_payment_error e customer currency =
     (case e of
        StripeError ty code msg \<Rightarrow>
          if ty = ''StripeInvalidRequestError''
             \<and> js_includes ''You cannot combine currencies on a single customer'' msg
          then currency_conflict customer currency else e
      | _ \<Rightarrow> e)"

text \<open>The client is read before the arguments of the call, the success url among them.\<close>

definition stripe_create_payment ::
  "stripe_config \<Rightarrow> stripe_sdk \<Rightarrow> create_payment_params \<Rightarrow> (db, create_payment_result) prog" where
  "stripe_create_payment cfg sdk p =
     bnd (ensure_customer cfg sdk (cp_user p) (cp_email p)) (\<lambda>customer.
     bnd (try_catch
            (bnd (with_client cfg (build_success_url cfg sdk)) (\<lambda>success.
               from_result (sdk_checkout sdk (checkout_request_of cfg p customer success))))
            (\<lambda>e. raise (handle_create_payment_error e customer (cp_currency p)))) (\<lambda>session.
       if \<not> js_truthy_str (cs_url session)
       then raise (AppError INTERNAL_ERROR ''STRIPE_CHECKOUT_URL_MISSING'' 500 [])
       else ret \<lparr>pr_link = the (cs_url session), pr_provider = STRIPE,
                 pr_external = Some (cs_id session)\<rparr>))"

definition stripe_create_portal ::
  "stripe_config \<Rightarrow> stripe_sdk \<Rightarrow> string \<Rightarrow> string \<Rightarrow> (db, string) prog" where
  "stripe_create_portal cfg sdk user_id email =
     bnd (ensure_customer cfg sdk user_id email) (\<lambda>customer.
       with_client cfg (sdk_portal sdk customer (sc_portal_url cfg)))"

definition stripe_schedule_cancel ::
  "stripe_config \<Rightarrow> stripe_sdk \<Rightarrow> string \<Rightarrow> (db, cancel_result) prog" where
  "stripe_schedule_cancel cfg sdk external =
     bnd (with_client cfg (sdk_cancel_at_end sdk external)) (\<lambda>s.
       ret \<lparr>cr_cancel = ss_cancel s, cr_end = Some (snd (extract_stripe_subscription_period s))\<rparr>)"

definition stripe_retry_payment ::
  "stripe_config \<Rightarrow> stripe_sdk \<Rightarrow> string \<Rightarrow> (db, retry_result) prog" where
  "stripe_retry_payment cfg sdk external =
     bnd (with_client cfg (sdk_pay sdk external)) (\<lambda>i. ret (to_invoice_result i))"

definition resolve_subscription_customer ::
  "stripe_config \<Rightarrow> stripe_sdk \<Rightarrow> string \<Rightarrow> (db, string) prog" where
  "resolve_subscription_customer cfg sdk external =
     bnd (with_client cfg (sdk_subscription sdk external)) (\<lambda>s.
       case ss_customer s of
         None \<Rightarrow> raise (AppError INTERNAL_ERROR ''STRIPE_SUBSCRIPTION_CUSTOMER_MISSING'' 500 [])
       | Some c \<Rightarrow> ret c)"

definition managed_metadata_of :: "managed_params \<Rightarrow> managed_metadata" where
  "managed_metadata_of p = \<lparr>mm_invoice = mg_invoice p, mm_start = to_iso_string (mg_start p),
     mm_end = to_iso_string (mg_end p)\<rparr>"

text \<open>Finalizing a draft and paying it; the invoice that is left is read back after an error.\<close>

definition settle_managed_invoice ::
  "stripe_config \<Rightarrow> stripe_sdk \<Rightarrow> stripe_invoice \<Rightarrow> (db, stripe_invoice) prog" where
  "settle_managed_invoice cfg sdk i0 d =
     (case (if si_status i0 = Some ''draft'' then with_client cfg (sdk_finalize sdk (si_id i0)) d
            else (Inr i0, d)) of
        (Inl e, d1) \<Rightarrow> with_client cfg (sdk_invoice sdk (si_id i0)) d1
      | (Inr i1, d1) \<Rightarrow>
          if si_status i1 \<noteq> Some ''paid''
          then (case with_client cfg (sdk_pay sdk (si_id i1)) d1 of
                  (Inl e, d2) \<Rightarrow> with_client cfg (sdk_invoice sdk (si_id i1)) d2
                | (Inr i2, d2) \<Rightarrow> (Inr i2, d2))
          else (Inr i1, d1))"

definition truthy_only :: "string option \<Rightarrow> string option" where
  "truthy_only v = (if js_truthy_str v then v else None)"

definition stripe_create_managed_invoice ::
  "stripe_config \<Rightarrow> stripe_sdk \<Rightarrow> managed_params \<Rightarrow> (db, retry_result) prog" where
  "stripe_create_managed_invoice cfg sdk p =
     bnd (if js_truthy_str (mg_sub p)
          then resolve_subscription_customer cfg sdk (the (mg_sub p))
          else ensure_customer cfg sdk (mg_user p) (mg_email p)) (\<lambda>customer.
     bnd (with_client cfg (sdk_create_item sdk
            \<lparr>ii_customer = customer, ii_sub = truthy_only (mg_sub p),
             ii_currency = to_lower_case (mg_currency p), ii_amount = mg_amount p,
             ii_description = mg_description p, ii_metadata = managed_metadata_of p\<rparr>)) (\<lambda>_.
     bnd (with_client cfg (sdk_create_invoice sdk
            \<lparr>mi_customer = customer, mi_sub = truthy_only (mg_sub p),
             mi_metadata = managed_metadata_of p\<rparr>)) (\<lambda>i0.
     bnd (settle_managed_invoice cfg sdk i0) (\<lambda>i. ret (to_invoice_result i)))))"

definition stripe_payment_provider :: "stripe_config \<Rightarrow> stripe_sdk \<Rightarrow> payment_provider" where
  "stripe_payment_provider cfg sdk =
     \<lparr>pp_provider = STRIPE,
      pp_create = stripe_create_payment cfg sdk,
      pp_portal = stripe_create_portal cfg sdk,
      pp_cancel = stripe_schedule_cancel cfg sdk,
      pp_retry = stripe_retry_payment cfg sdk,
      pp_managed = stripe_create_managed_invoice cfg sdk\<rparr>"

section \<open>What every provider promises\<close>

text \<open>A provider may store customer ids of users and changes nothing else of the database.\<close>

definition customers_only :: "db \<Rightarrow> db \<Rightarrow> bool" where
  "customers_only d d' \<longleftrightarrow> (\<exists>us. d' = d\<lparr>users := us\<rparr>
     \<and> map (usr_stripe_customer_update (\<lambda>_. None)) us = map (usr_stripe_customer_update (\<lambda>_. None)) (users d))"

lemma customers_only_refl [simp]: "customers_only d d"
  unfolding customers_only_def by (rule exI [of _ "users d"]) simp

lemma customers_only_trans: "customers_only d d' \<Longrightarrow> customers_only d' d'' \<Longrightarrow> customers_only d d''"
  unfolding customers_only_def by force

lemma customers_only_tables:
  assumes "customers_only d d'"
  shows "products d' = products d" "versions d' = versions d" "plans d' = plans d" "subs d' = subs d"
    "invoices d' = invoices d" "leases d' = leases d" "api_keys d' = api_keys d" "usages d' = usages d"
    "jobs d' = jobs d" "dailies d' = dailies d" "endpoints d' = endpoints d" "buckets d' = buckets d"
  using assms by (auto simp: customers_only_def)

locale payment_contract =
  fixes P :: payment_provider
  assumes create_frame: "pp_create P p d = (r, d') \<Longrightarrow> customers_only d d'"
    and create_provider: "pp_create P p d = (Inr x, d') \<Longrightarrow> pr_provider x = pp_provider P"
    and portal_frame: "pp_portal P u e d = (r2, d') \<Longrightarrow> customers_only d d'"
    and cancel_frame: "pp_cancel P x2 d = (r3, d') \<Longrightarrow> d' = d"
    and retry_frame: "pp_retry P x2 d = (r4, d') \<Longrightarrow> d' = d"
    and retry_status: "pp_retry P x2 d = (Inr y, d') \<Longrightarrow> rr_status y \<noteq> IDraft"
    and managed_frame: "pp_managed P m d = (r4, d') \<Longrightarrow> customers_only d d'"
    and managed_status: "pp_managed P m d = (Inr y, d') \<Longrightarrow> rr_status y \<noteq> IDraft"

lemma with_client_state: "with_client cfg c d = (r, d') \<Longrightarrow> d' = d"
  by (auto simp: with_client_def raise_def from_result_def split: if_splits)

lemma store_customer_frame:
  assumes "store_customer user_id c d = (r, d')"
  shows "customers_only d d'"
proof (cases "update_unique user_viol (\<lambda>u. Some (usr_id u) = Some user_id)
            (\<lambda>u. u\<lparr>usr_stripe_customer := Some c\<rparr>) (users d)")
  case (Inl e)
  then show ?thesis using assms by (simp add: store_customer_def writes_def)
next
  case (Inr us)
  have d': "d' = d\<lparr>users := us\<rparr>"
    using assms unfolding store_customer_def writes_def Inr by simp
  have us: "us = map (\<lambda>u. if Some (usr_id u) = Some user_id
      then u\<lparr>usr_stripe_customer := Some c\<rparr> else u) (users d)"
    using Inr unfolding update_unique_Inr by blast
  show ?thesis unfolding d' us by (auto simp: customers_only_def)
qed

lemma ensure_customer_frame:
  assumes "ensure_customer cfg sdk user_id email d = (r, d')"
  shows "customers_only d d'"
  using assms
  by (auto simp: ensure_customer_def bnd_def gets_def raise_def ret_def
      split: option.splits if_splits prod.splits sum.splits
      dest!: with_client_state store_customer_frame)

lemma settle_state: "settle_managed_invoice cfg sdk i d = (r, d') \<Longrightarrow> d' = d"
  by (auto simp: settle_managed_invoice_def split: prod.splits sum.splits if_splits dest!: with_client_state)

lemma resolve_subscription_customer_state:
  "resolve_subscription_customer cfg sdk x d = (r, d') \<Longrightarrow> d' = d"
  by (auto simp: resolve_subscription_customer_def bnd_def raise_def ret_def
      split: prod.splits sum.splits option.splits dest!: with_client_state)

lemma stripe_create_frame:
  assumes "stripe_create_payment cfg sdk p d = (r, d')"
  shows "customers_only d d'"
  using assms
  by (auto simp: stripe_create_payment_def bnd_def try_catch_def from_result_def raise_def ret_def
      split: prod.splits sum.splits if_splits dest!: with_client_state ensure_customer_frame)

lemma stripe_portal_frame:
  "stripe_create_portal cfg sdk u e d = (r, d') \<Longrightarrow> customers_only d d'"
  by (auto simp: stripe_create_portal_def bnd_def split: prod.splits sum.splits
      dest!: with_client_state ensure_customer_frame)

lemma stripe_managed_frame:
  assumes "stripe_create_managed_invoice cfg sdk p d = (r, d')"
  shows "customers_only d d'"
  using assms
  by (auto simp: stripe_create_managed_invoice_def bnd_def ret_def split: prod.splits sum.splits if_splits
      dest!: with_client_state ensure_customer_frame settle_state resolve_subscription_customer_state)

lemma map_invoice_status_not_draft: "map_invoice_status i \<noteq> IDraft"
  by (simp add: map_invoice_status_def)

interpretation mock: payment_contract "mock_payment_provider port" for port
  by unfold_locales
    (auto simp: mock_payment_provider_def mock_create_payment_def ret_def raise_def)

interpretation stripe: payment_contract "stripe_payment_provider cfg sdk" for cfg sdk
proof unfold_locales
  fix p d r d' assume "pp_create (stripe_payment_provider cfg sdk) p d = (r, d')"
  then show "customers_only d d'" by (simp add: stripe_payment_provider_def stripe_create_frame)
next
  fix p d x d' assume "pp_create (stripe_payment_provider cfg sdk) p d = (Inr x, d')"
  then show "pr_provider x = pp_provider (stripe_payment_provider cfg sdk)"
    by (auto simp: stripe_payment_provider_def stripe_create_payment_def bnd_Inr ret_def raise_def
        split: if_splits)
next
  fix u e d r d' assume "pp_portal (stripe_payment_provider cfg sdk) u e d = (r, d')"
  then show "customers_only d d'" by (simp add: stripe_payment_provider_def stripe_portal_frame)
next
  fix x d r d' assume "pp_cancel (stripe_payment_provider cfg sdk) x d = (r, d')"
  then show "d' = d"
    by (auto simp: stripe_payment_provider_def stripe_schedule_cancel_def bnd_def ret_def
        split: prod.splits sum.splits dest: with_client_state)
next
  fix x d r d' assume "pp_retry (stripe_payment_provider cfg sdk) x d = (r, d')"
  then show "d' = d"
    by (auto simp: stripe_payment_provider_def stripe_retry_payment_def bnd_def ret_def
        split: prod.splits sum.splits dest: with_client_state)
next
  fix x d y d' assume "pp_retry (stripe_payment_provider cfg sdk) x d = (Inr y, d')"
  then show "rr_status y \<noteq> IDraft"
    by (auto simp: stripe_payment_provider_def stripe_retry_payment_def bnd_Inr ret_def
        to_invoice_result_def map_invoice_status_not_draft)
next
  fix m d r d' assume "pp_managed (stripe_payment_provider cfg sdk) m d = (r, d')"
  then show "customers_only d d'" by (simp add: stripe_payment_provider_def stripe_managed_frame)
next
  fix m d y d' assume "pp_managed (stripe_payment_provider cfg sdk) m d = (Inr y, d')"
  then show "rr_status y \<noteq> IDraft"
    by (auto simp: stripe_payment_provider_def stripe_create_managed_invoice_def bnd_Inr ret_def
        to_invoice_result_def map_invoice_status_not_draft)
qed

section \<open>The Stripe customer of a user\<close>

lemma store_customer_Inr:
  assumes "store_customer user_id c d = (Inr u, d')" "user \<in> set (users d)" "usr_id user = user_id"
    and "distinct (map usr_id (users d))"
  shows "find_unique (\<lambda>u. usr_id u = user_id) (users d') = Some (user\<lparr>usr_stripe_customer := Some c\<rparr>)"
proof -
  obtain us where upd: "update_unique user_viol (\<lambda>u. Some (usr_id u) = Some user_id)
      (\<lambda>u. u\<lparr>usr_stripe_customer := Some c\<rparr>) (users d) = Inr us" and d': "d' = d\<lparr>users := us\<rparr>"
    using assms(1) unfolding store_customer_def writes_def by (auto split: sum.splits)
  have us: "us = map (\<lambda>u. if Some (usr_id u) = Some user_id
      then u\<lparr>usr_stripe_customer := Some c\<rparr> else u) (users d)"
    using upd unfolding update_unique_Inr by blast
  have "map usr_id us = map usr_id (users d)"
    unfolding us by (rule map_key_update) simp
  then have "col_unique (\<lambda>u. Some (usr_id u)) us"
    using assms(4) by (simp add: col_unique_ids)
  moreover have "user\<lparr>usr_stripe_customer := Some c\<rparr> \<in> set us"
    unfolding us set_map using assms(2,3) by (intro image_eqI [of _ _ user]) simp_all
  ultimately have "find_unique (\<lambda>u. Some (usr_id u) = Some user_id) us
      = Some (user\<lparr>usr_stripe_customer := Some c\<rparr>)"
    by (rule find_unique_col) (simp add: assms(3))
  then show ?thesis by (simp add: d')
qed

text \<open>A user gets one Stripe customer: once a call has resolved a (non-empty) customer id for
  the user, every later call, whatever the Stripe client would answer and whatever address is
  passed, gives the same id and leaves the database as it is.\<close>

theorem customer_resolved_once:
  assumes "distinct (map usr_id (users d))"
    and "ensure_customer cfg sdk user_id email d = (Inr c, d')" and "c \<noteq> []"
  shows "ensure_customer cfg2 sdk2 user_id email2 d' = (Inr c, d')"
proof -
  obtain u where u: "find_unique (\<lambda>u. usr_id u = user_id) (users d) = Some u"
    using assms(2) by (auto simp: ensure_customer_def bnd_def gets_def raise_def split: option.splits)
  have uin: "u \<in> set (users d)" "usr_id u = user_id" using find_unique_Some [OF u] by auto
  have "\<exists>u'. find_unique (\<lambda>u. usr_id u = user_id) (users d') = Some u' \<and> usr_stripe_customer u' = Some c"
  proof (cases "js_truthy_str (usr_stripe_customer u)")
    case True
    then have "d' = d" "usr_stripe_customer u = Some c"
      using assms(2) u by (auto simp: ensure_customer_def bnd_def gets_def ret_def js_truthy_str_def)
    then show ?thesis using u by simp
  next
    case False
    then obtain v d1 where "store_customer user_id c d1 = (Inr v, d')" and "d1 = d"
      using assms(2) u uin(2) by (auto simp: ensure_customer_def bnd_Inr gets_def ret_def dest: with_client_state)
    then have "find_unique (\<lambda>u. usr_id u = user_id) (users d') = Some (u\<lparr>usr_stripe_customer := Some c\<rparr>)"
      using store_customer_Inr [of user_id c d v d' u] uin assms(1) by simp
    then show ?thesis by simp
  qed
  then obtain u' where "find_unique (\<lambda>u. usr_id u = user_id) (users d') = Some u'"
    "usr_stripe_customer u' = Some c" by blast
  then show ?thesis using assms(3)
    by (simp add: ensure_customer_def bnd_def gets_def ret_def js_truthy_str_def)
qed

definition sample_user :: user_row where
  "sample_user = \<lparr>usr_id = ''u1'', usr_email = ''a@b.c'', usr_role = BUYER, usr_stripe_customer = None,
     usr_password = ''hash'', usr_created = 0\<rparr>"

definition sample_stripe_config :: stripe_config where
  "sample_stripe_config = \<lparr>sc_secret_key = Some ''sk'', sc_webhook_secret = Some ''wh'',
     sc_success_url = Some ''http://ok'', sc_cancel_url = Some ''http://no'', sc_portal_url = Some ''http://me''\<rparr>"

text \<open>A Stripe invoice as the client answers it, and a client that answers every call.\<close>

definition sample_stripe_invoice :: "string \<Rightarrow> string \<Rightarrow> stripe_invoice" where
  "sample_stripe_invoice iid status = \<lparr>si_id = iid, si_total = 1900, si_currency = ''eur'',
     si_status = Some status, si_start = 100, si_end = 200, si_attempts = Some 1, si_next_attempt = None,
     si_parent_sub = None, si_parent_meta = None, si_root_sub = None, si_meta = None, si_reason = None\<rparr>"

definition sample_stripe_sub :: "string \<Rightarrow> stripe_subscription" where
  "sample_stripe_sub s = \<lparr>ss_id = s, ss_status = ''active'', ss_cancel = False, ss_customer = Some ''cus_1'',
     ss_items = [(Some 100, Some 200)], ss_meta = None, ss_latest = NoLatest\<rparr>"

definition sample_sdk :: "string \<Rightarrow> stripe_sdk" where
  "sample_sdk status = \<lparr>sdk_checkout = (\<lambda>r. Inr \<lparr>cs_id = ''cs_1'', cs_url = Some ''http://pay''\<rparr>),
     sdk_portal = (\<lambda>c u. Inr ''http://portal''),
     sdk_cancel_at_end = (\<lambda>s. Inr (sample_stripe_sub s)),
     sdk_subscription = (\<lambda>s. Inr (sample_stripe_sub s)),
     sdk_create_item = (\<lambda>r. Inr ()), sdk_create_invoice = (\<lambda>r. Inr (sample_stripe_invoice ''in_1'' ''draft'')),
     sdk_finalize = (\<lambda>i. Inr (sample_stripe_invoice i ''open'')),
     sdk_pay = (\<lambda>i. Inr (sample_stripe_invoice i status)),
     sdk_invoice = (\<lambda>i. Inr (sample_stripe_invoice i status)),
     sdk_create_customer = (\<lambda>e u. Inr ''cus_1''),
     sdk_success_url = (\<lambda>u k v. Inr (''http://ok/?'' @ k @ ''='' @ v))\<rparr>"

theorem customer_resolved_once_witness:
  "fst (ensure_customer sample_stripe_config (sample_sdk ''open'') ''u1'' ''x@y.z''
     (snd (ensure_customer sample_stripe_config (sample_sdk ''paid'') ''u1'' ''a@b.c''
       (empty_db\<lparr>users := [sample_user]\<rparr>)))) = Inr ''cus_1''"
proof -
  let ?d = "empty_db\<lparr>users := [sample_user]\<rparr>"
  have "distinct (map usr_id (users ?d))" by code_simp
  moreover have "ensure_customer sample_stripe_config (sample_sdk ''paid'') ''u1'' ''a@b.c'' ?d
      = (Inr ''cus_1'', ?d\<lparr>users := [sample_user\<lparr>usr_stripe_customer := Some ''cus_1''\<rparr>]\<rparr>)"
    by code_simp
  ultimately show ?thesis using customer_resolved_once [of ?d sample_stripe_config "sample_sdk ''paid''" "''u1''"
      "''a@b.c''" "''cus_1''" _ sample_stripe_config "sample_sdk ''open''" "''x@y.z''"] by simp
qed

text \<open>The period of a Stripe subscription runs from the earliest start to the latest end of the
  items that have both; without such an item there is none.\<close>

theorem stripe_period_spans_items:
  "extract_stripe_subscription_period s =
     (if item_periods s = [] then (None, None)
      else (Some (1000 * Min (fst ` set (item_periods s))), Some (1000 * Max (snd ` set (item_periods s)))))"
proof (cases "item_periods s")
  case Nil
  then show ?thesis by (simp add: extract_stripe_subscription_period_def)
next
  case (Cons p ps)
  have "js_min_list x xs = Min (set (x # xs))" "js_max_list x xs = Max (set (x # xs))" for x xs
    unfolding js_min_list_def js_max_list_def Min.set_eq_fold Max.set_eq_fold
    by (induction xs arbitrary: x) (simp_all add: min.commute max.commute)
  then show ?thesis by (simp add: Cons extract_stripe_subscription_period_def)
qed

end
