(* ===== verification/RetryPolicy.thy ===== *)
theory RetryPolicy
  imports Schema
begin

text \<open>
  \<open>src/modules/billing/billing-managed-retry.policy.ts\<close>: when a failed renewal is retried. The
  state is the invoice's managed-retry columns; the delays are the configured minutes.
\<close>

definition clear_managed_retry_state :: managed_retry_state where
  "clear_managed_retry_state =
     \<lparr>mr_count = 0, mr_next = None, mr_last = None, mr_exhausted = None, mr_error = None\<rparr>"

text \<open>\<open>delayMinutes[retryCount]\<close> is \<open>undefined\<close> past the end of the list; a zero delay counts as none.\<close>

definition resolve_managed_retry_at :: "int \<Rightarrow> date \<Rightarrow> int list \<Rightarrow> date option" where
  "resolve_managed_retry_at retry_count reference_time delay_minutes =
     (if 0 \<le> retry_count \<and> retry_count < int (length delay_minutes)
         \<and> delay_minutes ! nat retry_count \<noteq> 0
      then Some (reference_time + delay_minutes ! nat retry_count * 60 * 1000)
      else None)"

definition create_initial_managed_retry_state :: "date \<Rightarrow> int list \<Rightarrow> managed_retry_state" where
  "create_initial_managed_retry_state reference_time delay_minutes =
     (let next_retry = resolve_managed_retry_at 0 reference_time delay_minutes
      in \<lparr>mr_count = 0, mr_next = next_retry, mr_last = None,
          mr_exhausted = (if next_retry \<noteq> None then None else Some reference_time),
          mr_error = None\<rparr>)"

definition create_managed_retry_state_after_attempt ::
  "int \<Rightarrow> date \<Rightarrow> int list \<Rightarrow> string option \<Rightarrow> managed_retry_state" where
  "create_managed_retry_state_after_attempt current_count attempted_at delay_minutes msg =
     (let next_count = current_count + 1;
          next_retry = resolve_managed_retry_at next_count attempted_at delay_minutes
      in \<lparr>mr_count = next_count, mr_next = next_retry, mr_last = Some attempted_at,
          mr_exhausted = (if next_retry \<noteq> None then None else Some attempted_at),
          mr_error = msg\<rparr>)"

section \<open>A whole schedule\<close>

text \<open>
  The state after a failure at \<open>t\<close> and failed attempts at the given times (with their messages),
  each as the policy computes it.
\<close>

fun after_attempts :: "int list \<Rightarrow> managed_retry_state \<Rightarrow> (date \<times> string option) list \<Rightarrow> managed_retry_state" where
  "after_attempts delays st [] = st"
| "after_attempts delays st ((t, msg) # xs) =
     after_attempts delays (create_managed_retry_state_after_attempt (mr_count st) t delays msg) xs"

text \<open>The schedule is live as long as the next retry is set, and over once it is exhausted.\<close>

definition retry_state_ok :: "int list \<Rightarrow> managed_retry_state \<Rightarrow> bool" where
  "retry_state_ok delays st \<longleftrightarrow> 0 \<le> mr_count st
     \<and> (mr_next st = None \<longleftrightarrow> int (length delays) \<le> mr_count st)
     \<and> (mr_next st = None \<longleftrightarrow> mr_exhausted st \<noteq> None)"

lemma initial_retry_state_ok:
  assumes "list_all (\<lambda>m. 0 < m) delays"
  shows "retry_state_ok delays (create_initial_managed_retry_state t delays)"
  using assms
  by (cases delays) (auto simp: retry_state_ok_def create_initial_managed_retry_state_def Let_def
      resolve_managed_retry_at_def)

lemma attempt_retry_state_ok:
  assumes "list_all (\<lambda>m. 0 < m) delays" "0 \<le> c"
  shows "retry_state_ok delays (create_managed_retry_state_after_attempt c t delays msg)"
proof -
  have "delays ! nat (c + 1) \<noteq> 0" if "c + 1 < int (length delays)"
  proof -
    have "nat (c + 1) < length delays" using assms(2) that by simp
    then have "0 < delays ! nat (c + 1)" using assms(1) unfolding list_all_length by blast
    then show ?thesis by simp
  qed
  then show ?thesis using assms(2)
    by (auto simp: retry_state_ok_def create_managed_retry_state_after_attempt_def Let_def
        resolve_managed_retry_at_def)
qed

lemma after_attempts_count: "mr_count (after_attempts delays st xs) = mr_count st + int (length xs)"
  by (induction delays st xs rule: after_attempts.induct)
    (simp_all add: create_managed_retry_state_after_attempt_def Let_def)

lemma after_attempts_ok:
  assumes "list_all (\<lambda>m. 0 < m) delays" "retry_state_ok delays st"
  shows "retry_state_ok delays (after_attempts delays st xs)"
  using assms(2)
proof (induction xs arbitrary: st)
  case (Cons x xs)
  obtain t msg where x: "x = (t, msg)" by (cases x)
  have "retry_state_ok delays (create_managed_retry_state_after_attempt (mr_count st) t delays msg)"
    by (rule attempt_retry_state_ok [OF assms(1)]) (use Cons.prems in \<open>simp add: retry_state_ok_def\<close>)
  then show ?case using Cons.IH by (simp add: x)
qed simp

text \<open>C30: The retry schedule is exactly the configured one and ends: with positive delays, after a
  first failure and any failed attempts the counter is the number of attempts; as long as fewer
  attempts than delays were made the next retry is set, that many minutes after the last
  failure, and nothing is marked exhausted; from then on no retry is set and the state is marked
  exhausted.\<close>

theorem retry_schedule_ends:
  assumes "list_all (\<lambda>m. 0 < m) delays"
    and "st = after_attempts delays (create_initial_managed_retry_state t0 delays) attempts"
  shows "mr_count st = int (length attempts)
    \<and> (if length attempts < length delays
       then mr_next st = Some (last (t0 # map fst attempts) + delays ! length attempts * 60000)
            \<and> mr_exhausted st = None
       else mr_next st = None \<and> mr_exhausted st \<noteq> None)"
proof -
  let ?i = "create_initial_managed_retry_state t0 delays"
  have i0: "mr_count ?i = 0" by (simp add: create_initial_managed_retry_state_def Let_def)
  have ok: "retry_state_ok delays st"
    unfolding assms(2) by (rule after_attempts_ok [OF assms(1) initial_retry_state_ok [OF assms(1)]])
  have cnt: "mr_count st = int (length attempts)" by (simp add: assms(2) after_attempts_count i0)
  have nxt: "mr_next st = Some (last (t0 # map fst attempts) + delays ! length attempts * 60000)"
    if len: "length attempts < length delays"
  proof (cases attempts rule: rev_cases)
    case Nil
    then show ?thesis using len assms(1)
      by (cases delays) (auto simp: assms(2) create_initial_managed_retry_state_def Let_def resolve_managed_retry_at_def)
  next
    case (snoc ys y)
    obtain t msg where y: "y = (t, msg)" by (cases y)
    have app: "after_attempts delays s (xs @ [(t, msg)])
        = create_managed_retry_state_after_attempt (mr_count (after_attempts delays s xs)) t delays msg" for s xs
      by (induction delays s xs rule: after_attempts.induct) simp_all
    have "delays ! length attempts \<noteq> 0" using assms(1) len by (auto simp: list_all_length)
    then show ?thesis using len
      by (simp add: assms(2) snoc y app after_attempts_count i0 create_managed_retry_state_after_attempt_def
          Let_def resolve_managed_retry_at_def nat_add_distrib)
  qed
  show ?thesis using ok cnt nxt by (auto simp: retry_state_ok_def)
qed

theorem retry_schedule_ends_witness:
  "mr_next (after_attempts [60, 1440] (create_initial_managed_retry_state 0 [60, 1440]) [(5000, None)])
     = Some (5000 + 1440 * 60000)"
  using retry_schedule_ends [of "[60, 1440]" _ 0 "[(5000, None)]", OF _ refl] by simp

end
