(* ===== verification/Subscriptions.thy ===== *)
theory Subscriptions
  imports BillingRows Payments RetryPolicy
begin

text \<open>
  \<open>src/modules/billing/subscriptions.service.ts\<close>: the life of a subscription and its invoices.
  \<open>now\<close> is the clock, new row ids are arguments. A call reads a row, computes the new columns
  and writes them; the writes of one operation are separate statements except in \<open>subscribe\<close>,
  whose first part is a transaction.
\<close>

section \<open>Callers and parameters\<close>

record billing_env =
  be_cfg :: billing_config
  be_mock :: payment_provider
  be_stripe :: payment_provider

text \<open>The \<open>PAYMENT_PROVIDER\<close> factory of the billing module.\<close>

definition active_provider :: "billing_env \<Rightarrow> payment_provider" where
  "active_provider env =
     (if payment_provider (be_cfg env) = STRIPE then be_stripe env else be_mock env)"

definition get_provider_for_stored_subscription :: "billing_env \<Rightarrow> billing_provider \<Rightarrow> payment_provider" where
  "get_provider_for_stored_subscription env p = (if p = STRIPE then be_stripe env else be_mock env)"

record mark_params =
  mk_invoice :: string
  mk_provider :: billing_provider
  mk_session :: "string option"
  mk_external :: "string option"
  mk_sub_external :: "string option"
  mk_attempts :: "int option"

record fail_params = mark_params +
  fl_status :: "invoice_status option"
  fl_next :: "date option"

record sync_invoice_params =
  sy_provider :: billing_provider
  sy_external :: string
  sy_sub_external :: "string option"
  sy_session :: "string option"
  sy_metadata :: "string option"
  sy_allow_metadata :: bool
  sy_amount :: int
  sy_currency :: string
  sy_start :: date
  sy_end :: date
  sy_status :: invoice_status
  sy_attempts :: "int option"
  sy_next :: "date option"

text \<open>A field \<open>Date | null | undefined\<close> is an option of an option.\<close>

record sync_sub_params =
  sp_external :: string
  sp_cancel :: bool
  sp_status :: "subscription_status option"
  sp_start :: "date option option"
  sp_end :: "date option option"

record checkout_params =
  xc_invoice :: string
  xc_provider :: billing_provider
  xc_session :: "string option"
  xc_sub_external :: "string option"

definition not_found_error :: "error_code \<Rightarrow> string \<Rightarrow> exn" where
  "not_found_error c m = AppError c m 404 []"

definition invoice_not_found :: exn where
  "invoice_not_found = not_found_error INVOICE_NOT_FOUND ''INVOICE_NOT_FOUND''"

definition subscription_not_found :: exn where
  "subscription_not_found = not_found_error SUBSCRIPTION_NOT_FOUND ''SUBSCRIPTION_NOT_FOUND''"

section \<open>Grace period and managed retries\<close>

definition resolve_grace_period_ends_at ::
  "billing_config \<Rightarrow> date \<Rightarrow> subscription_status \<Rightarrow> date option \<Rightarrow> date option \<Rightarrow> date option \<Rightarrow> date option" where
  "resolve_grace_period_ends_at cfg now status period_start period_end existing =
     (if status \<noteq> PAST_DUE then None
      else if period_start = None then None
      else if grace_period_days cfg \<le> 0 then None
      else
        let base = (case period_end of None \<Rightarrow> now | Some e \<Rightarrow> if now < e then e else now);
            grace = set_utc_date base (get_utc_date base + grace_period_days cfg)
        in (case existing of None \<Rightarrow> Some grace
            | Some g \<Rightarrow> if grace < g then Some g else Some grace))"

definition should_use_managed_renewal_retry ::
  "billing_config \<Rightarrow> invoice_kind \<Rightarrow> billing_provider \<Rightarrow> invoice_status \<Rightarrow> date option \<Rightarrow> bool" where
  "should_use_managed_renewal_retry cfg kind provider status period_start \<longleftrightarrow>
     retry_enabled cfg \<and> kind = SUBSCRIPTION \<and> provider = STRIPE \<and> status = IPastDue
     \<and> period_start \<noteq> None"

definition has_managed_retry_state :: "managed_retry_state \<Rightarrow> bool" where
  "has_managed_retry_state st \<longleftrightarrow> mr_count st > 0 \<or> mr_next st \<noteq> None \<or> mr_last st \<noteq> None
     \<or> mr_exhausted st \<noteq> None \<or> js_truthy_str (mr_error st)"

definition resolve_managed_retry_state ::
  "billing_config \<Rightarrow> date \<Rightarrow> invoice_kind \<Rightarrow> billing_provider \<Rightarrow> invoice_status \<Rightarrow> invoice_status \<Rightarrow>
   date option \<Rightarrow> managed_retry_state \<Rightarrow> managed_retry_state option" where
  "resolve_managed_retry_state cfg now kind provider status current_status period_start st =
     (if \<not> should_use_managed_renewal_retry cfg kind provider status period_start
      then (if has_managed_retry_state st then Some clear_managed_retry_state else None)
      else if current_status = IPastDue \<and> has_managed_retry_state st then None
      else Some (create_initial_managed_retry_state now (retry_delays cfg)))"

definition get_invoice_period :: "date \<Rightarrow> date \<times> date" where
  "get_invoice_period now = (now, set_utc_month now (get_utc_month now + 1))"

section \<open>Marking an invoice\<close>

text \<open>The invoice was settled under another external invoice: the event is ignored.\<close>

definition settled_elsewhere :: "invoice_row \<Rightarrow> string option \<Rightarrow> bool" where
  "settled_elsewhere i external \<longleftrightarrow>
     inv_status i = IPaid \<and> js_truthy_str (inv_external i) \<and> js_truthy_str external
     \<and> inv_external i \<noteq> external"

definition paid_invoice :: "mark_params \<Rightarrow> invoice_row \<Rightarrow> invoice_row \<Rightarrow> invoice_row" where
  "paid_invoice p i r = r\<lparr>inv_status := IPaid, inv_provider := mk_provider p,
     inv_session := nullish (mk_session p) (inv_session i),
     inv_external := nullish (mk_external p) (inv_external i),
     inv_attempts := (case mk_attempts p of Some n \<Rightarrow> n | None \<Rightarrow> inv_attempts i),
     inv_next_attempt := None,
     inv_retry := (if has_managed_retry_state (inv_retry i) then clear_managed_retry_state
                   else inv_retry r)\<rparr>"

definition activated_sub :: "mark_params \<Rightarrow> invoice_row \<Rightarrow> sub_row \<Rightarrow> sub_row \<Rightarrow> sub_row" where
  "activated_sub p i s r = r\<lparr>sub_status := ACTIVE, sub_provider := mk_provider p,
     sub_external := nullish (mk_sub_external p) (sub_external s),
     sub_start := Some (inv_start i), sub_end := Some (inv_end i), sub_grace := None\<rparr>"

text \<open>The answer says whether the event was ignored.\<close>

definition mark_invoice_paid :: "date \<Rightarrow> mark_params \<Rightarrow> (db, bool) prog" where
  "mark_invoice_paid now p =
     bnd (gets (\<lambda>d. find_invoice d (mk_invoice p))) (\<lambda>found.
       case found of
         None \<Rightarrow> raise invoice_not_found
       | Some (i, s) \<Rightarrow>
           if settled_elsewhere i (mk_external p) then ret True
           else
             bnd (update_invoice (inv_id i) (paid_invoice p i)) (\<lambda>_.
             if inv_kind i = OVERAGE then ret False
             else bnd (update_sub now (sub_id s) (activated_sub p i s)) (\<lambda>_. ret False)))"

definition failed_status :: "fail_params \<Rightarrow> invoice_status" where
  "failed_status p = (case fl_status p of Some st \<Rightarrow> st | None \<Rightarrow> IVoid)"

definition failed_invoice ::
  "billing_config \<Rightarrow> date \<Rightarrow> fail_params \<Rightarrow> invoice_row \<Rightarrow> sub_row \<Rightarrow> invoice_row \<Rightarrow> invoice_row" where
  "failed_invoice cfg now p i s r = r\<lparr>inv_status := failed_status p, inv_provider := mk_provider p,
     inv_session := nullish (mk_session p) (inv_session i),
     inv_external := nullish (mk_external p) (inv_external i),
     inv_attempts := (case mk_attempts p of Some n \<Rightarrow> n
        | None \<Rightarrow> if failed_status p = IPastDue then max 1 (inv_attempts i) else 0),
     inv_next_attempt := (if failed_status p = IPastDue then fl_next p else None),
     inv_retry := (case resolve_managed_retry_state cfg now (inv_kind i) (mk_provider p)
          (failed_status p) (inv_status i) (sub_start s) (inv_retry i) of
        Some st \<Rightarrow> st | None \<Rightarrow> inv_retry r)\<rparr>"

definition past_due_sub ::
  "billing_config \<Rightarrow> date \<Rightarrow> fail_params \<Rightarrow> sub_row \<Rightarrow> sub_row \<Rightarrow> sub_row" where
  "past_due_sub cfg now p s r = r\<lparr>sub_status := PAST_DUE, sub_provider := mk_provider p,
     sub_external := nullish (mk_sub_external p) (sub_external s),
     sub_grace := resolve_grace_period_ends_at cfg now PAST_DUE (sub_start s) (sub_end s) (sub_grace s)\<rparr>"

definition mark_invoice_failed :: "billing_config \<Rightarrow> date \<Rightarrow> fail_params \<Rightarrow> (db, bool) prog" where
  "mark_invoice_failed cfg now p =
     bnd (gets (\<lambda>d. find_invoice d (mk_invoice p))) (\<lambda>found.
       case found of
         None \<Rightarrow> raise invoice_not_found
       | Some (i, s) \<Rightarrow>
           if settled_elsewhere i (mk_external p) then ret True
           else
             bnd (update_invoice (inv_id i) (failed_invoice cfg now p i s)) (\<lambda>_.
             if inv_kind i = OVERAGE then ret False
             else bnd (update_sub now (sub_id s) (past_due_sub cfg now p s)) (\<lambda>_. ret False)))"

definition mark_only :: "string \<Rightarrow> billing_provider \<Rightarrow> mark_params" where
  "mark_only iid provider = \<lparr>mk_invoice = iid, mk_provider = provider, mk_session = None,
     mk_external = None, mk_sub_external = None, mk_attempts = None\<rparr>"

definition fail_only :: "string \<Rightarrow> billing_provider \<Rightarrow> fail_params" where
  "fail_only iid provider = \<lparr>mk_invoice = iid, mk_provider = provider, mk_session = None,
     mk_external = None, mk_sub_external = None, mk_attempts = None, fl_status = None, fl_next = None\<rparr>"

definition mock_succeed :: "date \<Rightarrow> string \<Rightarrow> (db, unit) prog" where
  "mock_succeed now iid = bnd (mark_invoice_paid now (mark_only iid MOCK)) (\<lambda>_. ret ())"

definition mock_fail :: "billing_config \<Rightarrow> date \<Rightarrow> string \<Rightarrow> (db, unit) prog" where
  "mock_fail cfg now iid = bnd (mark_invoice_failed cfg now (fail_only iid MOCK)) (\<lambda>_. ret ())"

section \<open>Subscribing\<close>

definition sub_app_error :: "error_code \<Rightarrow> string \<Rightarrow> int \<Rightarrow> exn" where
  "sub_app_error c m status = AppError c m status []"

definition find_plan_product :: "db \<Rightarrow> string \<Rightarrow> (plan_row \<times> product_row) option" where
  "find_plan_product d pid =
     (case find_unique (\<lambda>p. plan_id p = pid) (plans d) of
        None \<Rightarrow> None
      | Some p \<Rightarrow> (case product_of_plan d p of None \<Rightarrow> None | Some r \<Rightarrow> Some (p, r)))"

definition subscribable :: "db \<Rightarrow> string \<Rightarrow> exn + (plan_row \<times> product_row)" where
  "subscribable d pid =
     (case find_plan_product d pid of
        None \<Rightarrow> Inl (sub_app_error PLAN_NOT_FOUND ''PLAN_NOT_FOUND'' 404)
      | Some (p, r) \<Rightarrow>
          if \<not> plan_active p then Inl (sub_app_error PLAN_INACTIVE ''PLAN_INACTIVE'' 400)
          else if prod_status r \<noteq> PPublished then Inl (sub_app_error PRODUCT_NOT_PUBLIC ''PRODUCT_NOT_PUBLIC'' 403)
          else if \<not> list_ex (\<lambda>v. ver_product v = plan_product p \<and> ver_status v = VPublished) (versions d)
          then Inl (sub_app_error PRODUCT_NOT_READY ''PRODUCT_NOT_READY'' 409)
          else Inr (p, r))"

definition plan_product_of :: "db \<Rightarrow> sub_row \<Rightarrow> string option" where
  "plan_product_of d s = map_option plan_product (plan_of d s)"

text \<open>\<open>findFirst\<close> without an order: the first in storage order.\<close>

definition open_subscription :: "db \<Rightarrow> string \<Rightarrow> string \<Rightarrow> sub_row option" where
  "open_subscription d uid product = find_unique (\<lambda>s. sub_user s = uid
     \<and> (sub_status s = ACTIVE \<or> sub_status s = PENDING) \<and> plan_product_of d s = Some product) (subs d)"

definition new_subscription :: "date \<Rightarrow> string \<Rightarrow> string \<Rightarrow> string \<Rightarrow> billing_provider \<Rightarrow> sub_row" where
  "new_subscription now sid uid pid provider = \<lparr>sub_id = sid, sub_user = uid, sub_plan = pid,
     sub_provider = provider, sub_external = None, sub_status = PENDING, sub_start = None,
     sub_end = None, sub_grace = None, sub_cancel = False, sub_created = now, sub_updated = now\<rparr>"

definition new_invoice ::
  "date \<Rightarrow> string \<Rightarrow> string \<Rightarrow> billing_provider \<Rightarrow> int \<Rightarrow> string \<Rightarrow> date \<Rightarrow> date \<Rightarrow> invoice_row" where
  "new_invoice now iid sid provider amount currency pstart pend = \<lparr>inv_id = iid, inv_sub = sid,
     inv_provider = provider, inv_kind = SUBSCRIPTION, inv_session = None, inv_external = None,
     inv_source = None, inv_processed = None, inv_overage_requests = None, inv_overage_units = None,
     inv_amount = amount, inv_currency = currency, inv_status = IDraft, inv_attempts = 0,
     inv_next_attempt = None, inv_retry = clear_managed_retry_state, inv_start = pstart,
     inv_end = pend, inv_created = now\<rparr>"

text \<open>The transaction: it may also be aborted by the database (\<open>aborted\<close>).\<close>

definition subscribe_transaction ::
  "billing_env \<Rightarrow> date \<Rightarrow> exn option \<Rightarrow> string \<Rightarrow> string \<Rightarrow> auth_user \<Rightarrow> plan_row \<Rightarrow> (db, unit) prog" where
  "subscribe_transaction env now aborted sid iid user p = tx (
     bnd (gets (\<lambda>d. open_subscription d (au_id user) (plan_product p))) (\<lambda>existing.
       case existing of
         Some s \<Rightarrow>
           raise (if sub_status s = ACTIVE then sub_app_error ALREADY_SUBSCRIBED ''ALREADY_SUBSCRIBED'' 409
                  else sub_app_error SUBSCRIPTION_PENDING ''SUBSCRIPTION_PENDING'' 409)
       | None \<Rightarrow>
           bnd (create_sub (new_subscription now sid (au_id user) (plan_id p)
                  (pp_provider (active_provider env)))) (\<lambda>_.
           bnd (create_invoice (new_invoice now iid sid (pp_provider (active_provider env))
                  (plan_price_cents p) (plan_currency p)
                  (fst (get_invoice_period now)) (snd (get_invoice_period now)))) (\<lambda>_.
           may_fail aborted))))"

definition payment_params_of ::
  "billing_env \<Rightarrow> string \<Rightarrow> string \<Rightarrow> auth_user \<Rightarrow> plan_row \<Rightarrow> product_row \<Rightarrow> create_payment_params" where
  "payment_params_of env sid iid user p r = \<lparr>cp_invoice = iid, cp_sub = sid, cp_user = au_id user,
     cp_email = au_email user, cp_plan = plan_id p, cp_plan_name = plan_name p, cp_title = prod_title r,
     cp_amount = plan_price_cents p, cp_currency = plan_currency p,
     cp_setup_only = (pp_provider (active_provider env) = STRIPE \<and> plan_price_cents p = 0)\<rparr>"

definition set_session :: "string option \<Rightarrow> invoice_row \<Rightarrow> invoice_row" where
  "set_session x r = r\<lparr>inv_session := x\<rparr>"

definition start_payment ::
  "billing_env \<Rightarrow> string \<Rightarrow> string \<Rightarrow> auth_user \<Rightarrow> plan_row \<Rightarrow> product_row \<Rightarrow> (db, string) prog" where
  "start_payment env sid iid user p r =
     bnd (pp_create (active_provider env) (payment_params_of env sid iid user p r)) (\<lambda>payment.
     bnd (if js_truthy_str (pr_external payment)
          then update_invoice iid (set_session (pr_external payment))
          else ret ()) (\<lambda>_.
     ret (pr_link payment)))"

text \<open>The answer of \<open>subscribe\<close>: the ids of the new rows and the payment link.\<close>

definition subscribe ::
  "billing_env \<Rightarrow> date \<Rightarrow> exn option \<Rightarrow> string \<Rightarrow> string \<Rightarrow> string \<Rightarrow> auth_user \<Rightarrow>
   (db, string \<times> string \<times> string) prog" where
  "subscribe env now aborted sid iid pid user =
     bnd (\<lambda>d. (subscribable d pid, d)) (\<lambda>(p, r).
     bnd (subscribe_transaction env now aborted sid iid user p) (\<lambda>_.
     bnd (try_catch (start_payment env sid iid user p r)
            (\<lambda>e. bnd (mark_invoice_failed (be_cfg env) now
                        (fail_only iid (pp_provider (active_provider env)))) (\<lambda>_. raise e))) (\<lambda>link.
     ret (sid, iid, link))))"

section \<open>Events of the external provider\<close>

definition checkout_invoice :: "checkout_params \<Rightarrow> invoice_row \<Rightarrow> invoice_row \<Rightarrow> invoice_row" where
  "checkout_invoice p i r = r\<lparr>inv_provider := xc_provider p,
     inv_session := nullish (xc_session p) (inv_session i)\<rparr>"

definition checkout_sub :: "checkout_params \<Rightarrow> sub_row \<Rightarrow> sub_row \<Rightarrow> sub_row" where
  "checkout_sub p s r = r\<lparr>sub_provider := xc_provider p,
     sub_external := nullish (xc_sub_external p) (sub_external s)\<rparr>"

definition record_external_checkout :: "date \<Rightarrow> checkout_params \<Rightarrow> (db, unit) prog" where
  "record_external_checkout now p =
     bnd (gets (\<lambda>d. find_invoice d (xc_invoice p))) (\<lambda>found.
       case found of
         None \<Rightarrow> raise invoice_not_found
       | Some (i, s) \<Rightarrow>
           bnd (update_invoice (inv_id i) (checkout_invoice p i)) (\<lambda>_.
           if js_truthy_str (xc_sub_external p)
           then update_sub now (sub_id s) (checkout_sub p s)
           else ret ()))"

definition metadata_match :: "sync_invoice_params \<Rightarrow> db \<Rightarrow> string option" where
  "metadata_match p d =
     (if sy_allow_metadata p \<and> js_truthy_str (sy_metadata p) then
        (case find_unique (\<lambda>r. Some (inv_id r) = sy_metadata p) (invoices d) of
           None \<Rightarrow> None
         | Some i \<Rightarrow>
             if \<not> js_truthy_str (inv_external i) \<or> inv_external i = Some (sy_external p)
             then Some (inv_id i) else None)
      else None)"

definition external_invoice :: "date \<Rightarrow> string \<Rightarrow> sync_invoice_params \<Rightarrow> sub_row \<Rightarrow> invoice_row" where
  "external_invoice now iid p s =
     (new_invoice now iid (sub_id s) (sy_provider p) (sy_amount p) (sy_currency p) (sy_start p) (sy_end p))
       \<lparr>inv_session := sy_session p, inv_external := Some (sy_external p)\<rparr>"

definition resolve_invoice_for_external_sync ::
  "date \<Rightarrow> string \<Rightarrow> sync_invoice_params \<Rightarrow> (db, string) prog" where
  "resolve_invoice_for_external_sync now iid p =
     bnd (gets (\<lambda>d. find_invoice_by_external d (sy_external p))) (\<lambda>found.
       case found of
         Some i \<Rightarrow> ret (inv_id i)
       | None \<Rightarrow>
           bnd (gets (metadata_match p)) (\<lambda>by_metadata.
             case by_metadata of
               Some x \<Rightarrow> ret x
             | None \<Rightarrow>
                 if \<not> js_truthy_str (sy_sub_external p) then raise subscription_not_found
                 else
                   bnd (gets (\<lambda>d. find_sub_by_external d (the (sy_sub_external p)))) (\<lambda>sub.
                     case sub of
                       None \<Rightarrow> raise subscription_not_found
                     | Some s \<Rightarrow>
                         bnd (create_invoice (external_invoice now iid p s)) (\<lambda>_. ret iid))))"

text \<open>A field that is \<open>undefined\<close> in the data of an update keeps the column.\<close>

definition draft_invoice :: "sync_invoice_params \<Rightarrow> invoice_row \<Rightarrow> invoice_row \<Rightarrow> invoice_row" where
  "draft_invoice p i r =
     (let keep = inv_status i \<noteq> IDraft in
      r\<lparr>inv_provider := sy_provider p,
        inv_session := nullish (sy_session p) (inv_session r),
        inv_external := Some (sy_external p), inv_amount := sy_amount p, inv_currency := sy_currency p,
        inv_status := (if keep then inv_status i else IDraft),
        inv_attempts := (if keep then inv_attempts i
          else (case sy_attempts p of Some n \<Rightarrow> n | None \<Rightarrow> 0)),
        inv_next_attempt := (if keep then inv_next_attempt i else sy_next p),
        inv_start := sy_start p, inv_end := sy_end p\<rparr>)"

definition sync_mark_params :: "string \<Rightarrow> sync_invoice_params \<Rightarrow> mark_params" where
  "sync_mark_params iid p = \<lparr>mk_invoice = iid, mk_provider = sy_provider p, mk_session = sy_session p,
     mk_external = Some (sy_external p), mk_sub_external = sy_sub_external p, mk_attempts = sy_attempts p\<rparr>"

definition sync_fail_params :: "string \<Rightarrow> sync_invoice_params \<Rightarrow> fail_params" where
  "sync_fail_params iid p = \<lparr>mk_invoice = iid, mk_provider = sy_provider p, mk_session = sy_session p,
     mk_external = Some (sy_external p), mk_sub_external = sy_sub_external p, mk_attempts = sy_attempts p,
     fl_status = Some (sy_status p), fl_next = sy_next p\<rparr>"

definition sync_invoice_from_external ::
  "billing_config \<Rightarrow> date \<Rightarrow> string \<Rightarrow> sync_invoice_params \<Rightarrow> (db, string) prog" where
  "sync_invoice_from_external cfg now new_id p =
     bnd (resolve_invoice_for_external_sync now new_id p) (\<lambda>iid.
     bnd (gets (\<lambda>d. find_unique (\<lambda>r. inv_id r = iid) (invoices d))) (\<lambda>current.
       case current of
         None \<Rightarrow> raise invoice_not_found
       | Some i \<Rightarrow>
           if sy_status p = IDraft
           then bnd (update_invoice iid (draft_invoice p i)) (\<lambda>_. ret iid)
           else if sy_status p = IPaid
           then bnd (mark_invoice_paid now (sync_mark_params iid p)) (\<lambda>_. ret iid)
           else bnd (mark_invoice_failed cfg now (sync_fail_params iid p)) (\<lambda>_. ret iid)))"

definition canceled_sub :: "sub_row \<Rightarrow> sub_row" where
  "canceled_sub r = r\<lparr>sub_status := CANCELED, sub_grace := None, sub_cancel := False\<rparr>"

definition mark_subscription_canceled_by_external_id :: "date \<Rightarrow> string \<Rightarrow> (db, unit) prog" where
  "mark_subscription_canceled_by_external_id now external =
     bnd (gets (\<lambda>d. find_sub_by_external d external)) (\<lambda>found.
       case found of
         None \<Rightarrow> raise subscription_not_found
       | Some s \<Rightarrow> update_sub now (sub_id s) canceled_sub)"

definition or_else :: "'a option \<Rightarrow> 'a \<Rightarrow> 'a" where
  "or_else v x = (case v of Some y \<Rightarrow> y | None \<Rightarrow> x)"

definition synced_sub :: "billing_config \<Rightarrow> date \<Rightarrow> sync_sub_params \<Rightarrow> sub_row \<Rightarrow> sub_row \<Rightarrow> sub_row" where
  "synced_sub cfg now p s r = r\<lparr>sub_cancel := sp_cancel p,
     sub_status := or_else (sp_status p) (sub_status r),
     sub_grace := (case sp_status p of None \<Rightarrow> sub_grace r
       | Some st \<Rightarrow> resolve_grace_period_ends_at cfg now st
           (or_else (sp_start p) (sub_start s)) (or_else (sp_end p) (sub_end s)) (sub_grace s)),
     sub_start := or_else (sp_start p) (sub_start r),
     sub_end := or_else (sp_end p) (sub_end r)\<rparr>"

definition sync_subscription_from_external ::
  "billing_config \<Rightarrow> date \<Rightarrow> sync_sub_params \<Rightarrow> (db, unit) prog" where
  "sync_subscription_from_external cfg now p =
     bnd (gets (\<lambda>d. find_sub_by_external d (sp_external p))) (\<lambda>found.
       case found of
         None \<Rightarrow> raise subscription_not_found
       | Some s \<Rightarrow> update_sub now (sub_id s) (synced_sub cfg now p s))"

section \<open>The user's operations\<close>

definition cancel_requested :: "date option option \<Rightarrow> sub_row \<Rightarrow> sub_row" where
  "cancel_requested pend r = r\<lparr>sub_cancel := True, sub_end := or_else pend (sub_end r)\<rparr>"

definition cancel_subscription :: "billing_env \<Rightarrow> date \<Rightarrow> string \<Rightarrow> auth_user \<Rightarrow> (db, string) prog" where
  "cancel_subscription env now sid user =
     bnd (gets (\<lambda>d. find_unique (\<lambda>s. sub_id s = sid) (subs d))) (\<lambda>found.
       case found of
         None \<Rightarrow> raise subscription_not_found
       | Some s \<Rightarrow>
           if au_role user \<noteq> ADMIN \<and> sub_user s \<noteq> au_id user
           then raise (sub_app_error NOT_OWNER ''NOT_OWNER'' 403)
           else
             bnd (if sub_provider s = STRIPE \<and> js_truthy_str (sub_external s)
                  then bnd (pp_cancel (get_provider_for_stored_subscription env (sub_provider s))
                              (the (sub_external s))) (\<lambda>x. ret (cr_end x))
                  else ret None) (\<lambda>pend.
             bnd (update_sub now sid (cancel_requested pend)) (\<lambda>_. ret (sub_id s))))"

definition create_portal_session :: "billing_env \<Rightarrow> auth_user \<Rightarrow> (db, string) prog" where
  "create_portal_session env user = pp_portal (active_provider env) (au_id user) (au_email user)"

definition get_billing_config :: "billing_env \<Rightarrow> billing_provider \<times> bool" where
  "get_billing_config env =
     (pp_provider (active_provider env), pp_provider (active_provider env) = STRIPE)"

record checkout_status =
  st_session :: string
  st_invoice :: invoice_row
  st_sub :: sub_row
  st_title :: string
  st_plan :: string

definition get_checkout_status :: "string \<Rightarrow> auth_user \<Rightarrow> db \<Rightarrow> exn + checkout_status" where
  "get_checkout_status session user d =
     (case List.map_filter (\<lambda>i. case List.find (\<lambda>(s, p, r). sub_id s = inv_sub i) (sub_joins d) of
             None \<Rightarrow> None
           | Some (s, p, r) \<Rightarrow>
               if inv_session i = Some session \<and> sub_user s = au_id user then Some (i, s, p, r) else None)
           (invoices d) of
        [] \<Rightarrow> Inl (not_found_error CHECKOUT_SESSION_NOT_FOUND ''CHECKOUT_SESSION_NOT_FOUND'')
      | (i, s, p, r) # _ \<Rightarrow> Inr \<lparr>st_session = session, st_invoice = i, st_sub = s, st_title = prod_title r,
                               st_plan = plan_name p\<rparr>)"

record subscription_dto =
  dto_sub :: sub_row
  dto_external :: bool
  dto_plan :: plan_row
  dto_product :: product_row
  dto_latest :: "invoice_row option"
  dto_invoices :: "invoice_row list"

definition subscription_dto_of :: "db \<Rightarrow> sub_row \<times> plan_row \<times> product_row \<Rightarrow> subscription_dto" where
  "subscription_dto_of d x = (case x of (s, p, r) \<Rightarrow>
     let recent = take 5 (find_many (\<lambda>i. - inv_created i) (\<lambda>i. inv_sub i = sub_id s) (invoices d))
     in \<lparr>dto_sub = s, dto_external = js_truthy_str (sub_external s), dto_plan = p, dto_product = r,
         dto_latest = (case recent of [] \<Rightarrow> None | i # _ \<Rightarrow> Some i), dto_invoices = recent\<rparr>)"

definition list_user_subscriptions :: "auth_user \<Rightarrow> db \<Rightarrow> subscription_dto list" where
  "list_user_subscriptions user d =
     map (subscription_dto_of d)
       (find_many (\<lambda>(s, p, r). - sub_created s) (\<lambda>(s, p, r). sub_user s = au_id user) (sub_joins d))"

section \<open>The shape of the marking operations\<close>

text \<open>
  Paying and failing an invoice have one shape: nothing for an unknown or an ignored invoice,
  else the invoice is written, then, unless it is an overage invoice, its subscription.
\<close>

definition mark_with ::
  "date \<Rightarrow> string \<Rightarrow> string option \<Rightarrow> (invoice_row \<Rightarrow> sub_row \<Rightarrow> invoice_row \<Rightarrow> invoice_row) \<Rightarrow>
   (invoice_row \<Rightarrow> sub_row \<Rightarrow> sub_row \<Rightarrow> sub_row) \<Rightarrow> (db, bool) prog" where
  "mark_with now iid external fi fs =
     bnd (gets (\<lambda>d. find_invoice d iid)) (\<lambda>found.
       case found of
         None \<Rightarrow> raise invoice_not_found
       | Some (i, s) \<Rightarrow>
           if settled_elsewhere i external then ret True
           else
             bnd (update_invoice (inv_id i) (fi i s)) (\<lambda>_.
             if inv_kind i = OVERAGE then ret False
             else bnd (update_sub now (sub_id s) (fs i s)) (\<lambda>_. ret False)))"

lemma mark_invoice_paid_eq:
  "mark_invoice_paid now p =
     mark_with now (mk_invoice p) (mk_external p) (\<lambda>i s. paid_invoice p i) (activated_sub p)"
  unfolding mark_invoice_paid_def mark_with_def by (rule refl)

lemma mark_invoice_failed_eq:
  "mark_invoice_failed cfg now p =
     mark_with now (mk_invoice p) (mk_external p) (failed_invoice cfg now p) (\<lambda>i s. past_due_sub cfg now p s)"
  unfolding mark_invoice_failed_def mark_with_def by (rule refl)

lemma mark_with_cases:
  assumes "mark_with now iid external fi fs d = (res, d')"
  obtains (missing) "find_invoice d iid = None" "res = Inl invoice_not_found" "d' = d"
  | (ignored) i s where "find_invoice d iid = Some (i, s)" "settled_elsewhere i external"
      "res = Inr True" "d' = d"
  | (refused) i s e where "find_invoice d iid = Some (i, s)" "res = Inl e" "d' = d"
      "update_invoice (inv_id i) (fi i s) d = (Inl e, d)"
  | (overage) i s where "find_invoice d iid = Some (i, s)" "\<not> settled_elsewhere i external"
      "res = Inr False" "inv_kind i = OVERAGE"
      "update_invoice (inv_id i) (fi i s) d = (Inr (), d')"
  | (half) i s e where "find_invoice d iid = Some (i, s)" "\<not> settled_elsewhere i external"
      "inv_kind i = SUBSCRIPTION" "res = Inl e"
      "update_invoice (inv_id i) (fi i s) d = (Inr (), d')"
      "update_sub now (sub_id s) (fs i s) d' = (Inl e, d')"
  | (both) i s d1 where "find_invoice d iid = Some (i, s)" "\<not> settled_elsewhere i external"
      "inv_kind i = SUBSCRIPTION" "res = Inr False"
      "update_invoice (inv_id i) (fi i s) d = (Inr (), d1)"
      "update_sub now (sub_id s) (fs i s) d1 = (Inr (), d')"
proof (cases "find_invoice d iid")
  case None
  then have "res = Inl invoice_not_found" "d' = d"
    using assms by (simp_all add: mark_with_def bnd_def gets_def raise_def)
  then show ?thesis by (rule missing [OF None])
next
  case (Some x)
  then obtain i s where f: "find_invoice d iid = Some (i, s)" by (cases x) auto
  show ?thesis
  proof (cases "settled_elsewhere i external")
    case True
    then have "res = Inr True" "d' = d"
      using assms f by (simp_all add: mark_with_def bnd_def gets_def ret_def)
    then show ?thesis by (rule ignored [OF f True])
  next
    case False
    obtain r1 d1 where u: "update_invoice (inv_id i) (fi i s) d = (r1, d1)" by (metis surj_pair)
    note run = assms [unfolded mark_with_def bnd_def gets_def] f False u
    show ?thesis
    proof (cases r1)
      case (Inl e)
      have "d1 = d" using u Inl by (cases rule: update_invoice_cases) auto
      moreover have "res = Inl e" "d' = d1" using run Inl by auto
      ultimately show ?thesis using refused [OF f, of e] u Inl by simp
    next
      case (Inr v)
      show ?thesis
      proof (cases "inv_kind i = OVERAGE")
        case True
        then have "res = Inr False" "d' = d1" using run Inr by (auto simp: ret_def)
        then show ?thesis using overage [OF f False] True u Inr by simp
      next
        case kind: False
        then have k: "inv_kind i = SUBSCRIPTION" by (cases "inv_kind i") auto
        obtain r2 d2 where w: "update_sub now (sub_id s) (fs i s) d1 = (r2, d2)" by (metis surj_pair)
        show ?thesis
        proof (cases r2)
          case (Inl e)
          have "d2 = d1" using w Inl by (cases rule: update_sub_cases) auto
          moreover have "res = Inl e" "d' = d2" using run Inr kind w Inl by auto
          ultimately show ?thesis using half [OF f False k, of e] u w Inl Inr by simp
        next
          case v2: (Inr v2)
          have "res = Inr False" "d' = d2" using run Inr kind w v2 by (auto simp: ret_def)
          then show ?thesis using both [OF f False k] u w v2 Inr by simp
        qed
      qed
    qed
  qed
qed

end
