(* ===== verification/BillingInvariant.thy ===== *)
theory BillingInvariant
  imports Subscriptions
begin

text \<open>
  The steps of \<open>SubscriptionsService\<close> as one relation over the database, in any order and with
  any answer of the Stripe client, and what holds in every state they reach: the tables stay
  well formed, a retry schedule only exists on a Stripe renewal that is past due, a grace period
  only on a past due subscription that has had a period. The lifecycle of a subscription is
  stated as an abstract machine that the steps refine.
\<close>

section \<open>The invariant\<close>

definition invoice_retry_ok :: "invoice_row \<Rightarrow> bool" where
  "invoice_retry_ok i \<longleftrightarrow> \<not> has_managed_retry_state (inv_retry i)
     \<or> (inv_kind i = SUBSCRIPTION \<and> inv_provider i = STRIPE \<and> inv_status i = IPastDue)"

definition sub_grace_ok :: "sub_row \<Rightarrow> bool" where
  "sub_grace_ok s \<longleftrightarrow> sub_grace s = None \<or> (sub_status s = PAST_DUE \<and> sub_start s \<noteq> None)"

definition billing_inv :: "db \<Rightarrow> bool" where
  "billing_inv d \<longleftrightarrow> billing_ok d \<and> list_all invoice_retry_ok (invoices d) \<and> list_all sub_grace_ok (subs d)"

lemma no_retry_state_clear [simp]: "\<not> has_managed_retry_state clear_managed_retry_state"
  by (simp add: has_managed_retry_state_def clear_managed_retry_state_def js_truthy_str_def)

lemma grace_only_past_due:
  "resolve_grace_period_ends_at cfg now st pstart pend existing \<noteq> None \<Longrightarrow> st = PAST_DUE \<and> pstart \<noteq> None"
  by (auto simp: resolve_grace_period_ends_at_def split: if_splits)

lemma list_all_update_invoice:
  assumes "update_invoice iid g d = (Inr (), d')" "billing_ok d" "list_all P (invoices d)"
    and "\<And>r. r \<in> set (invoices d) \<Longrightarrow> inv_id r = iid \<Longrightarrow> P (g r)"
  shows "list_all P (invoices d')"
  using assms(1)
proof (cases rule: update_invoice_cases)
  case (2 r rows)
  then show ?thesis using assms(3,4) by (auto simp: set_invoice_def list_all_iff)
qed simp

lemma list_all_update_sub:
  assumes "update_sub now sid g d = (Inr (), d')" "list_all Q (subs d)"
    and "\<And>r. r \<in> set (subs d) \<Longrightarrow> sub_id r = sid \<Longrightarrow> Q ((g r)\<lparr>sub_updated := now\<rparr>)"
  shows "list_all Q (subs d')"
  using assms(1)
proof (cases rule: update_sub_cases)
  case (2 r rows)
  then show ?thesis using assms(2,3) by (auto simp: set_sub_def list_all_iff)
qed simp

lemma update_invoice_subs: "update_invoice iid g d = (r, d') \<Longrightarrow> subs d' = subs d"
  by (erule update_invoice_cases) (auto simp: set_invoice_def)

lemma update_sub_invoices: "update_sub now sid g d = (r, d') \<Longrightarrow> invoices d' = invoices d"
  by (erule update_sub_cases) (auto simp: set_sub_def)

lemma row_by_id:
  assumes "billing_ok d" "i \<in> set (invoices d)" "r \<in> set (invoices d)" "inv_id r = inv_id i"
  shows "r = i"
  using col_unique_row [of "\<lambda>r. Some (inv_id r)" "invoices d" r i "inv_id i"] assms
  by (simp add: billing_ok_def)

lemma sub_by_id:
  assumes "billing_ok d" "s \<in> set (subs d)" "r \<in> set (subs d)" "sub_id r = sub_id s"
  shows "r = s"
  using col_unique_row [of "\<lambda>r. Some (sub_id r)" "subs d" r s "sub_id s"] assms
  by (simp add: billing_ok_def)

text \<open>An invoice write of the service keeps the invariant if the written row has it.\<close>

lemma update_invoice_inv:
  assumes "update_invoice iid g d = (res, d')" "billing_inv d" "\<And>r. inv_sub (g r) = inv_sub r"
    and "\<And>r. r \<in> set (invoices d) \<Longrightarrow> inv_id r = iid \<Longrightarrow> invoice_retry_ok (g r)"
  shows "billing_inv d'"
proof (cases res)
  case (Inl e)
  then have "d' = d" using assms(1) update_invoice_Inl by blast
  then show ?thesis using assms(2) by simp
next
  case (Inr u)
  then have u: "update_invoice iid g d = (Inr (), d')" using assms(1) by simp
  have b: "billing_ok d" "list_all invoice_retry_ok (invoices d)" "list_all sub_grace_ok (subs d)"
    using assms(2) by (simp_all add: billing_inv_def)
  show ?thesis
    unfolding billing_inv_def update_invoice_subs [OF u]
    using update_invoice_ok [OF u b(1) assms(3)] list_all_update_invoice [OF u b(1,2) assms(4)] b(3) by blast
qed

lemma update_sub_inv:
  assumes "update_sub now sid g d = (res, d')" "billing_inv d" "\<And>r. sub_id (g r) = sub_id r"
    and "\<And>r. r \<in> set (subs d) \<Longrightarrow> sub_id r = sid \<Longrightarrow> sub_grace_ok (g r)"
  shows "billing_inv d'"
proof (cases res)
  case (Inl e)
  then have "d' = d" using assms(1) update_sub_Inl by blast
  then show ?thesis using assms(2) by simp
next
  case (Inr u)
  then have u: "update_sub now sid g d = (Inr (), d')" using assms(1) by simp
  have b: "billing_ok d" "list_all invoice_retry_ok (invoices d)" "list_all sub_grace_ok (subs d)"
    using assms(2) by (simp_all add: billing_inv_def)
  have "list_all sub_grace_ok (subs d')"
    by (rule list_all_update_sub [OF u b(3)]) (use assms(4) in \<open>simp add: sub_grace_ok_def\<close>)
  then show ?thesis
    unfolding billing_inv_def update_sub_invoices [OF u]
    using update_sub_ok [OF u b(1) assms(3)] b(2) by blast
qed

lemma mark_with_inv:
  assumes "mark_with now iid external fi fs d = (res, d')" "billing_inv d"
    and fi: "\<And>i s r. inv_sub (fi i s r) = inv_sub r" "\<And>i s. invoice_retry_ok i \<Longrightarrow> invoice_retry_ok (fi i s i)"
    and fs: "\<And>i s r. sub_id (fs i s r) = sub_id r" "\<And>i s. sub_grace_ok (fs i s s)"
  shows "billing_inv d'"
proof -
  have b: "billing_ok d" "list_all invoice_retry_ok (invoices d)" using assms(2) by (simp_all add: billing_inv_def)
  have inv1: "billing_inv d1" if "find_invoice d iid = Some (i, s)" "update_invoice (inv_id i) (fi i s) d = (r1, d1)" for i s r1 d1
  proof (rule update_invoice_inv [OF that(2) assms(2) fi(1)])
    fix r assume "r \<in> set (invoices d)" "inv_id r = inv_id i"
    then have "r = i" using row_by_id [OF b(1) find_invoice_row(1) [OF that(1)]] by blast
    then show "invoice_retry_ok (fi i s r)"
      using fi(2) b(2) find_invoice_row(1) [OF that(1)] by (auto simp: list_all_iff)
  qed
  have inv2: "billing_inv d2" if "find_invoice d iid = Some (i, s)" "update_invoice (inv_id i) (fi i s) d = (Inr (), d1)"
    "update_sub now (sub_id s) (fs i s) d1 = (r2, d2)" for i s d1 r2 d2
  proof (rule update_sub_inv [OF that(3) inv1 [OF that(1,2)] fs(1)])
    fix r assume r: "r \<in> set (subs d1)" "sub_id r = sub_id s"
    have "s \<in> set (subs d1)" "billing_ok d1"
      using find_invoice_row(3) [OF that(1)] update_invoice_subs [OF that(2)] inv1 [OF that(1,2)]
      by (simp_all add: billing_inv_def)
    then have "r = s" using sub_by_id r by blast
    then show "sub_grace_ok (fs i s r)" using fs(2) by simp
  qed
  show ?thesis using assms(1)
  proof (cases rule: mark_with_cases)
    case (overage i s) then show ?thesis using inv1 by blast
  next
    case (half i s e) then show ?thesis using inv1 by blast
  next
    case (both i s d1) then show ?thesis using inv2 by blast
  qed (use assms(2) in auto)
qed

text \<open>Marking keeps the tables well formed.\<close>

lemma mark_with_billing_ok:
  assumes "mark_with now iid external fi fs d = (res, d')" "billing_ok d"
    and "\<And>i s r. inv_sub (fi i s r) = inv_sub r" "\<And>i s r. sub_id (fs i s r) = sub_id r"
  shows "billing_ok d'"
  using assms(1)
proof (cases rule: mark_with_cases)
  case (overage i s)
  show ?thesis by (rule update_invoice_ok [OF overage(5) assms(2,3)])
next
  case (half i s e)
  show ?thesis by (rule update_invoice_ok [OF half(5) assms(2,3)])
next
  case (both i s d1)
  show ?thesis by (rule update_sub_ok [OF both(6) update_invoice_ok [OF both(5) assms(2,3)] assms(4)])
qed (use assms(2) in simp_all)

lemma mark_billing_ok:
  "mark_invoice_paid now mp d = (r, d') \<Longrightarrow> billing_ok d \<Longrightarrow> billing_ok d'"
  "mark_invoice_failed cfg now fp d = (r, d') \<Longrightarrow> billing_ok d \<Longrightarrow> billing_ok d'"
  unfolding mark_invoice_paid_eq mark_invoice_failed_eq
  by (erule mark_with_billing_ok, assumption, simp_all add: paid_invoice_def failed_invoice_def
      activated_sub_def past_due_sub_def)+

lemma mark_invoice_paid_inv:
  assumes "mark_invoice_paid now p d = (res, d')" "billing_inv d"
  shows "billing_inv d'"
  using assms unfolding mark_invoice_paid_eq
  by (rule mark_with_inv) (simp_all add: paid_invoice_def activated_sub_def invoice_retry_ok_def sub_grace_ok_def)

lemma failed_invoice_retry_ok:
  assumes "invoice_retry_ok i"
  shows "invoice_retry_ok (failed_invoice cfg now p i s i)"
  using assms
  by (auto simp: failed_invoice_def invoice_retry_ok_def resolve_managed_retry_state_def
      should_use_managed_renewal_retry_def split: if_splits)

lemma mark_invoice_failed_inv:
  assumes "mark_invoice_failed cfg now p d = (res, d')" "billing_inv d"
  shows "billing_inv d'"
  using assms unfolding mark_invoice_failed_eq
proof (rule mark_with_inv)
  show "invoice_retry_ok (failed_invoice cfg now p i s i)" if "invoice_retry_ok i" for i s
    using that by (rule failed_invoice_retry_ok)
  show "sub_grace_ok (past_due_sub cfg now p s s)" for s
    using grace_only_past_due [of cfg now PAST_DUE "sub_start s" "sub_end s" "sub_grace s"]
    unfolding past_due_sub_def sub_grace_ok_def by (simp del: not_None_eq) blast
qed (simp_all add: failed_invoice_def past_due_sub_def)

section \<open>The other operations\<close>

lemma record_external_checkout_inv:
  assumes "record_external_checkout now p d = (res, d')" "billing_inv d" "xc_provider p = STRIPE"
  shows "billing_inv d'"
proof (cases "find_invoice d (xc_invoice p)")
  case None
  then show ?thesis using assms by (simp add: record_external_checkout_def bnd_def gets_def raise_def)
next
  case (Some x)
  then obtain i s where f: "find_invoice d (xc_invoice p) = Some (i, s)" by (cases x) auto
  obtain r1 d1 where u: "update_invoice (inv_id i) (checkout_invoice p i) d = (r1, d1)" by (metis surj_pair)
  have "list_all invoice_retry_ok (invoices d)" using assms(2) by (simp add: billing_inv_def)
  then have i1: "billing_inv d1"
    by (intro update_invoice_inv [OF u assms(2)])
      (auto simp: checkout_invoice_def invoice_retry_ok_def list_all_iff assms(3))
  show ?thesis
  proof (cases r1)
    case (Inl e)
    then show ?thesis using assms(1) f u i1 by (simp add: record_external_checkout_def bnd_def gets_def)
  next
    case (Inr v)
    have run: "(if js_truthy_str (xc_sub_external p) then update_sub now (sub_id s) (checkout_sub p s)
        else ret ()) d1 = (res, d')"
      using assms(1) f u Inr by (simp add: record_external_checkout_def bnd_def gets_def)
    show ?thesis
    proof (cases "js_truthy_str (xc_sub_external p)")
      case True
      then have w: "update_sub now (sub_id s) (checkout_sub p s) d1 = (res, d')" using run by simp
      have "list_all sub_grace_ok (subs d1)" using i1 by (simp add: billing_inv_def)
      then show ?thesis
        by (intro update_sub_inv [OF w i1]) (auto simp: checkout_sub_def sub_grace_ok_def list_all_iff)
    next
      case False
      then show ?thesis using run i1 by (simp add: ret_def)
    qed
  qed
qed

lemma create_invoice_inv:
  assumes "create_invoice r d = (res, d')" "billing_inv d" "invoice_retry_ok r"
  shows "billing_inv d'"
proof -
  have b: "billing_ok d'" using create_invoice_ok [OF assms(1)] assms(2) by (simp add: billing_inv_def)
  show ?thesis using assms(1)
    by (cases rule: create_invoice_cases) (use assms(2,3) b in \<open>auto simp: billing_inv_def\<close>)
qed

lemma create_sub_inv:
  assumes "create_sub r d = (res, d')" "billing_inv d" "sub_grace_ok r"
  shows "billing_inv d'"
proof -
  have b: "billing_ok d'" using create_sub_ok [OF assms(1)] assms(2) by (simp add: billing_inv_def)
  show ?thesis using assms(1)
    by (cases rule: create_sub_cases) (use assms(2,3) b in \<open>auto simp: billing_inv_def\<close>)
qed

lemma new_invoice_retry_ok: "invoice_retry_ok (new_invoice now iid sid pr a c ps pe)"
  by (simp add: invoice_retry_ok_def new_invoice_def)

lemma external_invoice_retry_ok: "invoice_retry_ok (external_invoice now iid p s)"
  by (simp add: invoice_retry_ok_def new_invoice_def external_invoice_def)

text \<open>A resolution either finds an invoice and writes nothing, or creates one.\<close>

lemma resolve_external_cases:
  assumes "resolve_invoice_for_external_sync now nid p d = (res, d')"
  obtains "d' = d" | s r where "create_invoice (external_invoice now nid p s) d = (r, d')"
    "find_invoice_by_external d (sy_external p) = None"
    "find_sub_by_external d (the (sy_sub_external p)) = Some s"
    "res = (case r of Inl e \<Rightarrow> Inl e | Inr u \<Rightarrow> Inr nid)"
proof (cases "find_invoice_by_external d (sy_external p) = None \<and> metadata_match p d = None
    \<and> js_truthy_str (sy_sub_external p) \<and> find_sub_by_external d (the (sy_sub_external p)) \<noteq> None")
  case True
  then obtain s where s: "find_sub_by_external d (the (sy_sub_external p)) = Some s" by auto
  obtain r d1 where c: "create_invoice (external_invoice now nid p s) d = (r, d1)" by (metis surj_pair)
  have "res = (case r of Inl e \<Rightarrow> Inl e | Inr u \<Rightarrow> Inr nid)" "d' = d1"
    using assms True s c
    by (auto simp: resolve_invoice_for_external_sync_def bnd_def gets_def ret_def split: sum.splits)
  then show ?thesis using that(2) c s True by blast
next
  case False
  then have "d' = d" using assms
    by (auto simp: resolve_invoice_for_external_sync_def bnd_def gets_def ret_def raise_def
        split: option.splits if_splits)
  then show ?thesis by (rule that(1))
qed

lemma resolve_external_inv:
  assumes "resolve_invoice_for_external_sync now nid p d = (res, d')" "billing_inv d"
  shows "billing_inv d'"
  using assms(1)
proof (cases rule: resolve_external_cases)
  case 1
  then show ?thesis using assms(2) by simp
next
  case (2 s r)
  then show ?thesis using create_invoice_inv [OF _ assms(2) external_invoice_retry_ok] by blast
qed

lemma draft_invoice_retry_ok:
  assumes "invoice_retry_ok i" "sy_provider p = STRIPE"
  shows "invoice_retry_ok (draft_invoice p i i)"
  using assms by (auto simp: draft_invoice_def invoice_retry_ok_def Let_def)

lemma sync_invoice_from_external_inv:
  assumes "sync_invoice_from_external cfg now nid p d = (res, d')" "billing_inv d" "sy_provider p = STRIPE"
  shows "billing_inv d'"
proof -
  obtain r1 d1 where r: "resolve_invoice_for_external_sync now nid p d = (r1, d1)" by (metis surj_pair)
  have i1: "billing_inv d1" by (rule resolve_external_inv [OF r assms(2)])
  show ?thesis
  proof (cases r1)
    case (Inl e)
    then show ?thesis using assms(1) r i1 by (simp add: sync_invoice_from_external_def bnd_def)
  next
    case (Inr iid)
    show ?thesis
    proof (cases "find_unique (\<lambda>r. inv_id r = iid) (invoices d1)")
      case None
      then show ?thesis using assms(1) r i1 Inr
        by (simp add: sync_invoice_from_external_def bnd_def gets_def raise_def)
    next
      case (Some i)
      have iin: "i \<in> set (invoices d1)" "inv_id i = iid" using find_unique_Some [OF Some] by auto
      consider "sy_status p = IDraft" "\<exists>r2. update_invoice iid (draft_invoice p i) d1 = (r2, d')"
        | "\<exists>r2. mark_invoice_paid now (sync_mark_params iid p) d1 = (r2, d')"
        | "\<exists>r2. mark_invoice_failed cfg now (sync_fail_params iid p) d1 = (r2, d')"
        using assms(1) r Inr Some
        by (auto simp: sync_invoice_from_external_def bnd_def gets_def ret_def
            split: if_splits prod.splits sum.splits)
      then show ?thesis
      proof cases
        case 1
        then obtain r2 where u: "update_invoice iid (draft_invoice p i) d1 = (r2, d')" by blast
        have ok: "billing_ok d1" "invoice_retry_ok i"
          using i1 iin by (auto simp: billing_inv_def list_all_iff)
        show ?thesis
          by (rule update_invoice_inv [OF u i1])
            (use row_by_id [OF ok(1) iin(1)] draft_invoice_retry_ok [OF ok(2) assms(3)] iin(2) in
              \<open>auto simp: draft_invoice_def Let_def\<close>)
      next
        case 2
        then show ?thesis using mark_invoice_paid_inv i1 by blast
      next
        case 3
        then show ?thesis using mark_invoice_failed_inv i1 by blast
      qed
    qed
  qed
qed

lemma mark_canceled_inv:
  assumes "mark_subscription_canceled_by_external_id now x d = (res, d')" "billing_inv d"
  shows "billing_inv d'"
proof (cases "find_sub_by_external d x")
  case None
  then show ?thesis using assms
    by (simp add: mark_subscription_canceled_by_external_id_def bnd_def gets_def raise_def)
next
  case (Some s)
  then have u: "update_sub now (sub_id s) canceled_sub d = (res, d')"
    using assms(1) by (simp add: mark_subscription_canceled_by_external_id_def bnd_def gets_def)
  show ?thesis by (rule update_sub_inv [OF u assms(2)]) (simp_all add: canceled_sub_def sub_grace_ok_def)
qed

lemma synced_sub_grace_ok:
  assumes "sp_status p \<noteq> None"
  shows "sub_grace_ok (synced_sub cfg now p s s)"
proof -
  obtain st where st: "sp_status p = Some st" using assms by auto
  show ?thesis
    using grace_only_past_due [of cfg now st "or_else (sp_start p) (sub_start s)"
        "or_else (sp_end p) (sub_end s)" "sub_grace s"]
    unfolding synced_sub_def sub_grace_ok_def st by (simp add: or_else_def del: not_None_eq) blast
qed

lemma find_sub_by_external_row:
  "find_sub_by_external d x = Some s \<Longrightarrow> s \<in> set (subs d) \<and> sub_external s = Some x"
  unfolding find_sub_by_external_def by (drule find_unique_Some) simp

lemma sync_subscription_inv:
  assumes "sync_subscription_from_external cfg now p d = (res, d')" "billing_inv d" "sp_status p \<noteq> None"
  shows "billing_inv d'"
proof (cases "find_sub_by_external d (sp_external p)")
  case None
  then show ?thesis using assms
    by (simp add: sync_subscription_from_external_def bnd_def gets_def raise_def)
next
  case (Some s)
  then have u: "update_sub now (sub_id s) (synced_sub cfg now p s) d = (res, d')"
    using assms(1) by (simp add: sync_subscription_from_external_def bnd_def gets_def)
  have b: "billing_ok d" using assms(2) by (simp add: billing_inv_def)
  have sin: "s \<in> set (subs d)" using find_sub_by_external_row [OF Some] by simp
  show ?thesis
  proof (rule update_sub_inv [OF u assms(2)])
    show "sub_id (synced_sub cfg now p s r) = sub_id r" for r by (simp add: synced_sub_def)
    fix r assume "r \<in> set (subs d)" "sub_id r = sub_id s"
    then have "r = s" using sub_by_id [OF b sin] by blast
    then show "sub_grace_ok (synced_sub cfg now p s r)" using synced_sub_grace_ok [OF assms(3)] by simp
  qed
qed

lemma billing_inv_frame:
  "billing_inv d \<Longrightarrow> subs d' = subs d \<Longrightarrow> invoices d' = invoices d \<Longrightarrow> billing_inv d'"
  by (simp add: billing_inv_def billing_ok_def)

lemma customers_only_inv: "customers_only d d' \<Longrightarrow> billing_inv d \<Longrightarrow> billing_inv d'"
  by (erule billing_inv_frame) (simp_all add: customers_only_tables)

text \<open>The providers as the module wires them, with a Stripe client that may answer anything.\<close>

definition env_of :: "billing_config \<Rightarrow> int \<Rightarrow> stripe_config \<Rightarrow> stripe_sdk \<Rightarrow> billing_env" where
  "env_of cfg port scfg sdk = \<lparr>be_cfg = cfg, be_mock = mock_payment_provider port,
     be_stripe = stripe_payment_provider scfg sdk\<rparr>"

lemma active_provider_contract: "payment_contract (active_provider (env_of cfg port scfg sdk))"
  by (simp add: active_provider_def env_of_def mock.payment_contract_axioms stripe.payment_contract_axioms)

lemma stored_provider_contract:
  "payment_contract (get_provider_for_stored_subscription (env_of cfg port scfg sdk) pr)"
  by (simp add: get_provider_for_stored_subscription_def env_of_def mock.payment_contract_axioms
      stripe.payment_contract_axioms)

lemma tx_state:
  assumes "tx m s = (r, s')"
  obtains "s' = s" "\<exists>e. r = Inl e" | x where "m s = (Inr x, s')" "r = Inr x"
  using assms by (auto simp: tx_def split: prod.splits sum.splits)

text \<open>The transaction of \<open>subscribe\<close> adds both rows or changes nothing.\<close>

lemma subscribe_transaction_cases:
  assumes "subscribe_transaction env now aborted sid iid user p d = (res, d')"
  obtains e where "res = Inl e" "d' = d"
  | d1 where "res = Inr ()" "open_subscription d (au_id user) (plan_product p) = None"
      "create_sub (new_subscription now sid (au_id user) (plan_id p)
         (pp_provider (active_provider env))) d = (Inr (), d1)"
      "create_invoice (new_invoice now iid sid (pp_provider (active_provider env))
         (plan_price_cents p) (plan_currency p) (fst (get_invoice_period now))
         (snd (get_invoice_period now))) d1 = (Inr (), d')"
  using assms unfolding subscribe_transaction_def
proof (cases rule: tx_state)
  case 1
  then show ?thesis using that(1) by blast
next
  case (2 x)
  then show ?thesis using that(2)
    by (auto simp: bnd_Inr gets_def raise_def may_fail_def ret_def split: option.splits)
qed

lemma subscribe_transaction_inv:
  assumes "subscribe_transaction env now aborted sid iid user p d = (res, d')" "billing_inv d"
  shows "billing_inv d'"
  using assms(1)
proof (cases rule: subscribe_transaction_cases)
  case (1 e)
  then show ?thesis using assms(2) by simp
next
  case (2 d1)
  have "billing_inv d1"
    by (rule create_sub_inv [OF 2(3) assms(2)]) (simp add: sub_grace_ok_def new_subscription_def)
  then show ?thesis using create_invoice_inv [OF 2(4)] new_invoice_retry_ok by blast
qed

lemma set_session_inv:
  assumes "update_invoice iid (set_session x) d = (res, d')" "billing_inv d"
  shows "billing_inv d'"
proof -
  have "list_all invoice_retry_ok (invoices d)" using assms(2) by (simp add: billing_inv_def)
  then show ?thesis
    by (intro update_invoice_inv [OF assms])
      (auto simp: set_session_def invoice_retry_ok_def list_all_iff)
qed

lemma start_payment_cases:
  assumes "start_payment env sid iid user p r d = (res, d')" "payment_contract (active_provider env)"
  obtains (refused) e where "res = Inl e" "customers_only d d'"
  | (unrecorded) e d1 x where "res = Inl e" "customers_only d d1"
      "update_invoice iid (set_session x) d1 = (Inl e, d')"
  | (plain) link where "res = Inr link" "customers_only d d'"
  | (recorded) link d1 x where "res = Inr link" "customers_only d d1"
      "update_invoice iid (set_session x) d1 = (Inr (), d')"
proof -
  obtain r1 d1 where c: "pp_create (active_provider env) (payment_params_of env sid iid user p r) d = (r1, d1)"
    by (metis surj_pair)
  have fr: "customers_only d d1" by (rule payment_contract.create_frame [OF assms(2) c])
  show ?thesis
  proof (cases r1)
    case (Inl e)
    then show ?thesis using assms(1) c fr refused [of e] by (simp add: start_payment_def bnd_def)
  next
    case (Inr pay)
    show ?thesis
    proof (cases "js_truthy_str (pr_external pay)")
      case False
      then show ?thesis using assms(1) c fr Inr plain [of "pr_link pay"]
        by (simp add: start_payment_def bnd_def ret_def)
    next
      case True
      obtain r2 d2 where u: "update_invoice iid (set_session (pr_external pay)) d1 = (r2, d2)" by (metis surj_pair)
      show ?thesis
      proof (cases r2)
        case (Inl e)
        then have "res = Inl e" "d' = d2" using assms(1) c True \<open>r1 = Inr pay\<close> u
          by (simp_all add: start_payment_def bnd_def)
        then show ?thesis using unrecorded [OF _ fr] u Inl by simp
      next
        case (Inr v)
        then have "res = Inr (pr_link pay)" "d' = d2" using assms(1) c True \<open>r1 = Inr pay\<close> u
          by (simp_all add: start_payment_def bnd_def ret_def)
        then show ?thesis using recorded [OF _ fr] u Inr by simp
      qed
    qed
  qed
qed

lemma start_payment_inv:
  assumes "start_payment env sid iid user p r d = (res, d')" "payment_contract (active_provider env)"
    "billing_inv d"
  shows "billing_inv d'"
  using assms(1,2)
proof (cases rule: start_payment_cases)
  case (refused e) then show ?thesis using customers_only_inv assms(3) by blast
next
  case (unrecorded e d1 x) then show ?thesis using customers_only_inv assms(3) set_session_inv by blast
next
  case (plain link) then show ?thesis using customers_only_inv assms(3) by blast
next
  case (recorded link d1 x) then show ?thesis using customers_only_inv assms(3) set_session_inv by blast
qed

text \<open>What \<open>subscribe\<close> runs through.\<close>

lemma subscribe_cases:
  assumes "subscribe env now aborted sid iid pid user d = (res, d')"
  obtains (rejected) e where "res = Inl e" "d' = d"
  | (paying) p r d1 link where "subscribable d pid = Inr (p, r)"
      "subscribe_transaction env now aborted sid iid user p d = (Inr (), d1)"
      "start_payment env sid iid user p r d1 = (Inr link, d')" "res = Inr (sid, iid, link)"
  | (failed) p r d1 d2 e e' m where "subscribable d pid = Inr (p, r)"
      "subscribe_transaction env now aborted sid iid user p d = (Inr (), d1)"
      "start_payment env sid iid user p r d1 = (Inl e, d2)"
      "mark_invoice_failed (be_cfg env) now (fail_only iid (pp_provider (active_provider env))) d2 = (m, d')"
      "res = Inl e'" "(\<exists>b. m = Inr b) \<longrightarrow> e' = e"
proof (cases "subscribable d pid")
  case (Inl e)
  then show ?thesis using assms rejected [of e] by (simp add: subscribe_def bnd_def)
next
  case (Inr x)
  obtain p r where pr: "x = (p, r)" by (cases x)
  obtain r1 d1 where t: "subscribe_transaction env now aborted sid iid user p d = (r1, d1)" by (metis surj_pair)
  show ?thesis
  proof (cases r1)
    case (Inl e)
    then have "subscribe_transaction env now aborted sid iid user p d = (Inl e, d1)" using t by simp
    then have "d1 = d" by (cases rule: subscribe_transaction_cases) auto
    then show ?thesis using assms Inr pr t Inl rejected [of e] by (simp add: subscribe_def bnd_def)
  next
    case r1: (Inr u)
    obtain r2 d2 where s: "start_payment env sid iid user p r d1 = (r2, d2)" by (metis surj_pair)
    show ?thesis
    proof (cases r2)
      case (Inr link)
      have "res = Inr (sid, iid, link)" "d' = d2" using assms \<open>subscribable d pid = Inr x\<close> pr t r1 s Inr
        by (simp_all add: subscribe_def bnd_def try_catch_def ret_def)
      then show ?thesis using paying [of p r d1 link] \<open>subscribable d pid = Inr x\<close> pr t r1 s Inr by simp
    next
      case (Inl e)
      obtain m d3 where f: "mark_invoice_failed (be_cfg env) now
          (fail_only iid (pp_provider (active_provider env))) d2 = (m, d3)" by (metis surj_pair)
      have "d' = d3" "res = Inl (case m of Inl x \<Rightarrow> x | Inr b \<Rightarrow> e)"
        using assms \<open>subscribable d pid = Inr x\<close> pr t r1 s Inl f
        by (simp_all add: subscribe_def bnd_def try_catch_def ret_def raise_def split: sum.splits)
      moreover have "(\<exists>b. m = Inr b) \<longrightarrow> (case m of Inl x \<Rightarrow> x | Inr b \<Rightarrow> e) = e" by auto
      ultimately show ?thesis
        using failed [of p r d1 e d2 m "case m of Inl x \<Rightarrow> x | Inr b \<Rightarrow> e"]
          \<open>subscribable d pid = Inr x\<close> pr t r1 s Inl f by simp
    qed
  qed
qed

lemma subscribe_inv:
  assumes "subscribe env now aborted sid iid pid user d = (res, d')"
    "payment_contract (active_provider env)" "billing_inv d"
  shows "billing_inv d'"
  using assms(1)
proof (cases rule: subscribe_cases)
  case (rejected e)
  then show ?thesis using assms(3) by simp
next
  case (paying p r d1 link)
  then show ?thesis using subscribe_transaction_inv start_payment_inv assms(2,3) by blast
next
  case (failed p r d1 d2 e e' m)
  have "billing_inv d1" by (rule subscribe_transaction_inv [OF failed(2) assms(3)])
  then have "billing_inv d2" by (rule start_payment_inv [OF failed(3) assms(2)])
  then show ?thesis by (rule mark_invoice_failed_inv [OF failed(4)])
qed

lemma cancel_subscription_cases:
  assumes "cancel_subscription env now sid user d = (res, d')"
    and "\<And>pr. payment_contract (get_provider_for_stored_subscription env pr)"
  obtains (rejected) e where "res = Inl e" "d' = d"
  | (written) s pend r where "find_unique (\<lambda>s. sub_id s = sid) (subs d) = Some s"
      "au_role user = ADMIN \<or> sub_user s = au_id user"
      "update_sub now sid (cancel_requested pend) d = (r, d')"
      "res = (case r of Inl e \<Rightarrow> Inl e | Inr u \<Rightarrow> Inr sid)"
      "(sub_provider s \<noteq> STRIPE \<or> sub_external s = None) \<longrightarrow> pend = None"
proof (cases "find_unique (\<lambda>s. sub_id s = sid) (subs d)")
  case None
  then have "res = Inl subscription_not_found" "d' = d"
    using assms(1) by (simp_all add: cancel_subscription_def bnd_def gets_def raise_def)
  then show ?thesis by (rule rejected)
next
  case (Some s)
  have sid: "sub_id s = sid" using find_unique_Some [OF Some] by simp
  show ?thesis
  proof (cases "au_role user \<noteq> ADMIN \<and> sub_user s \<noteq> au_id user")
    case True
    then have "res = Inl (sub_app_error NOT_OWNER ''NOT_OWNER'' 403)" "d' = d"
      using assms(1) Some by (simp_all add: cancel_subscription_def bnd_def gets_def raise_def)
    then show ?thesis by (rule rejected)
  next
    case False
    let ?ask = "(if sub_provider s = STRIPE \<and> js_truthy_str (sub_external s)
        then bnd (pp_cancel (get_provider_for_stored_subscription env (sub_provider s))
                    (the (sub_external s))) (\<lambda>x. ret (cr_end x))
        else ret None) :: (db, date option option) prog"
    obtain r1 d1 where a: "?ask d = (r1, d1)" by (metis surj_pair)
    have d1: "d1 = d" using a
      by (auto simp: bnd_def ret_def split: if_splits prod.splits sum.splits
          dest: payment_contract.cancel_frame [OF assms(2)])
    show ?thesis
    proof (cases r1)
      case (Inl e)
      then show ?thesis using assms(1) Some False a d1 rejected [of e]
        by (simp add: cancel_subscription_def bnd_def gets_def)
    next
      case (Inr pend)
      obtain r2 d2 where u: "update_sub now sid (cancel_requested pend) d = (r2, d2)" by (metis surj_pair)
      have res: "d' = d2" "res = (case r2 of Inl e \<Rightarrow> Inl e | Inr u \<Rightarrow> Inr sid)"
        using assms(1) Some False a d1 Inr u sid
        by (simp_all add: cancel_subscription_def bnd_def gets_def ret_def split: sum.splits)
      have "(sub_provider s \<noteq> STRIPE \<or> sub_external s = None) \<longrightarrow> pend = None"
        using a Inr by (auto simp: ret_def js_truthy_str_def split: if_splits)
      then show ?thesis
        by (intro written [OF Some _ _ res(2)]) (use u res(1) False in auto)
    qed
  qed
qed

lemma cancel_subscription_inv:
  assumes "cancel_subscription env now sid user d = (res, d')"
    "\<And>pr. payment_contract (get_provider_for_stored_subscription env pr)" "billing_inv d"
  shows "billing_inv d'"
  using assms(1,2)
proof (cases rule: cancel_subscription_cases)
  case (rejected e)
  then show ?thesis using assms(3) by simp
next
  case (written s pend r)
  have "list_all sub_grace_ok (subs d)" using assms(3) by (simp add: billing_inv_def)
  then show ?thesis
    by (intro update_sub_inv [OF written(3) assms(3)])
      (auto simp: cancel_requested_def sub_grace_ok_def list_all_iff)
qed

end
