(* ===== verification/Lifecycle.thy ===== *)
theory Lifecycle
  imports BillingInvariant
begin

text \<open>
  The operations of \<open>SubscriptionsService\<close> as steps in any order, their invariant, and the
  lifecycle of a subscription as an abstract machine they refine.
\<close>

section \<open>Steps\<close>

text \<open>
  Each step is one call with any clock, any arguments its callers pass and any answers of the
  Stripe client; a call that throws is a step too, with what it had written. The last step is
  what other services do to other tables.
\<close>

inductive billing_step :: "billing_config \<Rightarrow> int \<Rightarrow> stripe_config \<Rightarrow> db \<Rightarrow> db \<Rightarrow> bool"
  for cfg port scfg where
  subscribes: "subscribe (env_of cfg port scfg sdk) now aborted sid iid pid user d = (r, d')
    \<Longrightarrow> billing_step cfg port scfg d d'"
| cancels: "cancel_subscription (env_of cfg port scfg sdk) now sid user d = (r2, d')
    \<Longrightarrow> billing_step cfg port scfg d d'"
| opens_portal: "create_portal_session (env_of cfg port scfg sdk) user d = (r2, d')
    \<Longrightarrow> billing_step cfg port scfg d d'"
| pays: "mark_invoice_paid now mp d = (r3, d') \<Longrightarrow> billing_step cfg port scfg d d'"
| fails: "mark_invoice_failed cfg now fp d = (r3, d') \<Longrightarrow> billing_step cfg port scfg d d'"
| checks_out: "record_external_checkout now xp d = (r4, d') \<Longrightarrow> xc_provider xp = STRIPE
    \<Longrightarrow> billing_step cfg port scfg d d'"
| syncs_invoice: "sync_invoice_from_external cfg now nid yp d = (r2, d') \<Longrightarrow> sy_provider yp = STRIPE
    \<Longrightarrow> billing_step cfg port scfg d d'"
| syncs_sub: "sync_subscription_from_external cfg now sp d = (r4, d') \<Longrightarrow> sp_status sp \<noteq> None
    \<Longrightarrow> billing_step cfg port scfg d d'"
| ends_sub: "mark_subscription_canceled_by_external_id now x d = (r4, d')
    \<Longrightarrow> billing_step cfg port scfg d d'"
| elsewhere: "subs d' = subs d \<Longrightarrow> invoices d' = invoices d \<Longrightarrow> billing_step cfg port scfg d d'"

inductive_cases billing_stepE: "billing_step cfg port scfg d d'"

lemma billing_step_inv:
  assumes "billing_step cfg port scfg d d'" "billing_inv d"
  shows "billing_inv d'"
  using assms
proof (induction rule: billing_step.induct)
  case (subscribes sdk now aborted sid iid pid user d r d')
  then show ?case using subscribe_inv active_provider_contract by blast
next
  case (cancels sdk now sid user d r2 d')
  then show ?case using cancel_subscription_inv stored_provider_contract by blast
next
  case (opens_portal sdk user d r2 d')
  then show ?case
    using payment_contract.portal_frame [OF active_provider_contract] customers_only_inv
    unfolding create_portal_session_def by blast
next
  case (elsewhere d' d)
  then show ?case using billing_inv_frame by blast
qed (blast intro: mark_invoice_paid_inv mark_invoice_failed_inv record_external_checkout_inv
    sync_invoice_from_external_inv sync_subscription_inv mark_canceled_inv)+

text \<open>C3: In every state the subscription operations can reach from an empty database, in any order,
  with failures half-way and any answers of Stripe: ids and the external subscription, invoice,
  checkout-session and overage-source references are unique, every invoice belongs to a stored
  subscription, a managed retry schedule is only on a Stripe renewal invoice that is past due,
  and a grace period only on a past due subscription that has had a period.\<close>

theorem billing_invariant:
  assumes "(billing_step cfg port scfg)\<^sup>*\<^sup>* empty_db d"
  shows "billing_ok d
    \<and> {i \<in> set (invoices d). has_managed_retry_state (inv_retry i)}
        \<subseteq> {i. inv_kind i = SUBSCRIPTION \<and> inv_provider i = STRIPE \<and> inv_status i = IPastDue}
    \<and> {s \<in> set (subs d). sub_grace s \<noteq> None} \<subseteq> {s. sub_status s = PAST_DUE \<and> sub_start s \<noteq> None}"
proof -
  have "billing_inv d"
    using assms
  proof (induction rule: rtranclp_induct)
    case base
    then show ?case by (simp add: billing_inv_def billing_ok_def empty_db_def)
  next
    case (step d d')
    then show ?case using billing_step_inv by blast
  qed
  then show ?thesis
    unfolding billing_inv_def list_all_iff invoice_retry_ok_def sub_grace_ok_def
    by (intro conjI subsetI) (elim conjE, assumption, auto)
qed

section \<open>The abstract lifecycle\<close>

record life =
  lf_status :: subscription_status
  lf_start :: "date option"
  lf_end :: "date option"
  lf_grace :: "date option"
  lf_cancel :: bool

definition life_of :: "sub_row \<Rightarrow> life" where
  "life_of s = \<lparr>lf_status = sub_status s, lf_start = sub_start s, lf_end = sub_end s,
     lf_grace = sub_grace s, lf_cancel = sub_cancel s\<rparr>"

definition lives :: "db \<Rightarrow> string \<Rightarrow> life option" where
  "lives d sid = map_option life_of (find_unique (\<lambda>s. sub_id s = sid) (subs d))"

text \<open>
  What may happen to a subscription: it is opened pending; a payment makes it active for a
  period and ends any grace; a failed payment makes it past due, with a grace period only if it
  has had a period, and never shorter than the one it had; a provider status replaces status,
  period and cancellation flag, with grace only when past due; it is canceled; a cancellation at
  the period end is requested. Nothing else changes.
\<close>

definition fresh_life :: life where
  "fresh_life = \<lparr>lf_status = PENDING, lf_start = None, lf_end = None, lf_grace = None, lf_cancel = False\<rparr>"

inductive life_step :: "int \<Rightarrow> (string \<Rightarrow> life option) \<Rightarrow> (string \<Rightarrow> life option) \<Rightarrow> bool"
  for days where
  opened: "L sid = None \<Longrightarrow> life_step days L (L(sid \<mapsto> fresh_life))"
| activated: "L sid = Some l \<Longrightarrow> life_step days L
    (L(sid \<mapsto> l\<lparr>lf_status := ACTIVE, lf_start := Some a, lf_end := Some b, lf_grace := None\<rparr>))"
| delinquent: "L sid = Some l \<Longrightarrow> (lf_start l = None \<or> days \<le> 0) = (g = None)
    \<Longrightarrow> (case (g, lf_grace l) of (Some new, Some old) \<Rightarrow> old \<le> new | _ \<Rightarrow> True)
    \<Longrightarrow> life_step days L (L(sid \<mapsto> l\<lparr>lf_status := PAST_DUE, lf_grace := g\<rparr>))"
| synced: "L sid = Some l \<Longrightarrow> st \<noteq> PAST_DUE \<longrightarrow> g = None \<Longrightarrow> life_step days L
    (L(sid \<mapsto> l\<lparr>lf_status := st, lf_start := a', lf_end := b', lf_grace := g, lf_cancel := c\<rparr>))"
| ended: "L sid = Some l \<Longrightarrow> life_step days L
    (L(sid \<mapsto> l\<lparr>lf_status := CANCELED, lf_grace := None, lf_cancel := False\<rparr>))"
| cancel_asked: "L sid = Some l \<Longrightarrow> life_step days L (L(sid \<mapsto> l\<lparr>lf_cancel := True, lf_end := b'\<rparr>))"

lemma lives_frame: "subs d' = subs d \<Longrightarrow> lives d' = lives d"
  by (simp add: lives_def fun_eq_iff)

lemma lives_update_sub:
  assumes "update_sub now sid g d = (Inr (), d')" "\<And>r. sub_id (g r) = sub_id r"
    and "find_unique (\<lambda>s. sub_id s = sid) (subs d) = Some s"
  shows "lives d' = (lives d)(sid \<mapsto> life_of (g s))"
  using assms(1)
proof (cases rule: update_sub_cases)
  case (2 r rows)
  let ?g = "\<lambda>r. (g r)\<lparr>sub_updated := now\<rparr>"
  have key: "sub_id (?g r) = sub_id r" for r by (simp add: assms(2))
  have rows: "subs d' = map (\<lambda>r. if sub_id r = sid then ?g r else r) (subs d)"
    unfolding 2(2) set_sub_def by simp
  have "lives d' k = ((lives d)(sid \<mapsto> life_of (g s))) k" for k
  proof (cases "k = sid")
    case True
    have "find_unique (\<lambda>r. sub_id r = sid) (subs d') = Some (?g s)"
      unfolding rows find_map_same_key [of sub_id ?g, OF key] assms(3) by simp
    then show ?thesis by (simp add: lives_def True life_of_def)
  next
    case False
    have "find_unique (\<lambda>r. sub_id r = k) (subs d') = find_unique (\<lambda>r. sub_id r = k) (subs d)"
      unfolding rows by (rule find_map_other_key [of sub_id ?g, OF key False])
    then show ?thesis by (simp add: lives_def False)
  qed
  then show ?thesis by (rule ext)
qed simp

lemma lives_at:
  "find_unique (\<lambda>s. sub_id s = sid) (subs d) = Some s \<Longrightarrow> lives d sid = Some (life_of s)"
  by (simp add: lives_def)

lemma find_invoice_sub:
  assumes "find_invoice d iid = Some (i, s)"
  shows "find_unique (\<lambda>r. sub_id r = sub_id s) (subs d) = Some s"
proof -
  have "find_unique (\<lambda>r. sub_id r = inv_sub i) (subs d) = Some s"
    using assms by (auto simp: find_invoice_def sub_of_def split: option.splits)
  then show ?thesis using find_invoice_row(4) [OF assms] by simp
qed

lemma find_external_sub:
  assumes "billing_ok d" "find_sub_by_external d x = Some s"
  shows "find_unique (\<lambda>r. sub_id r = sub_id s) (subs d) = Some s"
  using find_unique_col [of "\<lambda>r. Some (sub_id r)" "subs d" s "sub_id s"]
    find_sub_by_external_row [OF assms(2)] assms(1)
  by (simp add: billing_ok_def)

text \<open>A subscription write that is an abstract step of its row is a step, and none if it is refused.\<close>

lemma update_sub_refines:
  assumes "update_sub now sid g d = (r, d')" "\<And>r. sub_id (g r) = sub_id r"
    and "find_unique (\<lambda>s. sub_id s = sid) (subs d) = Some s"
    and "life_step days (lives d) ((lives d)(sid \<mapsto> life_of (g s)))"
  shows "(life_step days)\<^sup>*\<^sup>* (lives d) (lives d')"
proof (cases r)
  case (Inl e)
  then have "d' = d" using assms(1) update_sub_Inl by blast
  then show ?thesis by simp
next
  case (Inr u)
  then have "update_sub now sid g d = (Inr (), d')" using assms(1) by simp
  then show ?thesis using lives_update_sub [OF _ assms(2,3)] assms(4) by auto
qed

lemma mark_with_refines:
  assumes "mark_with now iid external fi fs d = (r, d')" "\<And>i s r. sub_id (fs i s r) = sub_id r"
    and "\<And>i s. lives d (sub_id s) = Some (life_of s) \<Longrightarrow>
        life_step days (lives d) ((lives d)(sub_id s \<mapsto> life_of (fs i s s)))"
  shows "(life_step days)\<^sup>*\<^sup>* (lives d) (lives d')"
  using assms(1)
proof (cases rule: mark_with_cases)
  case (overage i s)
  then show ?thesis using lives_frame [OF update_invoice_subs [OF overage(5)]] by simp
next
  case (half i s e)
  then show ?thesis using lives_frame [OF update_invoice_subs [OF half(5)]] by simp
next
  case (both i s d1)
  have same: "subs d1 = subs d" "lives d1 = lives d"
    by (rule update_invoice_subs [OF both(5)]) (rule lives_frame [OF update_invoice_subs [OF both(5)]])
  have f: "find_unique (\<lambda>r. sub_id r = sub_id s) (subs d) = Some s" by (rule find_invoice_sub [OF both(1)])
  have f1: "find_unique (\<lambda>r. sub_id r = sub_id s) (subs d1) = Some s" using f by (simp only: same(1))
  have "life_step days (lives d1) ((lives d1)(sub_id s \<mapsto> life_of (fs i s s)))"
    using assms(3) [OF lives_at [OF f]] by (simp only: same(2))
  then have "(life_step days)\<^sup>*\<^sup>* (lives d1) (lives d')"
    by (rule update_sub_refines [OF both(6) assms(2) f1])
  then show ?thesis by (simp only: same(2))
qed auto

lemma grace_of_failure:
  fixes cfg now s
  defines "g \<equiv> resolve_grace_period_ends_at cfg now PAST_DUE (sub_start s) (sub_end s) (sub_grace s)"
  shows "(sub_start s = None \<or> grace_period_days cfg \<le> 0) = (g = None)"
    and "case (g, sub_grace s) of (Some new, Some old) \<Rightarrow> old \<le> new | _ \<Rightarrow> True"
  unfolding g_def
  by (auto simp: resolve_grace_period_ends_at_def Let_def split: option.splits)

lemma past_due_step:
  assumes "L (sub_id s) = Some (life_of s)"
  shows "life_step (grace_period_days cfg) L (L(sub_id s \<mapsto> life_of (past_due_sub cfg now p s s)))"
proof -
  let ?g = "resolve_grace_period_ends_at cfg now PAST_DUE (sub_start s) (sub_end s) (sub_grace s)"
  have "life_of (past_due_sub cfg now p s s) = (life_of s)\<lparr>lf_status := PAST_DUE, lf_grace := ?g\<rparr>"
    by (simp add: life_of_def past_due_sub_def)
  moreover have "life_step (grace_period_days cfg) L
      (L(sub_id s \<mapsto> (life_of s)\<lparr>lf_status := PAST_DUE, lf_grace := ?g\<rparr>))"
    by (rule life_step.delinquent [where L = L and sid = "sub_id s" and l = "life_of s", OF assms])
      (use grace_of_failure [where s = s and cfg = cfg and now = now] in \<open>simp_all add: life_of_def\<close>)
  ultimately show ?thesis by simp
qed

lemma mark_invoice_failed_refines:
  assumes "mark_invoice_failed cfg now p d = (r, d')"
  shows "(life_step (grace_period_days cfg))\<^sup>*\<^sup>* (lives d) (lives d')"
  using assms unfolding mark_invoice_failed_eq
  by (rule mark_with_refines) (simp_all add: past_due_step, simp add: past_due_sub_def)

lemma activated_step:
  assumes "L (sub_id s) = Some (life_of s)"
  shows "life_step days L (L(sub_id s \<mapsto> life_of (activated_sub p i s s)))"
  using life_step.activated [where L = L and sid = "sub_id s" and l = "life_of s" and days = days
      and a = "inv_start i" and b = "inv_end i", OF assms]
  by (simp add: life_of_def activated_sub_def)

lemma mark_invoice_paid_refines:
  assumes "mark_invoice_paid now p d = (r, d')"
  shows "(life_step days)\<^sup>*\<^sup>* (lives d) (lives d')"
  using assms unfolding mark_invoice_paid_eq
  by (rule mark_with_refines) (simp_all add: activated_step, simp add: activated_sub_def)

lemma life_same:
  assumes "find_unique (\<lambda>r. sub_id r = sub_id s) (subs d) = Some s" "life_of (g s) = life_of s"
    "update_sub now (sub_id s) g d = (r, d')" "\<And>r. sub_id (g r) = sub_id r"
  shows "lives d' = lives d"
proof (cases r)
  case (Inl e)
  then have "d' = d" using assms(3) update_sub_Inl by blast
  then show ?thesis by simp
next
  case (Inr u)
  then have "update_sub now (sub_id s) g d = (Inr (), d')" using assms(3) by simp
  then have "lives d' = (lives d)(sub_id s \<mapsto> life_of s)"
    using lives_update_sub [OF _ assms(4,1)] assms(2) by simp
  then show ?thesis using lives_at [OF assms(1)] by (simp add: fun_upd_idem)
qed

lemma record_external_checkout_lives:
  assumes "record_external_checkout now p d = (r, d')"
  shows "lives d' = lives d"
proof (cases "find_invoice d (xc_invoice p)")
  case None
  then show ?thesis using assms by (simp add: record_external_checkout_def bnd_def gets_def raise_def)
next
  case (Some x)
  then obtain i s where f: "find_invoice d (xc_invoice p) = Some (i, s)" by (cases x) auto
  obtain r1 d1 where u: "update_invoice (inv_id i) (checkout_invoice p i) d = (r1, d1)" by (metis surj_pair)
  have same: "subs d1 = subs d" "lives d1 = lives d"
    by (rule update_invoice_subs [OF u]) (rule lives_frame [OF update_invoice_subs [OF u]])
  have at: "find_unique (\<lambda>r. sub_id r = sub_id s) (subs d1) = Some s"
    using find_invoice_sub [OF f] by (simp only: same(1))
  consider "d' = d1" | r2 where "update_sub now (sub_id s) (checkout_sub p s) d1 = (r2, d')"
    using assms f u by (auto simp: record_external_checkout_def bnd_def gets_def ret_def
        split: sum.splits if_splits)
  then show ?thesis
  proof cases
    case 1
    then show ?thesis by (simp only: same(2))
  next
    case 2
    have "lives d' = lives d1"
      by (rule life_same [OF at _ 2]) (simp_all add: life_of_def checkout_sub_def)
    then show ?thesis by (simp only: same(2))
  qed
qed

lemma create_invoice_lives:
  assumes "create_invoice x d = (r, d')"
  shows "lives d' = lives d"
proof (rule lives_frame)
  show "subs d' = subs d" using assms by (cases rule: create_invoice_cases) simp_all
qed

lemma sync_invoice_refines:
  assumes "sync_invoice_from_external cfg now nid p d = (r, d')"
  shows "(life_step (grace_period_days cfg))\<^sup>*\<^sup>* (lives d) (lives d')"
proof -
  obtain r1 d1 where rs: "resolve_invoice_for_external_sync now nid p d = (r1, d1)" by (metis surj_pair)
  have same: "lives d1 = lives d"
    using rs
  proof (cases rule: resolve_external_cases)
    case (2 s r)
    then show ?thesis by (intro create_invoice_lives)
  qed simp
  consider "d' = d1"
    | "\<exists>iid g r2. update_invoice iid g d1 = (r2, d')"
    | "\<exists>mp r2. mark_invoice_paid now mp d1 = (r2, d')"
    | "\<exists>fp r2. mark_invoice_failed cfg now fp d1 = (r2, d')"
  proof (cases r1)
    case (Inl e)
    then have "d' = d1" using assms rs by (simp add: sync_invoice_from_external_def bnd_def)
    then show ?thesis by (rule that(1))
  next
    case (Inr iid)
    show ?thesis
    proof (cases "find_unique (\<lambda>r. inv_id r = iid) (invoices d1)")
      case None
      then have "d' = d1" using assms rs Inr
        by (simp add: sync_invoice_from_external_def bnd_def gets_def raise_def)
      then show ?thesis by (rule that(1))
    next
      case (Some i)
      have "(\<exists>r2. update_invoice iid (draft_invoice p i) d1 = (r2, d'))
          \<or> (\<exists>r2. mark_invoice_paid now (sync_mark_params iid p) d1 = (r2, d'))
          \<or> (\<exists>r2. mark_invoice_failed cfg now (sync_fail_params iid p) d1 = (r2, d'))"
        using assms rs Inr Some
        by (auto simp: sync_invoice_from_external_def bnd_def gets_def ret_def
            split: if_splits prod.splits sum.splits)
      then show ?thesis using that(2-4) by blast
    qed
  qed
  then show ?thesis
  proof cases
    case 1
    then show ?thesis by (simp add: same)
  next
    case 2
    then have "lives d' = lives d1" using lives_frame update_invoice_subs by blast
    then show ?thesis by (simp add: same)
  next
    case 3
    then have "(life_step (grace_period_days cfg))\<^sup>*\<^sup>* (lives d1) (lives d')"
      using mark_invoice_paid_refines by blast
    then show ?thesis by (simp only: same)
  next
    case 4
    then have "(life_step (grace_period_days cfg))\<^sup>*\<^sup>* (lives d1) (lives d')"
      using mark_invoice_failed_refines by blast
    then show ?thesis by (simp only: same)
  qed
qed

lemma sync_subscription_refines:
  assumes "sync_subscription_from_external cfg now p d = (r, d')" "billing_ok d" "sp_status p \<noteq> None"
  shows "(life_step days)\<^sup>*\<^sup>* (lives d) (lives d')"
proof (cases "find_sub_by_external d (sp_external p)")
  case None
  then show ?thesis using assms
    by (simp add: sync_subscription_from_external_def bnd_def gets_def raise_def)
next
  case (Some s)
  obtain st where st: "sp_status p = Some st" using assms(3) by auto
  have u: "update_sub now (sub_id s) (synced_sub cfg now p s) d = (r, d')"
    using assms(1) Some by (simp add: sync_subscription_from_external_def bnd_def gets_def)
  have at: "find_unique (\<lambda>r. sub_id r = sub_id s) (subs d) = Some s"
    by (rule find_external_sub [OF assms(2) Some])
  let ?g = "resolve_grace_period_ends_at cfg now st (or_else (sp_start p) (sub_start s))
      (or_else (sp_end p) (sub_end s)) (sub_grace s)"
  have gr: "st \<noteq> PAST_DUE \<longrightarrow> ?g = None" by (simp add: resolve_grace_period_ends_at_def)
  have "life_of (synced_sub cfg now p s s) = (life_of s)\<lparr>lf_status := st,
      lf_start := or_else (sp_start p) (sub_start s), lf_end := or_else (sp_end p) (sub_end s),
      lf_grace := ?g, lf_cancel := sp_cancel p\<rparr>"
    by (simp add: life_of_def synced_sub_def st or_else_def)
  then have "life_step days (lives d) ((lives d)(sub_id s \<mapsto> life_of (synced_sub cfg now p s s)))"
    using life_step.synced [where L = "lives d" and sid = "sub_id s" and l = "life_of s" and days = days
        and st = st and g = ?g and a' = "or_else (sp_start p) (sub_start s)"
        and b' = "or_else (sp_end p) (sub_end s)" and c = "sp_cancel p", OF lives_at [OF at] gr] by simp
  then show ?thesis by (rule update_sub_refines [OF u _ at, rotated]) (simp add: synced_sub_def)
qed

lemma mark_canceled_refines:
  assumes "mark_subscription_canceled_by_external_id now x d = (r, d')" "billing_ok d"
  shows "(life_step days)\<^sup>*\<^sup>* (lives d) (lives d')"
proof (cases "find_sub_by_external d x")
  case None
  then show ?thesis using assms
    by (simp add: mark_subscription_canceled_by_external_id_def bnd_def gets_def raise_def)
next
  case (Some s)
  have u: "update_sub now (sub_id s) canceled_sub d = (r, d')"
    using assms(1) Some by (simp add: mark_subscription_canceled_by_external_id_def bnd_def gets_def)
  have at: "find_unique (\<lambda>r. sub_id r = sub_id s) (subs d) = Some s"
    by (rule find_external_sub [OF assms(2) Some])
  have "life_step days (lives d) ((lives d)(sub_id s \<mapsto> life_of (canceled_sub s)))"
    using life_step.ended [where L = "lives d" and sid = "sub_id s" and l = "life_of s" and days = days,
        OF lives_at [OF at]] by (simp add: life_of_def canceled_sub_def)
  then show ?thesis by (rule update_sub_refines [OF u _ at, rotated]) (simp add: canceled_sub_def)
qed

lemma cancel_subscription_refines:
  assumes "cancel_subscription env now sid user d = (r, d')"
    "\<And>pr. payment_contract (get_provider_for_stored_subscription env pr)"
  shows "(life_step days)\<^sup>*\<^sup>* (lives d) (lives d')"
  using assms
proof (cases rule: cancel_subscription_cases)
  case (written s pend r2)
  have "life_step days (lives d) ((lives d)(sid \<mapsto> life_of (cancel_requested pend s)))"
    using life_step.cancel_asked [where L = "lives d" and sid = sid and l = "life_of s" and days = days
        and b' = "or_else pend (sub_end s)", OF lives_at [OF written(1)]]
    by (simp add: life_of_def cancel_requested_def)
  then show ?thesis
    by (rule update_sub_refines [OF written(3) _ written(1), rotated]) (simp add: cancel_requested_def)
qed simp

lemma create_sub_lives:
  assumes "create_sub x d = (Inr (), d')"
  shows "lives d (sub_id x) = None" "lives d' = (lives d)(sub_id x \<mapsto> life_of x)"
proof -
  have d': "d' = d\<lparr>subs := subs d @ [x]\<rparr>" and ins: "insert_unique sub_viol x (subs d) = Inr (subs d @ [x])"
    using assms by (auto elim: create_sub_cases)
  have "sub_id x \<noteq> sub_id r" if "r \<in> set (subs d)" for r
    using ins that by (fastforce simp: insert_unique_Inr sub_viol_def)
  then have none: "find_unique (\<lambda>r. sub_id r = sub_id x) (subs d) = None"
    unfolding find_unique_None by (metis (no_types))
  then show "lives d (sub_id x) = None" by (simp add: lives_def)
  have app: "find_unique P (xs @ [x]) = (case find_unique P xs of Some y \<Rightarrow> Some y | None \<Rightarrow> if P x then Some x else None)"
    for P xs by (induction xs) (auto simp: find_unique_def)
  show "lives d' = (lives d)(sub_id x \<mapsto> life_of x)"
    using none by (auto simp: fun_eq_iff lives_def d' app split: option.splits)
qed

lemma start_payment_lives:
  assumes "start_payment env sid iid user p r d = (res, d')" "payment_contract (active_provider env)"
  shows "lives d' = lives d"
proof (rule lives_frame)
  show "subs d' = subs d"
    using assms
  proof (cases rule: start_payment_cases)
    case (unrecorded e d1 x)
    show ?thesis using update_invoice_subs [OF unrecorded(3)] customers_only_tables(4) [OF unrecorded(2)] by (rule trans)
  next
    case (recorded link d1 x)
    show ?thesis using update_invoice_subs [OF recorded(3)] customers_only_tables(4) [OF recorded(2)] by (rule trans)
  qed (rule customers_only_tables, assumption)+
qed

lemma subscribe_transaction_refines:
  assumes "subscribe_transaction env now aborted sid iid user p d = (Inr (), d')"
  shows "life_step days (lives d) (lives d')"
  using assms
proof (cases rule: subscribe_transaction_cases)
  case (2 d1)
  have fresh: "life_of (new_subscription now sid (au_id user) (plan_id p) pr) = fresh_life"
    "sub_id (new_subscription now sid (au_id user) (plan_id p) pr) = sid" for pr
    by (simp_all add: life_of_def new_subscription_def fresh_life_def)
  have "lives d sid = None" "lives d1 = (lives d)(sid \<mapsto> fresh_life)"
    using create_sub_lives [OF 2(3)] by (simp_all only: fresh)
  then show ?thesis
    using life_step.opened [of "lives d" sid days] create_invoice_lives [OF 2(4)] by (simp only:)
qed simp

lemma subscribe_refines:
  assumes "subscribe env now aborted sid iid pid user d = (res, d')" "payment_contract (active_provider env)"
  shows "(life_step (grace_period_days (be_cfg env)))\<^sup>*\<^sup>* (lives d) (lives d')"
  using assms(1)
proof (cases rule: subscribe_cases)
  case (paying p r d1 link)
  have "life_step (grace_period_days (be_cfg env)) (lives d) (lives d1)"
    by (rule subscribe_transaction_refines [OF paying(2)])
  then show ?thesis unfolding start_payment_lives [OF paying(3) assms(2)]
    by (rule r_into_rtranclp [where r = "life_step (grace_period_days (be_cfg env))"])
next
  case (failed p r d1 d2 e e' m)
  have 1: "life_step (grace_period_days (be_cfg env)) (lives d) (lives d1)"
    by (rule subscribe_transaction_refines [OF failed(2)])
  have "(life_step (grace_period_days (be_cfg env)))\<^sup>*\<^sup>* (lives d2) (lives d')"
    by (rule mark_invoice_failed_refines [OF failed(4)])
  then show ?thesis unfolding start_payment_lives [OF failed(3) assms(2)]
    by (rule converse_rtranclp_into_rtranclp [where r = "life_step (grace_period_days (be_cfg env))", OF 1])
qed simp


end
