(* ===== verification/BillingFacts.thy ===== *)
theory BillingFacts
  imports Lifecycle Usage
begin

text \<open>
  What the subscription operations do, stated on the rows they leave: subscribing, paying,
  failing, redelivered events, cancelling, and the access these give through the entitlement
  test of the usage service.
\<close>

section \<open>Writes that cannot be refused\<close>

lemma update_unique_same_keys:
  assumes "find_unique p rows = Some r" "\<And>r'. r' \<in> set rows \<Longrightarrow> \<not> p r' \<Longrightarrow> viol (g r) r' = None"
  shows "update_unique viol p g rows = Inr (map (\<lambda>r'. if p r' then g r' else r') rows)"
  unfolding update_unique_Inr using assms by blast

lemma col_unique_other:
  assumes "col_unique col rows" "r \<in> set rows" "r' \<in> set rows" "r \<noteq> r'"
  shows "col r = None \<or> col r \<noteq> col r'"
proof (rule ccontr)
  assume "\<not> (col r = None \<or> col r \<noteq> col r')"
  then obtain k where "col r = Some k" "col r' = Some k" by (cases "col r") simp_all
  then show False using col_unique_row [OF assms(1-3)] assms(4) by simp
qed

lemma update_invoice_succeeds:
  assumes ok: "billing_ok d" and r: "find_unique (\<lambda>r. inv_id r = iid) (invoices d) = Some r"
    and "invoice_int4 (g r)" and keys: "inv_id (g r) = inv_id r" "inv_session (g r) = inv_session r"
      "inv_external (g r) = inv_external r" "inv_source (g r) = inv_source r"
  shows "update_invoice iid g d = (Inr (), set_invoice iid g d)"
proof -
  have rin: "r \<in> set (invoices d)" "inv_id r = iid" using find_unique_Some [OF r] by auto
  have none: "invoice_viol (g r) r' = None" if "r' \<in> set (invoices d)" "inv_id r' \<noteq> iid" for r'
  proof -
    have ne: "r \<noteq> r'" using rin(2) that(2) by auto
    have "inv_session r = None \<or> inv_session r \<noteq> inv_session r'"
      "inv_external r = None \<or> inv_external r \<noteq> inv_external r'"
      "inv_source r = None \<or> inv_source r \<noteq> inv_source r'"
      using billing_okD(4-6) [OF ok] col_unique_other [OF _ rin(1) that(1) ne] by blast+
    then show ?thesis using keys rin(2) that(2) by (simp add: invoice_viol_def clash_def)
  qed
  have "update_unique invoice_viol (\<lambda>r. inv_id r = iid) g (invoices d)
      = Inr (map (\<lambda>r'. if inv_id r' = iid then g r' else r') (invoices d))"
    by (rule update_unique_same_keys [where g = g and viol = invoice_viol, OF r none])
  then show ?thesis using r assms(3) by (simp add: update_invoice_def writes_def set_invoice_def)
qed

lemma update_sub_succeeds:
  assumes ok: "billing_ok d" and r: "find_unique (\<lambda>r. sub_id r = sid) (subs d) = Some r"
    and keys: "sub_id (g r) = sub_id r" "sub_external (g r) = sub_external r"
  shows "update_sub now sid g d = (Inr (), set_sub sid (\<lambda>r. (g r)\<lparr>sub_updated := now\<rparr>) d)"
proof -
  have rin: "r \<in> set (subs d)" "sub_id r = sid" using find_unique_Some [OF r] by auto
  have none: "sub_viol ((g r)\<lparr>sub_updated := now\<rparr>) r' = None" if "r' \<in> set (subs d)" "sub_id r' \<noteq> sid" for r'
  proof -
    have ne: "r \<noteq> r'" using rin(2) that(2) by auto
    have "sub_external r = None \<or> sub_external r \<noteq> sub_external r'"
      using billing_okD(3) [OF ok] col_unique_other [OF _ rin(1) that(1) ne] by blast
    then show ?thesis using keys rin(2) that(2) by (simp add: sub_viol_def clash_def)
  qed
  have "update_unique sub_viol (\<lambda>r. sub_id r = sid) (\<lambda>r. (g r)\<lparr>sub_updated := now\<rparr>) (subs d)
      = Inr (map (\<lambda>r'. if sub_id r' = sid then (g r')\<lparr>sub_updated := now\<rparr> else r') (subs d))"
    by (rule update_unique_same_keys [where g = "\<lambda>r. (g r)\<lparr>sub_updated := now\<rparr>" and viol = sub_viol, OF r none])
  then show ?thesis by (simp add: update_sub_def writes_def set_sub_def)
qed

lemma map_update_last:
  assumes "distinct (map key (xs @ [x]))" "key x = k"
  shows "map (\<lambda>r. if key r = k then g r else r) (xs @ [x]) = xs @ [g x]"
proof -
  have "key y \<noteq> k" if "y \<in> set xs" for y
  proof -
    have "key x \<notin> key ` set xs" using assms(1) by simp
    then show ?thesis using that assms(2) by (metis image_eqI)
  qed
  then have "map (\<lambda>r. if key r = k then g r else r) xs = xs" by (intro map_idI) simp
  then show ?thesis using assms(2) by simp
qed

lemma map_update_row:
  assumes "distinct (map key rows)" "r \<in> set rows"
  shows "map (\<lambda>x. if key x = key r then g x else x) rows = map (\<lambda>x. if x = r then g r else x) rows"
  using key_unique [OF assms(1) _ assms(2)] by (intro map_cong) auto

section \<open>Subscribing\<close>

lemma start_payment_rows:
  assumes "start_payment env sid iid user p r d = (res, d')" "payment_contract (active_provider env)"
    "invoices d = rows @ [i]" "inv_id i = iid" "distinct (map inv_id (invoices d))"
  shows "subs d' = subs d \<and> ((\<exists>e. res = Inl e) \<longrightarrow> invoices d' = invoices d)
    \<and> ((\<exists>l. res = Inr l) \<longrightarrow> (\<exists>x. invoices d' = rows @ [i\<lparr>inv_session := x\<rparr>]))"
  using assms(1,2)
proof (cases rule: start_payment_cases)
  case (refused e)
  then show ?thesis using customers_only_tables(4,5) [OF refused(2)] by simp
next
  case (unrecorded e d1 x)
  then have "d' = d1" using update_invoice_Inl by blast
  then show ?thesis using customers_only_tables(4,5) [OF unrecorded(2)] unrecorded(1) by simp
next
  case (plain link)
  have "i = i\<lparr>inv_session := inv_session i\<rparr>" by simp
  then have "\<exists>x. rows @ [i] = rows @ [i\<lparr>inv_session := x\<rparr>]" by metis
  then show ?thesis using customers_only_tables(4,5) [OF plain(2)] plain(1) assms(3) by simp
next
  case (recorded link d1 x)
  have tabs: "subs d1 = subs d" "invoices d1 = rows @ [i]"
    using customers_only_tables(4,5) [OF recorded(2)] assms(3) by simp_all
  have "d' = set_invoice iid (set_session x) d1" using recorded(3) by (auto elim: update_invoice_cases)
  then have "subs d' = subs d" "invoices d' = rows @ [i\<lparr>inv_session := x\<rparr>]"
    using map_update_last [of inv_id rows i iid "set_session x"] assms(3-5) tabs
    by (simp_all add: set_invoice_def set_session_def)
  then show ?thesis using recorded(1) by auto
qed

text \<open>A failed first payment: the new rows are written, and nothing can refuse it.\<close>

lemma first_payment_fails:
  assumes ok: "billing_ok d" and subs: "subs d = ss @ [s]" and invs: "invoices d = ii @ [i]"
    and s: "s = new_subscription t sid uid pid pr" and i: "i = new_invoice t iid sid pr a c x y"
  shows "mark_invoice_failed cfg now (fail_only iid prov) d
    = (Inr False, d\<lparr>subs := ss @ [s\<lparr>sub_status := PAST_DUE, sub_provider := prov, sub_updated := now\<rparr>],
         invoices := ii @ [i\<lparr>inv_status := IVoid, inv_provider := prov\<rparr>]\<rparr>)"
proof -
  let ?fi = "failed_invoice cfg now (fail_only iid prov) i s"
    and ?fs = "past_due_sub cfg now (fail_only iid prov) s"
  have di: "distinct (map inv_id (invoices d))" "distinct (map sub_id (subs d))" using billing_okD [OF ok] by auto
  have ids: "inv_id i = iid" "inv_sub i = sid" "sub_id s = sid" by (simp_all add: i s new_invoice_def new_subscription_def)
  obtain s' where f: "find_invoice d (inv_id i) = Some (i, s')" using find_invoice_Some [OF ok, of i] invs by auto
  have "s' = s"
    using find_invoice_row(3,4) [OF f] ids key_unique [OF di(2), of s' s] subs by simp
  then have f: "find_invoice d iid = Some (i, s)" using f ids by simp
  have fu: "find_unique (\<lambda>r. inv_id r = iid) (invoices d) = Some i"
    using f by (auto simp: find_invoice_def split: option.splits)
  have rows: "?fi i = i\<lparr>inv_status := IVoid, inv_provider := prov\<rparr>"
    by (simp add: i failed_invoice_def failed_status_def fail_only_def new_invoice_def nullish_def
        resolve_managed_retry_state_def should_use_managed_renewal_retry_def)
  have srow: "(?fs s)\<lparr>sub_updated := now\<rparr>
      = s\<lparr>sub_status := PAST_DUE, sub_provider := prov, sub_updated := now\<rparr>"
    by (simp add: s past_due_sub_def fail_only_def new_subscription_def nullish_def resolve_grace_period_ends_at_def)
  have int4: "invoice_int4 (?fi i)"
    using ok invs rows by (simp add: billing_ok_def invoice_int4_def)
  have u: "update_invoice iid ?fi d = (Inr (), set_invoice iid ?fi d)"
    by (rule update_invoice_succeeds [where g = ?fi, OF ok fu int4]) (simp_all add: rows)
  let ?d1 = "set_invoice iid ?fi d"
  have ok1: "billing_ok ?d1"
    by (rule update_invoice_ok [OF u ok]) (simp add: failed_invoice_def)
  have fs: "find_unique (\<lambda>r. sub_id r = sid) (subs ?d1) = Some s"
    using find_invoice_sub [OF f] ids by (simp add: set_invoice_def)
  have w: "update_sub now sid ?fs ?d1 = (Inr (), set_sub sid (\<lambda>r. (?fs r)\<lparr>sub_updated := now\<rparr>) ?d1)"
    by (rule update_sub_succeeds [where g = ?fs, OF ok1 fs])
      (simp_all add: past_due_sub_def fail_only_def s new_subscription_def)
  have "\<not> settled_elsewhere i (mk_external (fail_only iid prov))" "inv_kind i \<noteq> OVERAGE"
    "mk_invoice (fail_only iid prov) = iid"
    by (simp_all add: settled_elsewhere_def i new_invoice_def fail_only_def)
  then have run: "mark_invoice_failed cfg now (fail_only iid prov) d
      = (Inr False, set_sub sid (\<lambda>r. (?fs r)\<lparr>sub_updated := now\<rparr>) ?d1)"
    using f u w ids by (simp add: mark_invoice_failed_def bnd_def gets_def ret_def)
  have e1: "invoices ?d1 = ii @ [?fi i]"
    using map_update_last [of inv_id ii i iid ?fi] di(1) invs ids by (simp add: set_invoice_def)
  have e2: "map (\<lambda>r. if sub_id r = sid then (?fs r)\<lparr>sub_updated := now\<rparr> else r) (subs d)
      = ss @ [(?fs s)\<lparr>sub_updated := now\<rparr>]"
    using map_update_last [of sub_id ss s sid "\<lambda>r. (?fs r)\<lparr>sub_updated := now\<rparr>"] di(2) subs ids by simp
  show ?thesis unfolding run using e1 e2 rows srow by (simp add: set_sub_def set_invoice_def)
qed

text \<open>A database with one published product and one plan.\<close>

definition shop_plan :: "int \<Rightarrow> plan_row" where
  "shop_plan price = \<lparr>plan_id = ''p1'', plan_product = ''a1'', plan_name = ''Pro'', plan_price_cents = price,
     plan_currency = ''EUR'', plan_per = MONTH, plan_quota = 1000, plan_rpm = None, plan_allow_overage = True,
     plan_overage_unit = Some 100, plan_overage_price = Some 50, plan_active = True, plan_created = 0\<rparr>"

definition shop_db :: "int \<Rightarrow> db" where
  "shop_db price = empty_db\<lparr>users := [sample_user],
     products := [\<lparr>prod_id = ''a1'', prod_owner = ''o1'', prod_title = ''Maps'', prod_status = PPublished,
                   prod_created = 0, prod_description = ''Maps of the world'', prod_category = ''Geo'',
                   prod_tags = [], prod_updated = 0\<rparr>],
     versions := [\<lparr>ver_id = ''v1'', ver_product = ''a1'', ver_version = ''1'', ver_status = VPublished,
                   ver_openapi_url = ''http://x'', ver_openapi_snapshot = None, ver_created = 0, ver_fetched = None\<rparr>],
     plans := [shop_plan price]\<rparr>"

definition shop_config :: "billing_provider \<Rightarrow> billing_config" where
  "shop_config pr = \<lparr>payment_provider = pr, grace_period_days = 3, reconciliation_enabled = True,
     reconciliation_interval = 300, reconciliation_batch = 10, retry_enabled = True, retry_interval = 60,
     retry_batch = 10, retry_delays = [60, 1440], overage_enabled = True, overage_interval = 60,
     overage_batch = 10\<rparr>"

definition shop_user :: auth_user where
  "shop_user = \<lparr>au_id = ''u1'', au_email = ''a@b.c'', au_role = BUYER\<rparr>"

definition shop_env :: "billing_provider \<Rightarrow> billing_env" where
  "shop_env pr = env_of (shop_config pr) 3000 sample_stripe_config (sample_sdk ''paid'')"

lemma shop_db_ok [simp]: "billing_ok (shop_db price)"
  by (simp add: billing_ok_def shop_db_def empty_db_def)

text \<open>C31: Subscribing. When it succeeds the user had no active or pending subscription to the product,
  and exactly two rows are added: a pending subscription without a period and a draft invoice for
  the plan's price, from now for one month. When it throws, either no row of the two tables is
  changed, or the payment could not be started and exactly two rows are added: a past due
  subscription with neither period nor grace, hence without access, and a void invoice.\<close>

theorem subscribe_effect:
  assumes "subscribe (env_of cfg port scfg sdk) now aborted sid iid pid user d = (res, d')"
    and "billing_ok d"
  shows "case res of
      Inr (s, i, link) \<Rightarrow>
        (\<exists>p r pr x. subscribable d pid = Inr (p, r) \<and> s = sid \<and> i = iid
          \<and> open_subscription d (au_id user) (plan_product p) = None
          \<and> subs d' = subs d @ [new_subscription now sid (au_id user) (plan_id p) pr]
          \<and> invoices d' = invoices d @ [(new_invoice now iid sid pr (plan_price_cents p) (plan_currency p)
               now (set_utc_month now (get_utc_month now + 1)))\<lparr>inv_session := x\<rparr>])
    | Inl e \<Rightarrow>
        (subs d' = subs d \<and> invoices d' = invoices d)
        \<or> (\<exists>s i. subs d' = subs d @ [s] \<and> invoices d' = invoices d @ [i] \<and> inv_sub i = sub_id s
             \<and> sub_status s = PAST_DUE \<and> sub_start s = None \<and> sub_grace s = None \<and> inv_status i = IVoid
             \<and> (\<forall>t. \<not> entitled_at t s))"
proof -
  let ?env = "env_of cfg port scfg sdk"
  let ?pr = "pp_provider (active_provider ?env)"
  have con: "payment_contract (active_provider ?env)" by (rule active_provider_contract)
  have rows: "open_subscription d (au_id user) (plan_product p) = None \<and>
      subs d1 = subs d @ [new_subscription now sid (au_id user) (plan_id p) ?pr] \<and>
      invoices d1 = invoices d @ [new_invoice now iid sid ?pr (plan_price_cents p) (plan_currency p)
               now (set_utc_month now (get_utc_month now + 1))] \<and> billing_ok d1"
    if t: "subscribe_transaction ?env now aborted sid iid user p d = (Inr (), d1)" for p d1
    using t
  proof (cases rule: subscribe_transaction_cases)
    case (2 d0)
    have "billing_ok d1" using create_invoice_ok [OF 2(4)] create_sub_ok [OF 2(3) assms(2)] by blast
    moreover have "d0 = d\<lparr>subs := subs d @ [new_subscription now sid (au_id user) (plan_id p) ?pr]\<rparr>"
      using 2(3) by (auto elim: create_sub_cases)
    moreover have "d1 = d0\<lparr>invoices := invoices d0 @ [new_invoice now iid sid ?pr (plan_price_cents p)
        (plan_currency p) now (set_utc_month now (get_utc_month now + 1))]\<rparr>"
      using 2(4) by (auto elim: create_invoice_cases simp: get_invoice_period_def)
    ultimately show ?thesis using 2(2) by simp
  qed simp
  show ?thesis
    using assms(1)
  proof (cases rule: subscribe_cases)
    case (rejected e)
    then show ?thesis by simp
  next
    case (paying p r d1 link)
    note r1 = rows [OF paying(2)]
    have ids: "distinct (map inv_id (invoices d1))" using billing_okD(2) r1 by blast
    have "subs d' = subs d1 \<and> (\<exists>x. invoices d' = invoices d @ [(new_invoice now iid sid ?pr (plan_price_cents p)
        (plan_currency p) now (set_utc_month now (get_utc_month now + 1)))\<lparr>inv_session := x\<rparr>])"
      using start_payment_rows [OF paying(3) con _ _ ids] r1 by (simp add: new_invoice_def)
    then show ?thesis using paying(1,4) r1 by auto
  next
    case (failed p r d1 d2 e e' m)
    note r1 = rows [OF failed(2)]
    have ids: "distinct (map inv_id (invoices d1))" using billing_okD(2) r1 by blast
    have d2: "subs d2 = subs d1" "invoices d2 = invoices d1"
      using start_payment_rows [OF failed(3) con _ _ ids] r1 by (auto simp: new_invoice_def)
    have ok2: "billing_ok d2" using billing_ok_frame [OF _ d2] r1 by blast
    let ?s = "new_subscription now sid (au_id user) (plan_id p) ?pr"
      and ?i = "new_invoice now iid sid ?pr (plan_price_cents p) (plan_currency p) now
        (set_utc_month now (get_utc_month now + 1))"
    have "subs d2 = subs d @ [?s]" "invoices d2 = invoices d @ [?i]" using d2 r1 by simp_all
    then have "mark_invoice_failed (be_cfg ?env) now (fail_only iid ?pr) d2
        = (Inr False, d2\<lparr>subs := subs d @ [?s\<lparr>sub_status := PAST_DUE, sub_provider := ?pr, sub_updated := now\<rparr>],
             invoices := invoices d @ [?i\<lparr>inv_status := IVoid, inv_provider := ?pr\<rparr>]\<rparr>)"
      by (rule first_payment_fails [OF ok2 _ _ refl refl])
    then have "subs d' = subs d @ [?s\<lparr>sub_status := PAST_DUE, sub_provider := ?pr, sub_updated := now\<rparr>]"
      "invoices d' = invoices d @ [?i\<lparr>inv_status := IVoid, inv_provider := ?pr\<rparr>]"
      using failed(4) by auto
    then show ?thesis
      using failed(5) by (simp add: new_subscription_def new_invoice_def entitled_at_def col_le_def col_gt_def)
  qed
qed

theorem subscribe_effect_witness:
  "map sub_status (subs (snd (subscribe (shop_env STRIPE) 1000 None ''s1'' ''i1'' ''p1'' shop_user (shop_db 1900))))
     = [PENDING]"
proof -
  obtain res d' where run: "subscribe (env_of (shop_config STRIPE) 3000 sample_stripe_config (sample_sdk ''paid''))
      1000 None ''s1'' ''i1'' ''p1'' shop_user (shop_db 1900) = (res, d')" by (metis surj_pair)
  have "fst (subscribe (shop_env STRIPE) 1000 None ''s1'' ''i1'' ''p1'' shop_user (shop_db 1900))
      = Inr (''s1'', ''i1'', ''http://pay'')" by code_simp
  then have "res = Inr (''s1'', ''i1'', ''http://pay'')" by (simp add: shop_env_def run)
  then have "map sub_status (subs d') = [PENDING]"
    using subscribe_effect [OF run shop_db_ok]
    by (auto simp: shop_db_def empty_db_def new_subscription_def)
  then show ?thesis by (simp add: shop_env_def run)
qed

section \<open>Marking twice\<close>

text \<open>What a redelivered event must not change: everything but \<open>updatedAt\<close>.\<close>

definition ignore_updated :: "db \<Rightarrow> db" where
  "ignore_updated d = d\<lparr>subs := map (sub_updated_update (\<lambda>_. 0)) (subs d)\<rparr>"

lemma set_invoice_find:
  assumes "find_unique (\<lambda>r. inv_id r = iid) (invoices d) = Some r" "\<And>r. inv_id (g r) = inv_id r"
  shows "find_unique (\<lambda>r. inv_id r = iid) (invoices (set_invoice iid g d)) = Some (g r)"
  using find_map_same_key [of inv_id g iid "invoices d", OF assms(2)] assms(1) by (simp add: set_invoice_def)

lemma set_sub_find:
  assumes "find_unique (\<lambda>r. sub_id r = sid) (subs d) = Some r" "\<And>r. sub_id (g r) = sub_id r"
  shows "find_unique (\<lambda>r. sub_id r = sid) (subs (set_sub sid g d)) = Some (g r)"
  using find_map_same_key [of sub_id g sid "subs d", OF assms(2)] assms(1) by (simp add: set_sub_def)

lemma find_invoice_parts:
  "find_invoice d iid = Some (i, s) \<longleftrightarrow>
   find_unique (\<lambda>r. inv_id r = iid) (invoices d) = Some i \<and>
   find_unique (\<lambda>r. sub_id r = inv_sub i) (subs d) = Some s"
  by (auto simp: find_invoice_def sub_of_def split: option.splits)

lemma set_invoice_same:
  assumes "\<And>r. r \<in> set (invoices d) \<Longrightarrow> inv_id r = iid \<Longrightarrow> g r = r"
  shows "set_invoice iid g d = d"
proof -
  have "map (\<lambda>r. if inv_id r = iid then g r else r) (invoices d) = invoices d"
    by (rule map_idI) (use assms in auto)
  then show ?thesis by (simp add: set_invoice_def)
qed

lemma set_sub_same_updated:
  assumes "\<And>r. r \<in> set (subs d) \<Longrightarrow> sub_id r = sid \<Longrightarrow> g r = r"
  shows "ignore_updated (set_sub sid (\<lambda>r. (g r)\<lparr>sub_updated := now\<rparr>) d) = ignore_updated d"
proof -
  have "map (sub_updated_update (\<lambda>_. 0) \<circ> (\<lambda>r. if sub_id r = sid then (g r)\<lparr>sub_updated := now\<rparr> else r)) (subs d)
      = map (sub_updated_update (\<lambda>_. 0)) (subs d)"
    using assms by (intro map_cong) auto
  then show ?thesis by (simp add: ignore_updated_def set_sub_def)
qed

text \<open>
  Marking twice with writes that are fixed points of themselves: the second call succeeds and
  changes \<open>updatedAt\<close> at most.
\<close>

lemma mark_with_twice:
  assumes run: "mark_with now iid external fi fs d = (Inr False, d1)" and ok: "billing_ok d"
    and keys: "\<And>i s r. inv_id (fi i s r) = inv_id r" "\<And>i s r. inv_sub (fi i s r) = inv_sub r"
      "\<And>i s r. inv_kind (fi i s r) = inv_kind r" "\<And>i s r. sub_id (fs i s r) = sub_id r"
    and fixi: "\<And>i s. find_invoice d iid = Some (i, s) \<Longrightarrow> inv_kind i = OVERAGE \<Longrightarrow> fi' (fi i s i) s (fi i s i) = fi i s i"
    and fixb: "\<And>i s. find_invoice d iid = Some (i, s) \<Longrightarrow> inv_kind i = SUBSCRIPTION
       \<Longrightarrow> fi' (fi i s i) ((fs i s s)\<lparr>sub_updated := now\<rparr>) (fi i s i) = fi i s i
         \<and> fs' (fi i s i) ((fs i s s)\<lparr>sub_updated := now\<rparr>) ((fs i s s)\<lparr>sub_updated := now\<rparr>) = (fs i s s)\<lparr>sub_updated := now\<rparr>"
    and free: "\<And>i s. find_invoice d iid = Some (i, s) \<Longrightarrow> \<not> settled_elsewhere i external
       \<Longrightarrow> \<not> settled_elsewhere (fi i s i) external'"
  shows "\<exists>d2. mark_with now' iid external' fi' fs' d1 = (Inr False, d2) \<and> ignore_updated d2 = ignore_updated d1"
  using run
proof (cases rule: mark_with_cases)
  case (overage i s)
  have ids: "inv_id i = iid" "i \<in> set (invoices d)" using find_invoice_row [OF overage(1)] by auto
  have ok1: "billing_ok d1" by (rule update_invoice_ok [OF overage(5) ok keys(2)])
  have d1: "d1 = set_invoice iid (fi i s) d" using overage(5) ids by (auto elim: update_invoice_cases)
  have f1: "find_unique (\<lambda>r. inv_id r = iid) (invoices d1) = Some (fi i s i)"
    unfolding d1 by (rule set_invoice_find [OF _ keys(1)]) (use overage(1) find_invoice_parts in blast)
  have fd: "find_invoice d1 iid = Some (fi i s i, s)"
    using f1 overage(1) keys(2) by (simp add: find_invoice_parts d1 set_invoice_def)
  have fx: "fi' (fi i s i) s (fi i s i) = fi i s i" by (rule fixi [OF overage(1,4)])
  have i4: "invoice_int4 (fi i s i)"
    using ok1 find_unique_Some [OF f1] by (auto simp: billing_ok_def list_all_iff)
  have u: "update_invoice iid (fi' (fi i s i) s) d1 = (Inr (), set_invoice iid (fi' (fi i s i) s) d1)"
    by (rule update_invoice_succeeds [where g = "fi' (fi i s i) s", OF ok1 f1]) (simp_all add: fx i4)
  have "set_invoice iid (fi' (fi i s i) s) d1 = d1"
  proof (rule set_invoice_same)
    fix r assume "r \<in> set (invoices d1)" "inv_id r = iid"
    then have "r = fi i s i"
      using row_by_id [OF ok1 _ _] find_unique_Some [OF f1] by metis
    then show "fi' (fi i s i) s r = r" using fx by simp
  qed
  then have "mark_with now' iid external' fi' fs' d1 = (Inr False, d1)"
    using fd u keys(1,3) ids overage(4) free [OF overage(1,2)]
    by (simp add: mark_with_def bnd_def gets_def ret_def)
  then show ?thesis by blast
next
  case (both i s d0)
  have ids: "inv_id i = iid" "i \<in> set (invoices d)" "sub_id s = inv_sub i"
    using find_invoice_row [OF both(1)] by auto
  let ?i = "fi i s i" and ?s = "(fs i s s)\<lparr>sub_updated := now\<rparr>"
  have ok0: "billing_ok d0" by (rule update_invoice_ok [OF both(5) ok keys(2)])
  have ok1: "billing_ok d1" by (rule update_sub_ok [OF both(6) ok0 keys(4)])
  have d0: "d0 = set_invoice iid (fi i s) d" using both(5) ids by (auto elim: update_invoice_cases)
  have d1: "d1 = set_sub (sub_id s) (\<lambda>r. (fs i s r)\<lparr>sub_updated := now\<rparr>) d0"
    using both(6) by (auto elim: update_sub_cases)
  have "find_unique (\<lambda>r. inv_id r = iid) (invoices d0) = Some ?i"
    unfolding d0 by (rule set_invoice_find [OF _ keys(1)]) (use both(1) find_invoice_parts in blast)
  then have f1: "find_unique (\<lambda>r. inv_id r = iid) (invoices d1) = Some ?i" by (simp add: d1 set_sub_def)
  have "find_unique (\<lambda>r. sub_id r = sub_id s) (subs d0) = Some s"
    using find_invoice_sub [OF both(1)] by (simp add: d0 set_invoice_def)
  then have g1: "find_unique (\<lambda>r. sub_id r = sub_id s) (subs d1) = Some ?s"
    unfolding d1 by (rule set_sub_find) (simp add: keys(4))
  have fd: "find_invoice d1 iid = Some (?i, ?s)"
    using f1 g1 keys(2) ids(3) by (simp add: find_invoice_parts)
  have fx: "fi' ?i ?s ?i = ?i" "fs' ?i ?s ?s = ?s" using fixb [OF both(1,3)] by auto
  have i4: "invoice_int4 ?i"
    using ok1 find_unique_Some [OF f1] by (auto simp: billing_ok_def list_all_iff)
  have u: "update_invoice iid (fi' ?i ?s) d1 = (Inr (), set_invoice iid (fi' ?i ?s) d1)"
    by (rule update_invoice_succeeds [where g = "fi' ?i ?s", OF ok1 f1]) (simp_all add: fx i4)
  have same: "set_invoice iid (fi' ?i ?s) d1 = d1"
  proof (rule set_invoice_same)
    fix r assume "r \<in> set (invoices d1)" "inv_id r = iid"
    then have "r = ?i" using row_by_id [OF ok1 _ _] find_unique_Some [OF f1] by metis
    then show "fi' ?i ?s r = r" using fx by simp
  qed
  have w: "update_sub now' (sub_id s) (fs' ?i ?s) d1
      = (Inr (), set_sub (sub_id s) (\<lambda>r. (fs' ?i ?s r)\<lparr>sub_updated := now'\<rparr>) d1)"
    by (rule update_sub_succeeds [where g = "fs' ?i ?s", OF ok1 g1]) (simp_all add: fx)
  have "ignore_updated (set_sub (sub_id s) (\<lambda>r. (fs' ?i ?s r)\<lparr>sub_updated := now'\<rparr>) d1) = ignore_updated d1"
  proof (rule set_sub_same_updated)
    fix r assume "r \<in> set (subs d1)" "sub_id r = sub_id s"
    then have "r = ?s" using sub_by_id [OF ok1 _ _] find_unique_Some [OF g1] by metis
    then show "fs' ?i ?s r = r" using fx by simp
  qed
  moreover have "sub_id ?s = sub_id s" by (simp add: keys(4))
  ultimately show ?thesis
    using fd u w same keys(1,3) ids both(3) free [OF both(1,2)]
    by (simp add: mark_with_def bnd_def gets_def ret_def)
qed auto

lemma nullish_twice [simp]: "nullish a (nullish a b) = nullish a b"
  by (cases a) simp_all

lemma paid_invoice_twice: "paid_invoice p (paid_invoice p i i) (paid_invoice p i i) = paid_invoice p i i"
  by (simp add: paid_invoice_def split: option.split)

lemma paid_not_elsewhere:
  "\<not> settled_elsewhere i (mk_external p) \<Longrightarrow> \<not> settled_elsewhere (paid_invoice p i i) (mk_external p)"
  by (cases "mk_external p") (auto simp: settled_elsewhere_def paid_invoice_def js_truthy_str_def)

text \<open>Payment events may be redelivered: after an invoice was marked paid, marking it again with
  the same event at any later time succeeds and changes nothing but \<open>updatedAt\<close>.\<close>

theorem payment_redelivery:
  assumes "billing_ok d" and "mark_invoice_paid now p d = (Inr False, d1)"
  shows "\<exists>d2. mark_invoice_paid now' p d1 = (Inr False, d2) \<and> ignore_updated d2 = ignore_updated d1"
  using assms(2,1) unfolding mark_invoice_paid_eq
proof (rule mark_with_twice)
  fix i s
  show "paid_invoice p (paid_invoice p i i) (paid_invoice p i i) = paid_invoice p i i"
    by (rule paid_invoice_twice)
  show "paid_invoice p (paid_invoice p i i) (paid_invoice p i i) = paid_invoice p i i
      \<and> activated_sub p (paid_invoice p i i) ((activated_sub p i s s)\<lparr>sub_updated := now\<rparr>)
          ((activated_sub p i s s)\<lparr>sub_updated := now\<rparr>) = (activated_sub p i s s)\<lparr>sub_updated := now\<rparr>"
    using paid_invoice_twice [of p i] by (simp add: activated_sub_def) (simp add: paid_invoice_def)
  show "\<not> settled_elsewhere (paid_invoice p i i) (mk_external p)" if "\<not> settled_elsewhere i (mk_external p)"
    using that by (rule paid_not_elsewhere)
qed (simp_all add: paid_invoice_def activated_sub_def)

text \<open>A subscription with a draft invoice, as \<open>subscribe\<close> leaves it.\<close>

definition shop_pending :: db where
  "shop_pending = (shop_db 1900)\<lparr>
     subs := [new_subscription 1000 ''s1'' ''u1'' ''p1'' STRIPE],
     invoices := [new_invoice 1000 ''i1'' ''s1'' STRIPE 1900 ''EUR'' 1000 2592001000]\<rparr>"

lemma shop_pending_ok: "billing_ok shop_pending"
  by (simp add: billing_ok_def shop_pending_def shop_db_def empty_db_def new_subscription_def
      new_invoice_def invoice_int4_def int4_ok_def opt_int4_ok_def clear_managed_retry_state_def)
    (simp add: col_unique_def)

definition shop_paid_event :: mark_params where
  "shop_paid_event = \<lparr>mk_invoice = ''i1'', mk_provider = STRIPE, mk_session = Some ''cs_1'',
     mk_external = Some ''in_1'', mk_sub_external = Some ''sub_1'', mk_attempts = Some 1\<rparr>"

theorem payment_redelivery_witness:
  "fst (mark_invoice_paid 9000 shop_paid_event (snd (mark_invoice_paid 2000 shop_paid_event shop_pending)))
     = Inr False"
proof -
  have "fst (mark_invoice_paid 2000 shop_paid_event shop_pending) = Inr False" by code_simp
  then have "mark_invoice_paid 2000 shop_paid_event shop_pending
      = (Inr False, snd (mark_invoice_paid 2000 shop_paid_event shop_pending))" by (metis prod.collapse)
  from payment_redelivery [OF shop_pending_ok this, of 9000] show ?thesis by auto
qed

section \<open>Access\<close>

text \<open>What a successful marking leaves, row by row.\<close>

lemma mark_with_rows:
  assumes "mark_with now iid external fi fs d = (Inr False, d')" "billing_ok d"
    and keys: "\<And>i s r. inv_sub (fi i s r) = inv_sub r"
  obtains i s where "find_invoice d iid = Some (i, s)" "\<not> settled_elsewhere i external"
    "invoices d' = map (\<lambda>r. if r = i then fi i s i else r) (invoices d)"
    "subs d' = (if inv_kind i = OVERAGE then subs d
       else map (\<lambda>r. if r = s then (fs i s s)\<lparr>sub_updated := now\<rparr> else r) (subs d))"
proof -
  have inv: "invoices (set_invoice (inv_id i) g d) = map (\<lambda>r. if r = i then g i else r) (invoices d)"
    if "find_invoice d iid = Some (i, s)" for i s g
    using map_update_row [of inv_id "invoices d" i g] billing_okD(2) [OF assms(2)] find_invoice_row [OF that]
    by (simp add: set_invoice_def cong: if_cong)
  have sub: "subs (set_sub (sub_id s) g d0) = map (\<lambda>r. if r = s then g s else r) (subs d)"
    if "find_invoice d iid = Some (i, s)" "subs d0 = subs d" for i s g d0
    using map_update_row [of sub_id "subs d" s g] billing_okD(1) [OF assms(2)] find_invoice_row [OF that(1)] that(2)
    by (simp add: set_sub_def cong: if_cong)
  show ?thesis
    using assms(1)
  proof (cases rule: mark_with_cases)
    case (overage i s)
    have "d' = set_invoice (inv_id i) (fi i s) d" using overage(5) by (auto elim: update_invoice_cases)
    then have "invoices d' = map (\<lambda>r. if r = i then fi i s i else r) (invoices d)" "subs d' = subs d"
      using inv [OF overage(1), of "fi i s"] by (simp_all add: set_invoice_def)
    then show ?thesis using that [OF overage(1,2)] overage(4) by simp
  next
    case (both i s d0)
    have d0: "d0 = set_invoice (inv_id i) (fi i s) d" using both(5) by (auto elim: update_invoice_cases)
    have d': "d' = set_sub (sub_id s) (\<lambda>r. (fs i s r)\<lparr>sub_updated := now\<rparr>) d0"
      using both(6) by (auto elim: update_sub_cases)
    have "invoices d' = map (\<lambda>r. if r = i then fi i s i else r) (invoices d)"
      using inv [OF both(1), of "fi i s"] by (simp add: d' d0 set_sub_def)
    moreover have "subs d' = map (\<lambda>r. if r = s then (fs i s s)\<lparr>sub_updated := now\<rparr> else r) (subs d)"
      unfolding d' by (rule sub [OF both(1)]) (simp add: d0 set_invoice_def)
    ultimately show ?thesis using that [OF both(1,2)] both(3) by simp
  qed auto
qed

text \<open>C32: A payment opens access for exactly the invoice's period: when a subscription invoice is
  marked paid, its subscription, and no other, changes, and is entitled at an instant if and only
  if the instant lies in the half-open period of the invoice.\<close>

theorem payment_opens_access:
  assumes "billing_ok d" and "mark_invoice_paid now p d = (Inr False, d')"
    and "find_invoice d (mk_invoice p) = Some (i, s)" and "inv_kind i = SUBSCRIPTION"
  shows "\<exists>s'. subs d' = map (\<lambda>r. if r = s then s' else r) (subs d) \<and> sub_id s' = sub_id s
    \<and> (\<forall>t. entitled_at t s' \<longleftrightarrow> inv_start i \<le> t \<and> t < inv_end i)"
proof -
  obtain i0 s0 where "find_invoice d (mk_invoice p) = Some (i0, s0)"
    and rows: "subs d' = (if inv_kind i0 = OVERAGE then subs d
       else map (\<lambda>r. if r = s0 then (activated_sub p i0 s0 s0)\<lparr>sub_updated := now\<rparr> else r) (subs d))"
    by (rule mark_with_rows [OF assms(2) [unfolded mark_invoice_paid_eq] assms(1)])
      (simp add: paid_invoice_def, blast)
  then have "subs d' = map (\<lambda>r. if r = s then (activated_sub p i s s)\<lparr>sub_updated := now\<rparr> else r) (subs d)"
    using assms(3,4) by simp
  then show ?thesis
    by (intro exI [of _ "(activated_sub p i s s)\<lparr>sub_updated := now\<rparr>"] conjI)
      (simp_all add: activated_sub_def entitled_at_def col_le_def col_gt_def)
qed

theorem payment_opens_access_witness:
  "\<exists>s'. sub_id s' = ''s1'' \<and> subs (snd (mark_invoice_paid 2000 shop_paid_event shop_pending)) = [s']
    \<and> entitled_at 1000 s' \<and> \<not> entitled_at 2592001000 s'"
proof -
  have run: "mark_invoice_paid 2000 shop_paid_event shop_pending
      = (Inr False, snd (mark_invoice_paid 2000 shop_paid_event shop_pending))"
  proof -
    have "fst (mark_invoice_paid 2000 shop_paid_event shop_pending) = Inr False" by code_simp
    then show ?thesis by (metis prod.collapse)
  qed
  have f: "find_invoice shop_pending (mk_invoice shop_paid_event) = Some
      (new_invoice 1000 ''i1'' ''s1'' STRIPE 1900 ''EUR'' 1000 2592001000,
       new_subscription 1000 ''s1'' ''u1'' ''p1'' STRIPE)" by code_simp
  show ?thesis
    using payment_opens_access [OF shop_pending_ok run f]
    by (auto simp: new_invoice_def new_subscription_def shop_pending_def)
qed

text \<open>C33: A failed payment limits access: when a subscription invoice is marked failed, its
  subscription, and no other, changes; without an earlier period (or with no configured grace) it
  is never entitled, otherwise it is entitled from the start of its period until the later of the
  grace it already had and the configured number of days after now or after its period's end.\<close>

theorem failure_limits_access:
  assumes "billing_ok d" and "mark_invoice_failed cfg now p d = (Inr False, d')"
    and "find_invoice d (mk_invoice p) = Some (i, s)" and "inv_kind i = SUBSCRIPTION"
  shows "\<exists>s'. subs d' = map (\<lambda>r. if r = s then s' else r) (subs d) \<and> sub_id s' = sub_id s
    \<and> (\<forall>t. entitled_at t s' \<longleftrightarrow>
         0 < grace_period_days cfg \<and> (case sub_start s of None \<Rightarrow> False | Some a \<Rightarrow> a \<le> t)
         \<and> (t < max now (case sub_end s of None \<Rightarrow> now | Some e \<Rightarrow> e) + grace_period_days cfg * ms_per_day
            \<or> (case sub_grace s of None \<Rightarrow> False | Some g \<Rightarrow> t < g)))"
proof -
  obtain i0 s0 where "find_invoice d (mk_invoice p) = Some (i0, s0)"
    and rows: "subs d' = (if inv_kind i0 = OVERAGE then subs d
       else map (\<lambda>r. if r = s0 then (past_due_sub cfg now p s0 s0)\<lparr>sub_updated := now\<rparr> else r) (subs d))"
    by (rule mark_with_rows [OF assms(2) [unfolded mark_invoice_failed_eq] assms(1)])
      (simp add: failed_invoice_def, blast)
  then have "subs d' = map (\<lambda>r. if r = s then (past_due_sub cfg now p s s)\<lparr>sub_updated := now\<rparr> else r) (subs d)"
    using assms(3,4) by simp
  then show ?thesis
    by (intro exI [of _ "(past_due_sub cfg now p s s)\<lparr>sub_updated := now\<rparr>"] conjI)
      (auto simp: past_due_sub_def entitled_at_def col_le_def col_gt_def resolve_grace_period_ends_at_def
        set_utc_date_add Let_def max_def split: option.splits)
qed

definition shop_failed_event :: fail_params where
  "shop_failed_event = \<lparr>mk_invoice = ''i1'', mk_provider = STRIPE, mk_session = None,
     mk_external = Some ''in_1'', mk_sub_external = Some ''sub_1'', mk_attempts = Some 1,
     fl_status = Some IPastDue, fl_next = None\<rparr>"

theorem failure_limits_access_witness:
  "\<exists>s'. sub_id s' = ''s1''
    \<and> subs (snd (mark_invoice_failed (shop_config STRIPE) 2000 shop_failed_event shop_pending)) = [s']
    \<and> \<not> entitled_at 2000 s'"
proof -
  have run: "mark_invoice_failed (shop_config STRIPE) 2000 shop_failed_event shop_pending
      = (Inr False, snd (mark_invoice_failed (shop_config STRIPE) 2000 shop_failed_event shop_pending))"
  proof -
    have "fst (mark_invoice_failed (shop_config STRIPE) 2000 shop_failed_event shop_pending) = Inr False"
      by code_simp
    then show ?thesis by (metis prod.collapse)
  qed
  have f: "find_invoice shop_pending (mk_invoice shop_failed_event) = Some
      (new_invoice 1000 ''i1'' ''s1'' STRIPE 1900 ''EUR'' 1000 2592001000,
       new_subscription 1000 ''s1'' ''u1'' ''p1'' STRIPE)" by code_simp
  show ?thesis
    using failure_limits_access [OF shop_pending_ok run f]
    by (auto simp: new_invoice_def new_subscription_def shop_pending_def)
qed

text \<open>C34: Only its owner or an administrator cancels a subscription, and cancelling only sets the
  cancellation flag of that subscription and, when Stripe answers it, its period's end: the access
  until then is kept. A refused or failed cancellation changes nothing.\<close>

theorem cancel_only_own:
  assumes "cancel_subscription (env_of cfg port scfg sdk) now sid user d = (res, d')" and "billing_ok d"
  shows "(\<exists>e. res = Inl e \<and> d' = d)
    \<or> (\<exists>s pend. res = Inr sid \<and> find_unique (\<lambda>s. sub_id s = sid) (subs d) = Some s
        \<and> (au_role user = ADMIN \<or> sub_user s = au_id user)
        \<and> invoices d' = invoices d
        \<and> subs d' = map (\<lambda>r. if r = s then s\<lparr>sub_cancel := True, sub_end := or_else pend (sub_end s),
              sub_updated := now\<rparr> else r) (subs d)
        \<and> ((sub_provider s \<noteq> STRIPE \<or> sub_external s = None) \<longrightarrow> pend = None))"
  using assms(1) stored_provider_contract
proof (cases rule: cancel_subscription_cases)
  case (rejected e)
  then show ?thesis by blast
next
  case (written s pend r)
  have sin: "s \<in> set (subs d)" "sub_id s = sid" using find_unique_Some [OF written(1)] by auto
  show ?thesis
  proof (cases r)
    case (Inl e)
    then show ?thesis using written(3,4) update_sub_Inl by auto
  next
    case (Inr u)
    have d': "d' = set_sub sid (\<lambda>r. (cancel_requested pend r)\<lparr>sub_updated := now\<rparr>) d"
      using written(3) Inr by (auto elim: update_sub_cases)
    have "subs d' = map (\<lambda>r. if r = s then (cancel_requested pend s)\<lparr>sub_updated := now\<rparr> else r) (subs d)"
      using map_update_row [of sub_id "subs d" s "\<lambda>r. (cancel_requested pend r)\<lparr>sub_updated := now\<rparr>"]
        billing_okD(1) [OF assms(2)] sin by (simp add: d' set_sub_def cong: if_cong)
    moreover have "invoices d' = invoices d" by (simp add: d' set_sub_def)
    moreover have "res = Inr sid" using written(4) Inr by simp
    ultimately show ?thesis using written(1,2,5) unfolding cancel_requested_def by auto
  qed
qed

theorem cancel_only_own_witness:
  "snd (cancel_subscription (shop_env MOCK) 5000 ''s1'' (shop_user\<lparr>au_id := ''u2''\<rparr>) shop_pending) = shop_pending"
proof -
  obtain res d' where run: "cancel_subscription (env_of (shop_config MOCK) 3000 sample_stripe_config
      (sample_sdk ''paid'')) 5000 ''s1'' (shop_user\<lparr>au_id := ''u2''\<rparr>) shop_pending = (res, d')" by (metis surj_pair)
  have "fst (cancel_subscription (shop_env MOCK) 5000 ''s1'' (shop_user\<lparr>au_id := ''u2''\<rparr>) shop_pending)
      = Inl (sub_app_error NOT_OWNER ''NOT_OWNER'' 403)" by code_simp
  then have "res = Inl (sub_app_error NOT_OWNER ''NOT_OWNER'' 403)" by (simp add: shop_env_def run)
  then show ?thesis using cancel_only_own [OF run shop_pending_ok] by (auto simp: shop_env_def run)
qed

section \<open>One invoice per external invoice\<close>

lemma update_invoice_ids:
  assumes "update_invoice iid g d = (r, d')" "\<And>r. inv_id (g r) = inv_id r"
  shows "map inv_id (invoices d') = map inv_id (invoices d)"
  using assms(1)
proof (cases rule: update_invoice_cases)
  case (2 x rows)
  show ?thesis unfolding 2(2) set_invoice_def by (simp add: assms(2) cong: map_cong)
qed simp

lemma mark_with_ids:
  assumes "mark_with now iid external fi fs d = (r, d')" "\<And>i s r. inv_id (fi i s r) = inv_id r"
  shows "map inv_id (invoices d') = map inv_id (invoices d)"
  using assms(1)
proof (cases rule: mark_with_cases)
  case (overage i s)
  show ?thesis by (rule update_invoice_ids [OF overage(5) assms(2)])
next
  case (half i s e)
  show ?thesis by (rule update_invoice_ids [OF half(5) assms(2)])
next
  case (both i s d1)
  show ?thesis unfolding update_sub_invoices [OF both(6)] by (rule update_invoice_ids [OF both(5) assms(2)])
qed simp_all

lemma mark_ids:
  "mark_invoice_paid now mp d = (r, d') \<Longrightarrow> map inv_id (invoices d') = map inv_id (invoices d)"
  "mark_invoice_failed cfg now fp d = (r, d') \<Longrightarrow> map inv_id (invoices d') = map inv_id (invoices d)"
  unfolding mark_invoice_paid_eq mark_invoice_failed_eq
  by (erule mark_with_ids, simp add: paid_invoice_def failed_invoice_def)+

text \<open>After the invoice is resolved, the synchronization writes this invoice and creates none.\<close>

lemma sync_cases:
  assumes "sync_invoice_from_external cfg now nid p d = (res, d')"
  obtains (unresolved) e where "resolve_invoice_for_external_sync now nid p d = (Inl e, d')" "res = Inl e"
  | (lost) iid where "resolve_invoice_for_external_sync now nid p d = (Inr iid, d')" "res = Inl invoice_not_found"
  | (written) iid d1 i r where "resolve_invoice_for_external_sync now nid p d = (Inr iid, d1)"
      "find_unique (\<lambda>r. inv_id r = iid) (invoices d1) = Some i"
      "(\<exists>r1. update_invoice iid (draft_invoice p i) d1 = (r1, d') \<and> ((\<exists>e. r = Inl e) \<longleftrightarrow> (\<exists>e. r1 = Inl e)))
       \<or> mark_invoice_paid now (sync_mark_params iid p) d1 = (r, d')
       \<or> mark_invoice_failed cfg now (sync_fail_params iid p) d1 = (r, d')"
      "res = (case r of Inl e \<Rightarrow> res | Inr b \<Rightarrow> Inr iid)" "(\<exists>e. r = Inl e) \<longrightarrow> (\<exists>e. res = Inl e)"
proof -
  obtain r1 d1 where rs: "resolve_invoice_for_external_sync now nid p d = (r1, d1)" by (metis surj_pair)
  show ?thesis
  proof (cases r1)
    case (Inl e)
    then have "res = Inl e" "d' = d1"
      using assms rs by (simp_all add: sync_invoice_from_external_def bnd_def)
    then show ?thesis using rs Inl by (intro unresolved) simp_all
  next
    case (Inr iid)
    show ?thesis
    proof (cases "find_unique (\<lambda>r. inv_id r = iid) (invoices d1)")
      case None
      then have "res = Inl invoice_not_found" "d' = d1" using assms rs Inr
        by (simp_all add: sync_invoice_from_external_def bnd_def gets_def raise_def)
      then show ?thesis using rs Inr by (intro lost) simp_all
    next
      case (Some i)
      note w = written [OF rs [unfolded Inr] Some]
      consider "sy_status p = IDraft" | "sy_status p \<noteq> IDraft" "sy_status p = IPaid"
        | "sy_status p \<noteq> IDraft" "sy_status p \<noteq> IPaid" by blast
      then show ?thesis
      proof cases
        case 1
        obtain r2 d2 where u: "update_invoice iid (draft_invoice p i) d1 = (r2, d2)" by (metis surj_pair)
        have "d' = d2" "res = (case r2 of Inl e \<Rightarrow> Inl e | Inr x \<Rightarrow> Inr iid)"
          using assms rs Inr Some 1 u
          by (simp_all add: sync_invoice_from_external_def bnd_def gets_def ret_def split: sum.splits)
        then show ?thesis
          by (intro w [of "case r2 of Inl e \<Rightarrow> Inl e | Inr x \<Rightarrow> Inr False"]) (use u in \<open>auto split: sum.splits\<close>)
      next
        case 2
        obtain r2 d2 where u: "mark_invoice_paid now (sync_mark_params iid p) d1 = (r2, d2)" by (metis surj_pair)
        have "d' = d2" "res = (case r2 of Inl e \<Rightarrow> Inl e | Inr x \<Rightarrow> Inr iid)"
          using assms rs Inr Some 2 u
          by (simp_all add: sync_invoice_from_external_def bnd_def gets_def ret_def split: sum.splits)
        then show ?thesis by (intro w [of r2]) (use u in \<open>auto split: sum.splits\<close>)
      next
        case 3
        obtain r2 d2 where u: "mark_invoice_failed cfg now (sync_fail_params iid p) d1 = (r2, d2)" by (metis surj_pair)
        have "d' = d2" "res = (case r2 of Inl e \<Rightarrow> Inl e | Inr x \<Rightarrow> Inr iid)"
          using assms rs Inr Some 3 u
          by (simp_all add: sync_invoice_from_external_def bnd_def gets_def ret_def split: sum.splits)
        then show ?thesis by (intro w [of r2]) (use u in \<open>auto split: sum.splits\<close>)
      qed
    qed
  qed
qed

lemma sync_ids:
  assumes "sync_invoice_from_external cfg now nid p d = (res, d')"
    "find_invoice_by_external d (sy_external p) = Some i"
  shows "map inv_id (invoices d') = map inv_id (invoices d) \<and> (\<forall>x. res = Inr x \<longrightarrow> x = inv_id i)"
proof -
  have rs: "resolve_invoice_for_external_sync now nid p d = (Inr (inv_id i), d)"
    using assms(2) by (simp add: resolve_invoice_for_external_sync_def bnd_def gets_def ret_def)
  show ?thesis using assms(1)
  proof (cases rule: sync_cases)
    case (unresolved e)
    then show ?thesis using rs by simp
  next
    case (lost iid)
    then show ?thesis using rs by simp
  next
    case (written iid d1 j r)
    have eqs: "iid = inv_id i" "d1 = d" using written(1) rs by simp_all
    have "map inv_id (invoices d') = map inv_id (invoices d)"
      using written(3) mark_ids update_invoice_ids [of iid "draft_invoice p j" d _ d'] unfolding eqs
      by (elim disjE exE conjE) (auto simp: draft_invoice_def Let_def)
    moreover have "\<forall>x. res = Inr x \<longrightarrow> x = inv_id i"
      using written(4,5) eqs(1) by (cases r) auto
    ultimately show ?thesis by blast
  qed
qed

lemma marked_external:
  assumes "mark_with now iid external fi fs d = (Inr b, d')" "billing_ok d"
    "\<And>i s. inv_external (fi i s i) = nullish external (inv_external i)" "\<And>i s r. inv_sub (fi i s r) = inv_sub r"
    "\<And>i s r. inv_id (fi i s r) = inv_id r"
    and "find_unique (\<lambda>r. inv_id r = iid) (invoices d) = Some i"
    and "external = Some x" and "\<not> settled_elsewhere i external"
  shows "\<exists>i'. i' \<in> set (invoices d') \<and> inv_id i' = iid \<and> inv_external i' = Some x"
proof -
  have "b = False"
    using assms(1)
  proof (cases rule: mark_with_cases)
    case (ignored j s)
    then have "j = i" using assms(6) by (simp add: find_invoice_parts)
    then show ?thesis using ignored(2) assms(8) by simp
  qed auto
  then have run: "mark_with now iid external fi fs d = (Inr False, d')" using assms(1) by simp
  obtain j s where f: "find_invoice d iid = Some (j, s)"
    and rows: "invoices d' = map (\<lambda>r. if r = j then fi j s j else r) (invoices d)"
    by (rule mark_with_rows [OF run assms(2,4)]) blast
  have "j = i" using f assms(6) by (simp add: find_invoice_parts)
  moreover have "i \<in> set (invoices d)" "inv_id i = iid" using find_unique_Some [OF assms(6)] by auto
  ultimately show ?thesis
    by (intro exI [of _ "fi j s j"]) (auto simp: rows assms(3,5,7))
qed

text \<open>A resolved invoice is not settled under another external invoice.\<close>

lemma resolved_not_elsewhere:
  assumes "resolve_invoice_for_external_sync now nid p d = (Inr iid, d1)" "billing_ok d"
    "find_unique (\<lambda>r. inv_id r = iid) (invoices d1) = Some i"
  shows "\<not> settled_elsewhere i (Some (sy_external p))"
proof (cases "find_invoice_by_external d (sy_external p)")
  case (Some j)
  then have "iid = inv_id j" "d1 = d"
    using assms(1) by (auto simp: resolve_invoice_for_external_sync_def bnd_def gets_def ret_def)
  moreover have j: "j \<in> set (invoices d)" "inv_external j = Some (sy_external p)"
    using Some find_unique_Some unfolding find_invoice_by_external_def by fastforce+
  ultimately have "i = j" using find_unique_Some [OF assms(3)] row_by_id [OF assms(2) j(1)] by simp
  then show ?thesis using j by (simp add: settled_elsewhere_def)
next
  case None
  show ?thesis
  proof (cases "metadata_match p d")
    case (Some x)
    then have eqs: "iid = x" "d1 = d"
      using assms(1) None by (auto simp: resolve_invoice_for_external_sync_def bnd_def gets_def ret_def)
    obtain j where "find_unique (\<lambda>r. Some (inv_id r) = sy_metadata p) (invoices d) = Some j" "x = inv_id j"
      "\<not> js_truthy_str (inv_external j) \<or> inv_external j = Some (sy_external p)"
      using Some by (auto simp: metadata_match_def split: if_splits option.splits)
    moreover from this have "i = j"
      using find_unique_Some [OF assms(3)] find_unique_Some row_by_id [OF assms(2)] eqs by metis
    ultimately show ?thesis by (auto simp: settled_elsewhere_def)
  next
    case nomatch: None
    have ext: "js_truthy_str (sy_sub_external p)"
      using assms(1) None nomatch
      by (cases "js_truthy_str (sy_sub_external p)")
        (simp_all add: resolve_invoice_for_external_sync_def bnd_def gets_def raise_def)
    have "find_sub_by_external d (the (sy_sub_external p)) \<noteq> None"
      using assms(1) None nomatch ext
      by (cases "find_sub_by_external d (the (sy_sub_external p))")
        (simp_all add: resolve_invoice_for_external_sync_def bnd_def gets_def raise_def)
    then obtain s where s: "find_sub_by_external d (the (sy_sub_external p)) = Some s" by blast
    have "bnd (create_invoice (external_invoice now nid p s)) (\<lambda>_. ret nid) d = (Inr iid, d1)"
      using assms(1) None nomatch ext s by (simp add: resolve_invoice_for_external_sync_def bnd_def gets_def)
    then have "create_invoice (external_invoice now iid p s) d = (Inr (), d1)" "iid = nid"
      by (auto simp: bnd_Inr ret_def)
    then have "d1 = d\<lparr>invoices := invoices d @ [external_invoice now iid p s]\<rparr>" "billing_ok d1"
      using create_invoice_ok assms(2) by (auto elim: create_invoice_cases)
    moreover have "inv_id (external_invoice now iid p s) = iid" by (simp add: external_invoice_def new_invoice_def)
    ultimately have "i = external_invoice now iid p s"
      using row_by_id [of d1 "external_invoice now iid p s" i] find_unique_Some [OF assms(3)] by simp
    then show ?thesis by (simp add: settled_elsewhere_def external_invoice_def new_invoice_def)
  qed
qed

text \<open>A successful synchronization leaves the invoice it names carrying the external id.\<close>

lemma sync_carries_external:
  assumes "sync_invoice_from_external cfg now nid p d = (Inr iid, d1)" "billing_ok d"
  shows "\<exists>i. i \<in> set (invoices d1) \<and> inv_id i = iid \<and> inv_external i = Some (sy_external p)"
  using assms(1)
proof (cases rule: sync_cases)
  case (written j d0 i r)
  obtain b where b: "r = Inr b" using written(5) by (cases r) auto
  then have j: "j = iid" using written(4) by simp
  have ok0: "billing_ok d0"
    using written(1)
  proof (cases rule: resolve_external_cases)
    case 1
    then show ?thesis using assms(2) by simp
  next
    case (2 s r0)
    show ?thesis by (rule create_invoice_ok [OF 2(1) assms(2)])
  qed
  note free = resolved_not_elsewhere [OF written(1) assms(2) written(2)]
  have f: "find_unique (\<lambda>r. inv_id r = iid) (invoices d0) = Some i" using written(2) j by simp
  consider u where "update_invoice iid (draft_invoice p i) d0 = (Inr u, d1)"
    | "mark_invoice_paid now (sync_mark_params iid p) d0 = (Inr b, d1)"
    | "mark_invoice_failed cfg now (sync_fail_params iid p) d0 = (Inr b, d1)"
    using written(3) b j by (metis sum.exhaust sum.simps(4))
  then show ?thesis
  proof cases
    case 1
    have d1: "d1 = set_invoice iid (draft_invoice p i) d0" using 1 by (auto elim: update_invoice_cases)
    have "find_unique (\<lambda>r. inv_id r = iid) (invoices d1) = Some (draft_invoice p i i)"
      unfolding d1 by (rule set_invoice_find [OF f]) (simp add: draft_invoice_def Let_def)
    then have "draft_invoice p i i \<in> set (invoices d1)" "inv_id (draft_invoice p i i) = iid"
      using find_unique_Some by fastforce+
    moreover have "inv_external (draft_invoice p i i) = Some (sy_external p)"
      by (simp add: draft_invoice_def Let_def)
    ultimately show ?thesis by blast
  next
    case 2
    have "\<exists>i'. i' \<in> set (invoices d1) \<and> inv_id i' = mk_invoice (sync_mark_params iid p)
        \<and> inv_external i' = Some (sy_external p)"
      by (rule marked_external [OF 2 [unfolded mark_invoice_paid_eq] ok0])
        (use f free in \<open>simp_all add: paid_invoice_def sync_mark_params_def\<close>)
    then show ?thesis by (simp add: sync_mark_params_def)
  next
    case 3
    have "\<exists>i'. i' \<in> set (invoices d1) \<and> inv_id i' = mk_invoice (sync_fail_params iid p)
        \<and> inv_external i' = Some (sy_external p)"
      by (rule marked_external [OF 3 [unfolded mark_invoice_failed_eq] ok0])
        (use f free in \<open>simp_all add: failed_invoice_def sync_fail_params_def\<close>)
    then show ?thesis by (simp add: sync_fail_params_def)
  qed
qed auto

lemma sync_ok:
  assumes "sync_invoice_from_external cfg now nid p d = (res, d')" "billing_ok d"
  shows "billing_ok d'"
proof -
  obtain r1 d1 where rs: "resolve_invoice_for_external_sync now nid p d = (r1, d1)" by (metis surj_pair)
  have ok1: "billing_ok d1" using rs
  proof (cases rule: resolve_external_cases)
    case 1
    then show ?thesis using assms(2) by simp
  next
    case (2 s r0)
    show ?thesis by (rule create_invoice_ok [OF 2(1) assms(2)])
  qed
  show ?thesis using assms(1)
  proof (cases rule: sync_cases)
    case (written iid d2 i r)
    have "d2 = d1" using written(1) rs by simp
    then consider r1 where "update_invoice iid (draft_invoice p i) d1 = (r1, d')"
      | "mark_invoice_paid now (sync_mark_params iid p) d1 = (r, d')"
      | "mark_invoice_failed cfg now (sync_fail_params iid p) d1 = (r, d')" using written(3) by blast
    then show ?thesis
    proof cases
      case 1
      show ?thesis by (rule update_invoice_ok [OF 1 ok1]) (simp add: draft_invoice_def Let_def)
    next
      case 2
      show ?thesis by (rule mark_billing_ok(1) [OF 2 ok1])
    next
      case 3
      show ?thesis by (rule mark_billing_ok(2) [OF 3 ok1])
    qed
  qed (use rs ok1 in auto)
qed

text \<open>C35: External invoices are recorded once: after a synchronization of an external invoice returned
  a local invoice, every later synchronization of the same external invoice, with any status and at
  any time, creates no invoice and, if it succeeds, is about the same local invoice.\<close>

theorem external_invoice_once:
  assumes "billing_ok d" and "sync_invoice_from_external cfg now nid p d = (Inr iid, d1)"
    and "sync_invoice_from_external cfg2 now2 nid2 q d1 = (res, d2)" and "sy_external q = sy_external p"
  shows "map inv_id (invoices d2) = map inv_id (invoices d1) \<and> (case res of Inl e \<Rightarrow> True | Inr x \<Rightarrow> x = iid)"
proof -
  obtain i where i: "i \<in> set (invoices d1)" "inv_id i = iid" "inv_external i = Some (sy_external p)"
    using sync_carries_external [OF assms(2,1)] by blast
  have "find_invoice_by_external d1 (sy_external q) = Some i"
    unfolding find_invoice_by_external_def assms(4)
    by (rule find_unique_col [of inv_external, OF billing_okD(5) [OF sync_ok [OF assms(2,1)]] i(1,3)])
  then show ?thesis using sync_ids [OF assms(3)] i(2) by (auto split: sum.splits)
qed

definition shop_sync :: "invoice_status \<Rightarrow> sync_invoice_params" where
  "shop_sync st = \<lparr>sy_provider = STRIPE, sy_external = ''in_1'', sy_sub_external = Some ''sub_1'',
     sy_session = None, sy_metadata = Some ''i1'', sy_allow_metadata = True, sy_amount = 1900,
     sy_currency = ''EUR'', sy_start = 1000, sy_end = 2592001000, sy_status = st, sy_attempts = Some 1,
     sy_next = None\<rparr>"

theorem external_invoice_once_witness:
  "map inv_id (invoices (snd (sync_invoice_from_external (shop_config STRIPE) 4000 ''i3'' (shop_sync IPaid)
     (snd (sync_invoice_from_external (shop_config STRIPE) 3000 ''i2'' (shop_sync IDraft) shop_pending))))) = [''i1'']"
proof -
  let ?r1 = "sync_invoice_from_external (shop_config STRIPE) 3000 ''i2'' (shop_sync IDraft) shop_pending"
  let ?r2 = "sync_invoice_from_external (shop_config STRIPE) 4000 ''i3'' (shop_sync IPaid) (snd ?r1)"
  have "fst ?r1 = Inr ''i1''" "map inv_id (invoices (snd ?r1)) = [''i1'']" by code_simp+
  moreover from this have "?r1 = (Inr ''i1'', snd ?r1)" by (metis prod.collapse)
  moreover have "?r2 = (fst ?r2, snd ?r2)" by simp
  moreover have "sy_external (shop_sync IPaid) = sy_external (shop_sync IDraft)" by (simp add: shop_sync_def)
  ultimately show ?thesis using external_invoice_once [OF shop_pending_ok] by metis
qed

section \<open>Witnesses of the lifecycle properties\<close>

theorem billing_invariant_witness:
  "billing_ok (snd (mark_invoice_paid 2000 (mark_only ''i1'' MOCK)
     (snd (subscribe (shop_env STRIPE) 1000 None ''s1'' ''i1'' ''p1'' shop_user (shop_db 1900)))))"
proof -
  let ?d1 = "snd (subscribe (shop_env STRIPE) 1000 None ''s1'' ''i1'' ''p1'' shop_user (shop_db 1900))"
  let ?d2 = "snd (mark_invoice_paid 2000 (mark_only ''i1'' MOCK) ?d1)"
  let ?step = "billing_step (shop_config STRIPE) 3000 sample_stripe_config"
  have 1: "?step empty_db (shop_db 1900)"
    by (rule billing_step.elsewhere) (simp_all add: shop_db_def empty_db_def)
  have 2: "?step (shop_db 1900) ?d1"
    unfolding shop_env_def by (rule billing_step.subscribes [OF prod.collapse [symmetric]])
  have 3: "?step ?d1 ?d2" by (rule billing_step.pays [OF prod.collapse [symmetric]])
  have "?step\<^sup>*\<^sup>* empty_db ?d2"
    by (rule converse_rtranclp_into_rtranclp [where r = ?step, OF 1
          converse_rtranclp_into_rtranclp [where r = ?step, OF 2
            converse_rtranclp_into_rtranclp [where r = ?step, OF 3 rtranclp.rtrancl_refl]]])
  then show ?thesis using billing_invariant by blast
qed


section \<open>What the code also does\<close>

text \<open>
  A late payment: the user subscribes, the payment fails, the user subscribes again to the same
  product (the past due subscription does not count as open) and both invoices are then paid.
  Both subscriptions are active.
\<close>

lemma two_active_subscriptions:
  "map sub_status (subs (snd (mock_succeed 5000 ''i2'' (snd (mock_succeed 4000 ''i1''
     (snd (subscribe (shop_env MOCK) 3000 None ''s2'' ''i2'' ''p1'' shop_user
       (snd (mock_fail (shop_config MOCK) 2000 ''i1''
         (snd (subscribe (shop_env MOCK) 1000 None ''s1'' ''i1'' ''p1'' shop_user (shop_db 1900))))))))))))
   = [ACTIVE, ACTIVE]"
  by code_simp

text \<open>A late failure event of the paid invoice voids it and makes the subscription past due.\<close>

lemma late_failure_voids_paid_invoice:
  "(let d = snd (mock_fail (shop_config MOCK) 3000 ''i1'' (snd (mock_succeed 2000 ''i1''
      (snd (subscribe (shop_env MOCK) 1000 None ''s1'' ''i1'' ''p1'' shop_user (shop_db 1900))))))
    in (map inv_status (invoices d), map sub_status (subs d))) = ([IVoid], [PAST_DUE])"
  by code_simp

text \<open>A late payment event reactivates a canceled subscription.\<close>

lemma late_payment_revives_canceled:
  "map sub_status (subs (snd (mark_invoice_paid 6000 shop_paid_event
     (snd (mark_subscription_canceled_by_external_id 5000 ''sub_1''
       (snd (mark_invoice_paid 2000 shop_paid_event shop_pending))))))) = [ACTIVE]"
  by code_simp

text \<open>Every further failure event after the end of the period restarts the grace period.\<close>

lemma grace_restarts_at_each_failure:
  "map sub_grace (subs (snd (mark_invoice_failed (shop_config STRIPE) (2592001000 + 2 * 86400000) shop_failed_event
     (snd (mark_invoice_failed (shop_config STRIPE) 2592001000 shop_failed_event
       (snd (mark_invoice_paid 2000 shop_paid_event shop_pending)))))))
   = [Some (2592001000 + 5 * 86400000)]"
  by code_simp

end
