(* ===== verification/RetryWorker.thy ===== *)
theory RetryWorker
  imports Lease BillingFacts
begin

text \<open>
  \<open>src/modules/billing/billing-managed-retry.service.ts\<close>: the worker that retries failed
  renewals. What the outside may do to one retry is a \<open>retry_env\<close>: the Stripe client it talks
  to, its clocks, and whether the database fails right after Stripe answered.
\<close>

section \<open>Which invoices are due\<close>

definition retry_due :: "db \<Rightarrow> date \<Rightarrow> invoice_row \<Rightarrow> bool" where
  "retry_due d now i \<longleftrightarrow>
     inv_provider i = STRIPE \<and> inv_status i = IPastDue \<and> inv_external i \<noteq> None
     \<and> mr_exhausted (inv_retry i) = None
     \<and> ((case mr_next (inv_retry i) of None \<Rightarrow> False | Some t \<Rightarrow> t \<le> now)
        \<or> (mr_next (inv_retry i) = None \<and> mr_count (inv_retry i) = 0))
     \<and> (case sub_of d i of None \<Rightarrow> False | Some s \<Rightarrow> sub_status s = PAST_DUE \<and> sub_start s \<noteq> None)"

definition retry_order :: "invoice_row \<Rightarrow> (int \<times> int) \<times> int" where
  "retry_order i = (asc_nulls_last (mr_next (inv_retry i)), inv_created i)"

definition due_retries :: "nat \<Rightarrow> date \<Rightarrow> db \<Rightarrow> invoice_row list" where
  "due_retries batch now d = take batch (find_many retry_order (retry_due d now) (invoices d))"

section \<open>One retry\<close>

record retry_env =
  re_provider :: payment_provider
  re_attempted :: date
  re_marked :: date
  re_fault :: "exn option"

definition describe_retry_error :: "exn \<Rightarrow> string" where
  "describe_retry_error e =
     (if js_blank (exn_message e) then ''Unknown renewal retry error'' else exn_message e)"

definition attempted_invoice :: "billing_config \<Rightarrow> int \<Rightarrow> date \<Rightarrow> string option \<Rightarrow> invoice_row \<Rightarrow> invoice_row" where
  "attempted_invoice cfg count attempted msg r =
     r\<lparr>inv_retry := create_managed_retry_state_after_attempt count attempted (retry_delays cfg) msg\<rparr>"

definition paid_result :: "string \<Rightarrow> retry_result \<Rightarrow> mark_params" where
  "paid_result iid x = \<lparr>mk_invoice = iid, mk_provider = STRIPE, mk_session = None,
     mk_external = Some (rr_invoice x), mk_sub_external = rr_sub x, mk_attempts = rr_attempts x\<rparr>"

definition failed_result :: "string \<Rightarrow> retry_result \<Rightarrow> fail_params" where
  "failed_result iid x = \<lparr>mk_invoice = iid, mk_provider = STRIPE, mk_session = None,
     mk_external = Some (rr_invoice x), mk_sub_external = rr_sub x, mk_attempts = rr_attempts x,
     fl_status = Some (if rr_status x = IVoid then IVoid else IPastDue), fl_next = rr_next x\<rparr>"

text \<open>The part inside \<open>try\<close>.\<close>

definition try_invoice_retry ::
  "billing_config \<Rightarrow> retry_env \<Rightarrow> string \<Rightarrow> string \<Rightarrow> int \<Rightarrow> (db, unit) prog" where
  "try_invoice_retry cfg en iid external count =
     bnd (pp_retry (re_provider en) external) (\<lambda>x.
     bnd (may_fail (re_fault en)) (\<lambda>_.
       if rr_status x = IPaid
       then bnd (mark_invoice_paid (re_marked en) (paid_result iid x)) (\<lambda>_. ret ())
       else
         bnd (mark_invoice_failed cfg (re_marked en) (failed_result iid x)) (\<lambda>_.
           if rr_status x = IPastDue
           then update_invoice iid (attempted_invoice cfg count (re_attempted en) None)
           else ret ())))"

definition process_invoice_retry ::
  "billing_config \<Rightarrow> retry_env \<Rightarrow> string \<Rightarrow> string \<Rightarrow> int \<Rightarrow> (db, unit) prog" where
  "process_invoice_retry cfg en iid external count =
     try_catch (try_invoice_retry cfg en iid external count)
       (\<lambda>e. bnd (update_invoice iid (attempted_invoice cfg count (re_attempted en)
                    (Some (describe_retry_error e)))) (\<lambda>_. raise e))"

section \<open>The worker\<close>

definition retry_should_run :: "billing_config \<Rightarrow> bool" where
  "retry_should_run cfg \<longleftrightarrow> payment_provider cfg = STRIPE \<and> retry_enabled cfg"

text \<open>The loop; an empty external id is skipped. The invoice's columns are those the query read.\<close>

definition retry_invoices ::
  "billing_config \<Rightarrow> (invoice_row \<Rightarrow> retry_env) \<Rightarrow> invoice_row list \<Rightarrow> (db, int \<times> int) prog" where
  "retry_invoices cfg env is = (\<lambda>d.
     let (counts, d') = run_batch (\<lambda>i.
            if \<not> js_truthy_str (inv_external i) then ret False
            else bnd (process_invoice_retry cfg (env i) (inv_id i) (the (inv_external i))
                        (mr_count (inv_retry i))) (\<lambda>_. ret True)) is (0, 0) d
     in (Inr counts, d'))"

definition process_due_retries ::
  "billing_config \<Rightarrow> string \<Rightarrow> date \<Rightarrow> exn option \<Rightarrow> date \<Rightarrow> (invoice_row \<Rightarrow> retry_env) \<Rightarrow> (db, int \<times> int) prog" where
  "process_due_retries cfg owner lease_now fault now env =
     (if \<not> retry_should_run cfg then ret (0, 0)
      else bnd (retry_try_acquire_lease cfg owner lease_now fault) (\<lambda>acquired.
        if \<not> acquired then ret (0, 0)
        else bnd (gets (due_retries (retry_batch cfg) now)) (retry_invoices cfg env)))"

definition run_retry_cycle ::
  "billing_config \<Rightarrow> string \<Rightarrow> date \<Rightarrow> exn option \<Rightarrow> date \<Rightarrow> (invoice_row \<Rightarrow> retry_env) \<Rightarrow> (db, unit) prog" where
  "run_retry_cycle cfg owner lease_now fault now env =
     try_catch (bnd (process_due_retries cfg owner lease_now fault now env) (\<lambda>_. ret ())) (\<lambda>e. ret ())"

section \<open>What one retry does\<close>

lemma find_invoice_unique:
  assumes "billing_ok d" "i \<in> set (invoices d)"
  shows "find_unique (\<lambda>r. inv_id r = inv_id i) (invoices d) = Some i"
  using find_unique_col [of "\<lambda>r. Some (inv_id r)" "invoices d" i "inv_id i"] assms
  by (simp add: billing_ok_def)

lemma attempted_update:
  assumes "billing_ok d" "find_unique (\<lambda>r. inv_id r = iid) (invoices d) = Some r" "int4_ok (count + 1)"
  shows "update_invoice iid (attempted_invoice cfg count t0 msg) d
    = (Inr (), set_invoice iid (attempted_invoice cfg count t0 msg) d)"
proof (rule update_invoice_succeeds [where g = "attempted_invoice cfg count t0 msg", OF assms(1,2)])
  have "invoice_int4 r" using assms(1) find_unique_Some [OF assms(2)] by (auto simp: billing_ok_def list_all_iff)
  then show "invoice_int4 (attempted_invoice cfg count t0 msg r)"
    using assms(3)
    by (simp add: invoice_int4_def attempted_invoice_def create_managed_retry_state_after_attempt_def Let_def)
qed (simp_all add: attempted_invoice_def)

lemma row_kept:
  assumes "map inv_id (invoices d') = map inv_id (invoices d)" "i \<in> set (invoices d)" "billing_ok d'"
  shows "\<exists>r. find_unique (\<lambda>r. inv_id r = inv_id i) (invoices d') = Some r"
proof -
  have "inv_id i \<in> inv_id ` set (invoices d)" using assms(2) by simp
  then have "inv_id i \<in> inv_id ` set (invoices d')" by (metis assms(1) set_map)
  then obtain r where "r \<in> set (invoices d')" "inv_id r = inv_id i" by auto
  then show ?thesis using find_invoice_unique [OF assms(3)] by metis
qed

lemma find_replaced:
  assumes "key x = k"
  shows "find_unique (\<lambda>r. key r = k) (map (\<lambda>r. if key r = k then x else r) rows)
    = map_option (\<lambda>_. x) (find_unique (\<lambda>r. key r = k) rows)"
  using assms by (induction rows) (auto simp: find_unique_def)

text \<open>What the part inside \<open>try\<close> leaves, when it throws and when it returns.\<close>

lemma mark_with_status:
  assumes "mark_with now iid external fi fs d = (Inr b, d')" "billing_ok d"
    and "find_unique (\<lambda>r. inv_id r = iid) (invoices d) = Some i" "inv_status i = IPastDue"
    and "\<And>i s r. inv_id (fi i s r) = inv_id r" "\<And>i s r. inv_sub (fi i s r) = inv_sub r"
  shows "\<exists>s. find_unique (\<lambda>r. inv_id r = iid) (invoices d') = Some (fi i s i)"
proof -
  have "b = False"
    using assms(1)
  proof (cases rule: mark_with_cases)
    case (ignored j s)
    then have "j = i" using assms(3) by (simp add: find_invoice_parts)
    then show ?thesis using ignored(2) assms(4) by (simp add: settled_elsewhere_def)
  qed auto
  then have run: "mark_with now iid external fi fs d = (Inr False, d')" using assms(1) by simp
  obtain j s where f: "find_invoice d iid = Some (j, s)"
    and rows: "invoices d' = map (\<lambda>r. if r = j then fi j s j else r) (invoices d)"
    by (rule mark_with_rows [OF run assms(2,6)]) blast
  have j: "j = i" using f assms(3) by (simp add: find_invoice_parts)
  have iin: "i \<in> set (invoices d)" "inv_id i = iid" using find_unique_Some [OF assms(3)] by auto
  have "invoices d' = map (\<lambda>r. if inv_id r = inv_id i then fi i s i else r) (invoices d)"
    unfolding rows j
    using map_update_row [of inv_id "invoices d" i "\<lambda>r. fi i s i"] billing_okD(2) [OF assms(2)] iin(1) by simp
  then have "find_unique (\<lambda>r. inv_id r = iid) (invoices d') = Some (fi i s i)"
    using find_replaced [of inv_id "fi i s i" iid "invoices d"] assms(3,5) iin(2) by simp
  then show ?thesis by blast
qed

lemma try_retry_cases:
  assumes run: "try_invoice_retry cfg en iid external count d = (res, d1)"
    and con: "payment_contract (re_provider en)" and ok: "billing_ok d"
    and i: "find_unique (\<lambda>r. inv_id r = iid) (invoices d) = Some i" "inv_status i = IPastDue"
  obtains (threw) e where "res = Inl e" "billing_ok d1" "map inv_id (invoices d1) = map inv_id (invoices d)"
  | (settled) i' where "res = Inr ()" "find_unique (\<lambda>r. inv_id r = iid) (invoices d1) = Some i'"
      "inv_status i' = IPaid \<or> inv_status i' = IVoid"
  | (unpaid) d0 i0 where "res = Inr ()" "billing_ok d0"
      "find_unique (\<lambda>r. inv_id r = iid) (invoices d0) = Some i0" "inv_status i0 = IPastDue"
      "update_invoice iid (attempted_invoice cfg count (re_attempted en) None) d0 = (Inr (), d1)"
proof -
  obtain r0 d0 where p: "pp_retry (re_provider en) external d = (r0, d0)" by (metis surj_pair)
  have d0: "d0 = d" by (rule payment_contract.retry_frame [OF con p])
  show ?thesis
  proof (cases "\<exists>x. r0 = Inr x \<and> re_fault en = None")
    case False
    have "\<exists>e. res = Inl e \<and> d1 = d"
      using run p d0 False by (cases r0; cases "re_fault en")
        (auto simp: try_invoice_retry_def bnd_def may_fail_def raise_def ret_def)
    then show ?thesis using threw ok by blast
  next
    case True
    then obtain x where x: "r0 = Inr x" "re_fault en = None" by blast
    have nd: "rr_status x \<noteq> IDraft" using payment_contract.retry_status [OF con p [unfolded x]] .
    have run': "(if rr_status x = IPaid
        then bnd (mark_invoice_paid (re_marked en) (paid_result iid x)) (\<lambda>_. ret ())
        else bnd (mark_invoice_failed cfg (re_marked en) (failed_result iid x)) (\<lambda>_.
             if rr_status x = IPastDue
             then update_invoice iid (attempted_invoice cfg count (re_attempted en) None)
             else ret ())) d = (res, d1)"
      using run p d0 x by (simp add: try_invoice_retry_def bnd_def may_fail_def ret_def)
    show ?thesis
    proof (cases "rr_status x = IPaid")
      case True
      obtain r1 d2 where m: "mark_invoice_paid (re_marked en) (paid_result iid x) d = (r1, d2)" by (metis surj_pair)
      have d2: "d1 = d2" "res = (case r1 of Inl e \<Rightarrow> Inl e | Inr b \<Rightarrow> Inr ())"
        using run' True m by (simp_all add: bnd_def ret_def split: sum.splits)
      show ?thesis
      proof (cases r1)
        case (Inl e)
        then show ?thesis using threw [of e] d2 mark_billing_ok(1) [OF m ok] mark_ids(1) [OF m] by simp
      next
        case (Inr b)
        obtain s where "find_unique (\<lambda>r. inv_id r = iid) (invoices d2) = Some (paid_invoice (paid_result iid x) i i)"
          using mark_with_status [OF m [unfolded mark_invoice_paid_eq Inr] ok, of i] i
          by (auto simp: paid_result_def paid_invoice_def)
        then show ?thesis using settled [of "paid_invoice (paid_result iid x) i i"] d2 Inr
          by (simp add: paid_invoice_def)
      qed
    next
      case False
      obtain r1 d2 where m: "mark_invoice_failed cfg (re_marked en) (failed_result iid x) d = (r1, d2)" by (metis surj_pair)
      have ok2: "billing_ok d2" by (rule mark_billing_ok(2) [OF m ok])
      have ids2: "map inv_id (invoices d2) = map inv_id (invoices d)" by (rule mark_ids(2) [OF m])
      show ?thesis
      proof (cases r1)
        case (Inl e)
        then show ?thesis using threw [of e] run' False m ok2 ids2 by (simp add: bnd_def)
      next
        case (Inr b)
        have id2: "mk_invoice (failed_result iid x) = iid" by (simp add: failed_result_def)
        obtain s where f2: "find_unique (\<lambda>r. inv_id r = iid) (invoices d2)
            = Some (failed_invoice cfg (re_marked en) (failed_result iid x) i s i)"
          using mark_with_status [OF m [unfolded mark_invoice_failed_eq Inr id2] ok i]
          by (auto simp: failed_invoice_def)
        let ?i = "failed_invoice cfg (re_marked en) (failed_result iid x) i s i"
        have st: "inv_status ?i = (if rr_status x = IVoid then IVoid else IPastDue)"
          by (simp add: failed_invoice_def failed_status_def failed_result_def)
        show ?thesis
        proof (cases "rr_status x = IPastDue")
          case False
          then have "rr_status x = IVoid" using nd \<open>rr_status x \<noteq> IPaid\<close> by (cases "rr_status x") auto
          then have "inv_status ?i = IVoid" "res = Inr ()" "d1 = d2"
            using st run' \<open>rr_status x \<noteq> IPaid\<close> False m Inr by (simp_all add: bnd_def ret_def)
          then show ?thesis using settled [of ?i] f2 by simp
        next
          case True
          have u: "update_invoice iid (attempted_invoice cfg count (re_attempted en) None) d2 = (res, d1)"
            using run' False True m Inr by (simp add: bnd_def)
          have "inv_status ?i = IPastDue" using st True by simp
          show ?thesis
          proof (cases res)
            case (Inl e)
            then show ?thesis using threw [of e] ok2 ids2 u update_invoice_Inl by blast
          next
            case (Inr v)
            then show ?thesis using unpaid [OF _ ok2 f2 \<open>inv_status ?i = IPastDue\<close>] u by simp
          qed
        qed
      qed
    qed
  qed
qed

lemma attempted_not_due_early:
  assumes "list_all (\<lambda>m. 0 < m) (retry_delays cfg)" "0 \<le> count"
    "inv_retry i = create_managed_retry_state_after_attempt count t0 (retry_delays cfg) msg" "retry_due d now i"
  shows "count + 1 < int (length (retry_delays cfg)) \<and> t0 + retry_delays cfg ! nat (count + 1) * 60000 \<le> now"
  using assms
  by (auto simp: retry_due_def create_managed_retry_state_after_attempt_def Let_def resolve_managed_retry_at_def
      split: if_splits)


text \<open>A renewal that failed, and an overage invoice that failed, of a past due subscription.\<close>

definition failed_renewal :: "invoice_kind \<Rightarrow> invoice_row" where
  "failed_renewal kind = (new_invoice 1000 ''i1'' ''s1'' STRIPE 1900 ''EUR'' 1000 2592001000)
     \<lparr>inv_kind := kind, inv_external := Some ''in_1'', inv_status := IPastDue\<rparr>"

definition shop_past_due :: "invoice_kind \<Rightarrow> db" where
  "shop_past_due kind = (shop_db 1900)\<lparr>
     subs := [(new_subscription 1000 ''s1'' ''u1'' ''p1'' STRIPE)
       \<lparr>sub_status := PAST_DUE, sub_start := Some 0, sub_end := Some 1000\<rparr>],
     invoices := [failed_renewal kind]\<rparr>"

lemma shop_past_due_ok: "billing_ok (shop_past_due kind)"
  by (simp add: billing_ok_def shop_past_due_def failed_renewal_def shop_db_def empty_db_def new_subscription_def
      new_invoice_def invoice_int4_def int4_ok_def opt_int4_ok_def clear_managed_retry_state_def)
    (simp add: col_unique_def)

definition shop_retry_env :: "string \<Rightarrow> retry_env" where
  "shop_retry_env status = \<lparr>re_provider = stripe_payment_provider sample_stripe_config (sample_sdk status),
     re_attempted = 5000, re_marked = 5001, re_fault = None\<rparr>"


text \<open>
  The query does not ask for the kind of the invoice, so a failed overage invoice of a past due
  subscription is retried, and given a retry schedule, as if it were a renewal.
\<close>

lemma overage_gets_renewal_retries:
  "retry_due (shop_past_due OVERAGE) 5000 (failed_renewal OVERAGE)
   \<and> map (\<lambda>i. mr_count (inv_retry i)) (invoices (snd (process_invoice_retry (shop_config STRIPE)
       (shop_retry_env ''open'') ''i1'' ''in_1'' 0 (shop_past_due OVERAGE)))) = [1]"
  by code_simp

end
