(* ===== verification/OverageCollection.thy ===== *)
theory OverageCollection
  imports RetryWorker
begin

text \<open>
  \<open>src/modules/billing/billing-overage-collection.service.ts\<close>: at the end of a paid period the
  worker bills the requests over quota and renews or ends subscriptions to free plans, in one
  transaction per source invoice; then it collects the overage invoices through Stripe.
\<close>

section \<open>Settlement\<close>

record settlement =
  sl_requests :: int
  sl_units :: int
  sl_amount :: int

definition build_settlement :: "plan_row \<Rightarrow> int \<Rightarrow> settlement" where
  "build_settlement p used =
     (if \<not> plan_allow_overage p \<or> js_falsy (plan_overage_unit p) \<or> js_falsy (plan_overage_price p)
         \<or> used \<le> plan_quota p
      then \<lparr>sl_requests = 0, sl_units = 0, sl_amount = 0\<rparr>
      else let requests = used - plan_quota p;
               units = js_ceil_div requests (the (plan_overage_unit p))
           in \<lparr>sl_requests = requests, sl_units = units,
               sl_amount = units * the (plan_overage_price p)\<rparr>)"

definition is_local_managed_stripe_subscription :: "sub_row \<Rightarrow> plan_row \<Rightarrow> bool" where
  "is_local_managed_stripe_subscription s p \<longleftrightarrow>
     \<not> (sub_provider s \<noteq> STRIPE \<or> js_truthy_str (sub_external s) \<or> plan_price_cents p \<noteq> 0)
     \<and> sub_end s \<noteq> None"

definition add_plan_period :: "date \<Rightarrow> plan_period \<Rightarrow> date" where
  "add_plan_period t period = (case period of MONTH \<Rightarrow> set_utc_month t (get_utc_month t + 1))"

definition js_truthy_int :: "int option \<Rightarrow> bool" where
  "js_truthy_int v \<longleftrightarrow> v \<noteq> None \<and> v \<noteq> Some 0"

definition build_overage_description :: "invoice_row \<Rightarrow> plan_row \<Rightarrow> product_row \<Rightarrow> string" where
  "build_overage_description i p r =
     ''Overage charges for '' @ prod_title r @ '' / '' @ plan_name p @ '' from '' @ to_iso_string (inv_start i)
     @ '' to '' @ to_iso_string (inv_end i)
     @ (if js_truthy_int (inv_overage_requests i) \<and> js_truthy_int (inv_overage_units i)
        then '' ('' @ js_int_to_string (the (inv_overage_requests i)) @ '' requests across ''
             @ js_int_to_string (the (inv_overage_units i)) @ '' units)''
        else [])"

section \<open>Settling a source invoice\<close>

text \<open>The invoice with its subscription and the subscription's plan.\<close>

definition find_invoice_plan :: "db \<Rightarrow> string \<Rightarrow> (invoice_row \<times> sub_row \<times> plan_row \<times> product_row \<times> user_row) option" where
  "find_invoice_plan d iid =
     (case find_invoice d iid of
        None \<Rightarrow> None
      | Some (i, s) \<Rightarrow>
          (case (plan_of d s, user_of d s) of
             (Some p, Some u) \<Rightarrow>
               (case product_of_plan d p of None \<Rightarrow> None | Some r \<Rightarrow> Some (i, s, p, r, u))
           | _ \<Rightarrow> None))"

definition overage_invoice :: "date \<Rightarrow> string \<Rightarrow> invoice_row \<Rightarrow> plan_row \<Rightarrow> settlement \<Rightarrow> invoice_row" where
  "overage_invoice created oid i p sl =
     (new_invoice created oid (inv_sub i) STRIPE (sl_amount sl) (plan_currency p) (inv_start i) (inv_end i))
       \<lparr>inv_kind := OVERAGE, inv_source := Some (inv_id i), inv_overage_requests := Some (sl_requests sl),
        inv_overage_units := Some (sl_units sl)\<rparr>"

definition renewal_invoice :: "date \<Rightarrow> string \<Rightarrow> invoice_row \<Rightarrow> plan_row \<Rightarrow> invoice_row" where
  "renewal_invoice created rid i p =
     (new_invoice created rid (inv_sub i) STRIPE (plan_price_cents p) (plan_currency p) (inv_end i)
        (add_plan_period (inv_end i) (plan_per p)))\<lparr>inv_status := IPaid\<rparr>"

definition renewed_sub :: "invoice_row \<Rightarrow> plan_row \<Rightarrow> sub_row \<Rightarrow> sub_row" where
  "renewed_sub i p r = r\<lparr>sub_status := ACTIVE, sub_start := Some (inv_end i),
     sub_end := Some (add_plan_period (inv_end i) (plan_per p)), sub_grace := None\<rparr>"

definition processed_invoice :: "date \<Rightarrow> invoice_row \<Rightarrow> invoice_row" where
  "processed_invoice t r = r\<lparr>inv_processed := Some t\<rparr>"

definition derived_overage :: "db \<Rightarrow> invoice_row \<Rightarrow> invoice_row option" where
  "derived_overage d i = find_unique (\<lambda>r. inv_source r = Some (inv_id i)) (invoices d)"

text \<open>The end of the period of a subscription the service itself manages.\<close>

definition roll_local_subscription ::
  "date \<Rightarrow> string \<Rightarrow> invoice_row \<Rightarrow> sub_row \<Rightarrow> plan_row \<Rightarrow> (db, unit) prog" where
  "roll_local_subscription now rid i s p =
     (if is_local_managed_stripe_subscription s p then
        (if sub_cancel s then update_sub now (sub_id s) canceled_sub
         else if sub_status s \<noteq> CANCELED then
           bnd (create_invoice (renewal_invoice now rid i p)) (\<lambda>_.
             update_sub now (sub_id s) (renewed_sub i p))
         else ret ())
      else ret ())"

definition settle_source_invoice ::
  "date \<Rightarrow> string \<Rightarrow> string \<Rightarrow> date \<Rightarrow> invoice_row \<Rightarrow> sub_row \<Rightarrow> plan_row \<Rightarrow> (db, bool) prog" where
  "settle_source_invoice now oid rid processed_at i s p =
     bnd (gets (\<lambda>d. (build_settlement p (sum_usage_for_window (sub_id s) (inv_start i) (inv_end i) d),
                     derived_overage d i))) (\<lambda>(sl, derived).
     bnd (if 0 < sl_amount sl \<and> derived = None
          then create_invoice (overage_invoice now oid i p sl) else ret ()) (\<lambda>_.
     bnd (roll_local_subscription now rid i s p) (\<lambda>_.
     bnd (update_invoice (inv_id i) (processed_invoice processed_at)) (\<lambda>_. ret True))))"

definition source_pending :: "invoice_row \<Rightarrow> bool" where
  "source_pending i \<longleftrightarrow> \<not> (inv_kind i \<noteq> SUBSCRIPTION \<or> inv_status i \<noteq> IPaid \<or> inv_provider i \<noteq> STRIPE
     \<or> inv_processed i \<noteq> None)"

definition materialize_source_invoice ::
  "date \<Rightarrow> exn option \<Rightarrow> string \<Rightarrow> string \<Rightarrow> string \<Rightarrow> date \<Rightarrow> (db, bool) prog" where
  "materialize_source_invoice now aborted oid rid iid processed_at = tx (
     bnd (gets (\<lambda>d. find_invoice_plan d iid)) (\<lambda>found.
       case found of
         None \<Rightarrow> ret False
       | Some (i, s, p, r, u) \<Rightarrow>
           if \<not> source_pending i then ret False
           else bnd (settle_source_invoice now oid rid processed_at i s p) (\<lambda>b.
                bnd (may_fail aborted) (\<lambda>_. ret b))))"

section \<open>Collecting an overage invoice\<close>

definition managed_params_of ::
  "invoice_row \<Rightarrow> sub_row \<Rightarrow> plan_row \<Rightarrow> product_row \<Rightarrow> user_row \<Rightarrow> managed_params" where
  "managed_params_of i s p r u = \<lparr>mg_invoice = inv_id i, mg_sub = sub_external s, mg_user = usr_id u,
     mg_email = usr_email u, mg_amount = inv_amount i, mg_currency = inv_currency i,
     mg_description = build_overage_description i p r, mg_start = inv_start i, mg_end = inv_end i\<rparr>"

definition collect_overage_invoice ::
  "billing_config \<Rightarrow> payment_provider \<Rightarrow> date \<Rightarrow> string \<Rightarrow> (db, bool) prog" where
  "collect_overage_invoice cfg P now iid =
     bnd (gets (\<lambda>d. find_invoice_plan d iid)) (\<lambda>found.
       case found of
         None \<Rightarrow> ret False
       | Some (i, s, p, r, u) \<Rightarrow>
           if inv_kind i \<noteq> OVERAGE \<or> inv_status i \<noteq> IDraft \<or> js_truthy_str (inv_external i) then ret False
           else
             bnd (pp_managed P (managed_params_of i s p r u)) (\<lambda>x.
               if rr_status x = IPaid
               then bnd (mark_invoice_paid now (paid_result (inv_id i) x)) (\<lambda>_. ret True)
               else bnd (mark_invoice_failed cfg now (failed_result (inv_id i) x)) (\<lambda>_. ret True)))"

section \<open>The worker\<close>

definition due_sources :: "nat \<Rightarrow> date \<Rightarrow> db \<Rightarrow> invoice_row list" where
  "due_sources batch now d = take batch (find_many (\<lambda>i. (inv_end i, inv_created i))
     (\<lambda>i. inv_provider i = STRIPE \<and> inv_kind i = SUBSCRIPTION \<and> inv_status i = IPaid
        \<and> inv_processed i = None \<and> inv_end i \<le> now) (invoices d))"

definition pending_overage :: "nat \<Rightarrow> db \<Rightarrow> invoice_row list" where
  "pending_overage batch d = take batch (find_many inv_created
     (\<lambda>i. inv_provider i = STRIPE \<and> inv_kind i = OVERAGE \<and> inv_status i = IDraft
        \<and> inv_external i = None) (invoices d))"

text \<open>One settlement's clock, abort and new ids; one collection's provider and clock.\<close>

record source_env =
  se_now :: date
  se_aborted :: "exn option"
  se_overage :: string
  se_renewal :: string

record collect_env =
  ce_provider :: payment_provider
  ce_now :: date

definition overage_should_run :: "billing_config \<Rightarrow> bool" where
  "overage_should_run cfg \<longleftrightarrow> payment_provider cfg = STRIPE \<and> overage_enabled cfg"

text \<open>The counters are those of the answer: materialized, collected, failed.\<close>

definition collect_all ::
  "billing_config \<Rightarrow> date \<Rightarrow> (invoice_row \<Rightarrow> source_env) \<Rightarrow> (invoice_row \<Rightarrow> collect_env) \<Rightarrow>
   (db, int \<times> int \<times> int) prog" where
  "collect_all cfg now senv cenv d =
     (let ((materialized, failed), d1) = run_batch (\<lambda>i. materialize_source_invoice (se_now (senv i))
            (se_aborted (senv i)) (se_overage (senv i)) (se_renewal (senv i)) (inv_id i) now)
            (due_sources (overage_batch cfg) now d) (0, 0) d;
          ((collected, failed'), d2) = run_batch (\<lambda>i. collect_overage_invoice cfg (ce_provider (cenv i))
            (ce_now (cenv i)) (inv_id i)) (pending_overage (overage_batch cfg) d1) (0, failed) d1
      in (Inr (materialized, collected, failed'), d2))"

definition process_due_overage_collection ::
  "billing_config \<Rightarrow> string \<Rightarrow> date \<Rightarrow> exn option \<Rightarrow> date \<Rightarrow> (invoice_row \<Rightarrow> source_env) \<Rightarrow>
   (invoice_row \<Rightarrow> collect_env) \<Rightarrow> (db, int \<times> int \<times> int) prog" where
  "process_due_overage_collection cfg owner lease_now fault now senv cenv =
     (if \<not> overage_should_run cfg then ret (0, 0, 0)
      else bnd (overage_try_acquire_lease cfg owner lease_now fault) (\<lambda>acquired.
        if \<not> acquired then ret (0, 0, 0) else collect_all cfg now senv cenv))"

definition run_overage_cycle ::
  "billing_config \<Rightarrow> string \<Rightarrow> date \<Rightarrow> exn option \<Rightarrow> date \<Rightarrow> (invoice_row \<Rightarrow> source_env) \<Rightarrow>
   (invoice_row \<Rightarrow> collect_env) \<Rightarrow> (db, unit) prog" where
  "run_overage_cycle cfg owner lease_now fault now senv cenv =
     try_catch (bnd (process_due_overage_collection cfg owner lease_now fault now senv cenv) (\<lambda>_. ret ()))
       (\<lambda>e. ret ())"

section \<open>The settlement is the one the gateway announces\<close>

text \<open>C36: What is billed at the end of the period is what the usage service shows as overage for the
  same plan and the same number of requests, in requests and in money.\<close>

theorem settlement_matches_announced:
  "sl_requests (build_settlement p used) = os_requests (get_overage_state p used)
   \<and> sl_amount (build_settlement p used) = os_amount (get_overage_state p used)"
  by (simp add: build_settlement_def get_overage_state_def Let_def)

section \<open>What a settlement leaves\<close>

definition overage_rows :: "date \<Rightarrow> string \<Rightarrow> invoice_row \<Rightarrow> plan_row \<Rightarrow> int \<Rightarrow> db \<Rightarrow> invoice_row list" where
  "overage_rows now oid i p used d =
     (if 0 < sl_amount (build_settlement p used) \<and> derived_overage d i = None
      then [overage_invoice now oid i p (build_settlement p used)] else [])"

definition renewal_rows :: "date \<Rightarrow> string \<Rightarrow> invoice_row \<Rightarrow> sub_row \<Rightarrow> plan_row \<Rightarrow> invoice_row list" where
  "renewal_rows now rid i s p =
     (if is_local_managed_stripe_subscription s p \<and> \<not> sub_cancel s \<and> sub_status s \<noteq> CANCELED
      then [renewal_invoice now rid i p] else [])"

definition rolled_sub :: "date \<Rightarrow> invoice_row \<Rightarrow> sub_row \<Rightarrow> plan_row \<Rightarrow> sub_row" where
  "rolled_sub now i s p =
     (if \<not> is_local_managed_stripe_subscription s p then s
      else if sub_cancel s then (canceled_sub s)\<lparr>sub_updated := now\<rparr>
      else if sub_status s \<noteq> CANCELED then (renewed_sub i p s)\<lparr>sub_updated := now\<rparr> else s)"

lemma find_invoice_plan_parts:
  assumes "find_invoice_plan d iid = Some (i, s, p, r, u)"
  shows "find_invoice d iid = Some (i, s)" "plan_of d s = Some p" "product_of_plan d p = Some r"
    "user_of d s = Some u"
  using assms by (auto simp: find_invoice_plan_def split: option.splits prod.splits)

lemma update_sub_rows:
  assumes "update_sub now sid g d = (Inr (), d')" "billing_ok d" "s \<in> set (subs d)" "sub_id s = sid"
  shows "subs d' = map (\<lambda>r. if r = s then (g s)\<lparr>sub_updated := now\<rparr> else r) (subs d)"
    "invoices d' = invoices d" "d' = d\<lparr>subs := subs d'\<rparr>"
proof -
  have d': "d' = set_sub sid (\<lambda>r. (g r)\<lparr>sub_updated := now\<rparr>) d" using assms(1) by (auto elim: update_sub_cases)
  show "subs d' = map (\<lambda>r. if r = s then (g s)\<lparr>sub_updated := now\<rparr> else r) (subs d)"
    using map_update_row [of sub_id "subs d" s "\<lambda>r. (g r)\<lparr>sub_updated := now\<rparr>"] billing_okD(1) [OF assms(2)] assms(3,4)
    by (simp add: d' set_sub_def cong: if_cong)
  show "invoices d' = invoices d" "d' = d\<lparr>subs := subs d'\<rparr>" by (simp_all add: d' set_sub_def)
qed

lemma roll_rows:
  assumes run: "roll_local_subscription now rid i s p d = (Inr u, d')" and ok: "billing_ok d"
    and s: "s \<in> set (subs d)"
  shows "invoices d' = invoices d @ renewal_rows now rid i s p"
    "subs d' = map (\<lambda>r. if r = s then rolled_sub now i s p else r) (subs d)"
    "billing_ok d'" "d' = d\<lparr>invoices := invoices d', subs := subs d'\<rparr>"
proof -
  let ?loc = "is_local_managed_stripe_subscription s p"
  consider (none) "\<not> ?loc \<or> (\<not> sub_cancel s \<and> sub_status s = CANCELED)" "d' = d"
    | (cancel) "?loc" "sub_cancel s" "update_sub now (sub_id s) canceled_sub d = (Inr (), d')"
    | (renew) d1 where "?loc" "\<not> sub_cancel s" "sub_status s \<noteq> CANCELED"
        "create_invoice (renewal_invoice now rid i p) d = (Inr (), d1)"
        "update_sub now (sub_id s) (renewed_sub i p) d1 = (Inr (), d')"
    using run by (auto simp: roll_local_subscription_def bnd_Inr ret_def split: if_splits)
  then have "invoices d' = invoices d @ renewal_rows now rid i s p
    \<and> subs d' = map (\<lambda>r. if r = s then rolled_sub now i s p else r) (subs d)
    \<and> billing_ok d' \<and> d' = d\<lparr>invoices := invoices d', subs := subs d'\<rparr>"
  proof cases
    case none
    have "rolled_sub now i s p = s" "renewal_rows now rid i s p = []"
      using none(1) by (auto simp: rolled_sub_def renewal_rows_def)
    have "map (\<lambda>r. if r = s then rolled_sub now i s p else r) (subs d) = subs d"
      by (rule map_idI) (simp add: \<open>rolled_sub now i s p = s\<close>)
    then show ?thesis using none(2) ok \<open>renewal_rows now rid i s p = []\<close> by simp
  next
    case cancel
    have "rolled_sub now i s p = (canceled_sub s)\<lparr>sub_updated := now\<rparr>" "renewal_rows now rid i s p = []"
      using cancel by (simp_all add: rolled_sub_def renewal_rows_def)
    moreover have "billing_ok d'" by (rule update_sub_ok [OF cancel(3) ok]) (simp add: canceled_sub_def)
    ultimately show ?thesis using update_sub_rows [OF cancel(3) ok s refl] by simp
  next
    case renew
    have ok1: "billing_ok d1" by (rule create_invoice_ok [OF renew(4) ok])
    have d1: "d1 = d\<lparr>invoices := invoices d @ [renewal_invoice now rid i p]\<rparr>"
      using renew(4) by (auto elim: create_invoice_cases)
    have s1: "s \<in> set (subs d1)" using s by (simp add: d1)
    have "rolled_sub now i s p = (renewed_sub i p s)\<lparr>sub_updated := now\<rparr>"
      "renewal_rows now rid i s p = [renewal_invoice now rid i p]"
      using renew by (simp_all add: rolled_sub_def renewal_rows_def)
    moreover have "billing_ok d'" by (rule update_sub_ok [OF renew(5) ok1]) (simp add: renewed_sub_def)
    ultimately show ?thesis using update_sub_rows [OF renew(5) ok1 s1 refl] by (simp add: d1)
  qed
  then show "invoices d' = invoices d @ renewal_rows now rid i s p"
    "subs d' = map (\<lambda>r. if r = s then rolled_sub now i s p else r) (subs d)"
    "billing_ok d'" "d' = d\<lparr>invoices := invoices d', subs := subs d'\<rparr>" by blast+
qed

lemma settle_rows:
  assumes run: "settle_source_invoice now oid rid t i s p d = (Inr b, d')" and ok: "billing_ok d"
    and i: "i \<in> set (invoices d)" and s: "s \<in> set (subs d)"
  defines "used \<equiv> sum_usage_for_window (sub_id s) (inv_start i) (inv_end i) d"
  shows "b \<and> billing_ok d'
    \<and> invoices d' = map (\<lambda>r. if r = i then processed_invoice t i else r) (invoices d)
        @ overage_rows now oid i p used d @ renewal_rows now rid i s p
    \<and> subs d' = map (\<lambda>r. if r = s then rolled_sub now i s p else r) (subs d)
    \<and> d' = d\<lparr>invoices := invoices d', subs := subs d'\<rparr>"
proof -
  let ?ov = "overage_rows now oid i p used d" and ?rn = "renewal_rows now rid i s p"
  obtain d1 d2 where
    c: "(if 0 < sl_amount (build_settlement p used) \<and> derived_overage d i = None
        then create_invoice (overage_invoice now oid i p (build_settlement p used)) else ret ()) d = (Inr (), d1)"
    and rl: "roll_local_subscription now rid i s p d1 = (Inr (), d2)"
    and u: "update_invoice (inv_id i) (processed_invoice t) d2 = (Inr (), d')" and b: "b"
    using run unfolding settle_source_invoice_def used_def [symmetric]
    by (auto simp: bnd_Inr gets_def ret_def used_def [symmetric])
  have d1: "d1 = d\<lparr>invoices := invoices d @ ?ov\<rparr> \<and> billing_ok d1"
  proof (cases "0 < sl_amount (build_settlement p used) \<and> derived_overage d i = None")
    case True
    then have cr: "create_invoice (overage_invoice now oid i p (build_settlement p used)) d = (Inr (), d1)"
      using c by simp
    show ?thesis
      using create_invoice_ok [OF cr ok] cr True by (auto simp: overage_rows_def elim: create_invoice_cases)
  next
    case False
    then have "d1 = d" using c by (auto simp: ret_def)
    moreover have "overage_rows now oid i p used d = []" using False by (auto simp: overage_rows_def)
    ultimately show ?thesis using ok by simp
  qed
  have s1: "s \<in> set (subs d1)" using d1 s by simp
  note r = roll_rows [OF rl conjunct2 [OF d1] s1]
  have d': "d' = set_invoice (inv_id i) (processed_invoice t) d2" using u by (auto elim: update_invoice_cases)
  have i2: "i \<in> set (invoices d2)" using i d1 r(1) by simp
  have "invoices d2 = invoices d @ ?ov @ ?rn" using d1 r(1) by simp
  moreover have ids: "distinct (map inv_id (invoices d2))" by (rule billing_okD(2) [OF r(3)])
  ultimately have no: "i \<notin> set (?ov @ ?rn)"
    using i by (auto simp: distinct_map)
  have "invoices d' = map (\<lambda>r. if r = i then processed_invoice t i else r) (invoices d2)"
    using map_update_row [of inv_id "invoices d2" i "processed_invoice t"] ids i2
    by (simp add: d' set_invoice_def cong: if_cong)
  moreover have "map (\<lambda>r. if r = i then processed_invoice t i else r) (?ov @ ?rn) = ?ov @ ?rn"
    by (rule map_idI) (use no in auto)
  ultimately have inv: "invoices d' = map (\<lambda>r. if r = i then processed_invoice t i else r) (invoices d) @ ?ov @ ?rn"
    by (simp only: \<open>invoices d2 = invoices d @ ?ov @ ?rn\<close> map_append)
  have "billing_ok d'" by (rule update_invoice_ok [OF u r(3)]) (simp add: processed_invoice_def)
  moreover have "subs d' = map (\<lambda>r. if r = s then rolled_sub now i s p else r) (subs d)"
    using r(2) d1 by (simp add: d' set_invoice_def)
  moreover have "d' = d\<lparr>invoices := invoices d', subs := subs d'\<rparr>"
  proof -
    have "d2 = d1\<lparr>invoices := invoices d2, subs := subs d2\<rparr>" by (rule r(4))
    also have "\<dots> = d\<lparr>invoices := invoices d2, subs := subs d2\<rparr>" by (simp only: conjunct1 [OF d1]) simp
    finally have "d2\<lparr>invoices := x\<rparr> = d\<lparr>invoices := x, subs := subs d2\<rparr>" for x
      by (rule arg_cong [of _ _ "\<lambda>y. y\<lparr>invoices := x\<rparr>", THEN trans]) simp
    from this [of "map (\<lambda>r. if inv_id r = inv_id i then processed_invoice t r else r) (invoices d2)"]
    show ?thesis unfolding d' set_invoice_def by simp
  qed
  ultimately show ?thesis using inv b by blast
qed

lemma materialize_cases:
  assumes "materialize_source_invoice now aborted oid rid iid t d = (res, d')"
  obtains (nothing) "d' = d" "res \<noteq> Inr True"
  | (settled) i s p r u where "res = Inr True" "find_invoice_plan d iid = Some (i, s, p, r, u)" "source_pending i"
      "settle_source_invoice now oid rid t i s p d = (Inr True, d')"
  using assms unfolding materialize_source_invoice_def
proof (cases rule: tx_state)
  case 1
  then show ?thesis using that(1) by blast
next
  case (2 x)
  show ?thesis
  proof (cases "find_invoice_plan d iid")
    case None
    then show ?thesis using 2 that(1) by (simp add: bnd_def gets_def ret_def)
  next
    case (Some y)
    then obtain i s p r u where f: "find_invoice_plan d iid = Some (i, s, p, r, u)" by (metis prod_cases5)
    show ?thesis
    proof (cases "source_pending i")
      case False
      then show ?thesis using 2 f that(1) by (simp add: bnd_def gets_def ret_def)
    next
      case True
      have "bnd (settle_source_invoice now oid rid t i s p) (\<lambda>b. bnd (may_fail aborted) (\<lambda>_. ret b)) d = (Inr x, d')"
        using 2(1) f True by (simp add: bnd_def gets_def)
      then have st: "settle_source_invoice now oid rid t i s p d = (Inr x, d')"
        by (auto simp: bnd_Inr may_fail_def ret_def raise_def split: option.splits)
      moreover have "x = True" using st by (auto simp: settle_source_invoice_def bnd_Inr ret_def gets_def)
      ultimately show ?thesis using 2(2) f True that(2) by simp
    qed
  qed
qed

lemma materialized_rows:
  assumes "materialize_source_invoice now aborted oid rid iid t d = (Inr True, d')" "billing_ok d"
  obtains i s p r u where "find_invoice_plan d iid = Some (i, s, p, r, u)" "source_pending i" "billing_ok d'"
    "invoices d' = map (\<lambda>x. if x = i then processed_invoice t i else x) (invoices d)
        @ overage_rows now oid i p (sum_usage_for_window (sub_id s) (inv_start i) (inv_end i) d) d
        @ renewal_rows now rid i s p"
    "subs d' = map (\<lambda>x. if x = s then rolled_sub now i s p else x) (subs d)"
    "d' = d\<lparr>invoices := invoices d', subs := subs d'\<rparr>"
  using assms(1)
proof (cases rule: materialize_cases)
  case (settled i s p r u)
  note f = find_invoice_row [OF find_invoice_plan_parts(1) [OF settled(2)]]
  show ?thesis using settle_rows [OF settled(4) assms(2) f(1,3)] that [OF settled(2,3)] by blast
qed auto

lemma col_unique_count:
  assumes "col_unique col rows"
  shows "length (filter (\<lambda>r. col r = Some k) rows) \<le> 1"
  using assms
proof (induction rows)
  case (Cons r rows)
  have "filter (\<lambda>x. col x = Some k) rows = []" if "col r = Some k"
    using Cons.prems that by (auto simp: col_unique_def filter_empty_conv)
  then show ?case using Cons by (auto simp: col_unique_def)
qed simp

text \<open>C9: Settling a paid period. When a source invoice is materialized, its row is marked processed;
  one overage invoice is added exactly when the requests recorded in its half-open period exceed
  the plan's quota by a billable amount and none was derived before, for that amount; and a
  subscription to a free plan kept by the service itself is ended if cancellation was asked, else
  continued by one paid invoice and a period that starts where the settled one ends. Nothing else
  changes, and when it throws or answers false nothing changes at all.\<close>

theorem settlement_effect:
  assumes "materialize_source_invoice now aborted oid rid iid t d = (res, d')" and "billing_ok d"
    and "usage_consistent d"
  shows "if res \<noteq> Inr True then d' = d
    else \<exists>i s p r u. find_invoice_plan d iid = Some (i, s, p, r, u) \<and> source_pending i
      \<and> (let sl = build_settlement p (raw_window_usage (sub_id s) (inv_start i) (inv_end i) d);
             next_end = set_utc_month (inv_end i) (get_utc_month (inv_end i) + 1);
             local = is_local_managed_stripe_subscription s p
         in invoices d' = map (\<lambda>x. if x = i then i\<lparr>inv_processed := Some t\<rparr> else x) (invoices d)
              @ (if 0 < sl_amount sl \<and> derived_overage d i = None then [overage_invoice now oid i p sl] else [])
              @ (if local \<and> \<not> sub_cancel s \<and> sub_status s \<noteq> CANCELED
                 then [(new_invoice now rid (inv_sub i) STRIPE 0 (plan_currency p) (inv_end i) next_end)
                         \<lparr>inv_status := IPaid\<rparr>] else [])
          \<and> subs d' = map (\<lambda>x. if x = s
              then (if \<not> local then s
                    else if sub_cancel s
                    then s\<lparr>sub_status := CANCELED, sub_grace := None, sub_cancel := False, sub_updated := now\<rparr>
                    else if sub_status s \<noteq> CANCELED
                    then s\<lparr>sub_status := ACTIVE, sub_start := Some (inv_end i), sub_end := Some next_end,
                           sub_grace := None, sub_updated := now\<rparr>
                    else s) else x) (subs d)
          \<and> d' = d\<lparr>invoices := invoices d', subs := subs d'\<rparr>)"
proof (cases "res = Inr True")
  case False
  then show ?thesis using assms(1) by (auto elim: materialize_cases)
next
  case True
  obtain i s p r u where f: "find_invoice_plan d iid = Some (i, s, p, r, u)" "source_pending i"
    and rows: "invoices d' = map (\<lambda>x. if x = i then processed_invoice t i else x) (invoices d)
        @ overage_rows now oid i p (sum_usage_for_window (sub_id s) (inv_start i) (inv_end i) d) d
        @ renewal_rows now rid i s p"
    "subs d' = map (\<lambda>x. if x = s then rolled_sub now i s p else x) (subs d)"
    "d' = d\<lparr>invoices := invoices d', subs := subs d'\<rparr>"
    by (rule materialized_rows [OF assms(1) [unfolded True] assms(2)]) blast
  have w: "sum_usage_for_window (sub_id s) (inv_start i) (inv_end i) d
      = raw_window_usage (sub_id s) (inv_start i) (inv_end i) d" by (rule window_sum_raw [OF assms(3)])
  have per: "add_plan_period x (plan_per p) = set_utc_month x (get_utc_month x + 1)" for x
    by (cases "plan_per p") (simp add: add_plan_period_def)
  have price: "plan_price_cents p = 0" if "is_local_managed_stripe_subscription s p"
    using that by (simp add: is_local_managed_stripe_subscription_def)
  have e1: "renewal_rows now rid i s p
      = (if is_local_managed_stripe_subscription s p \<and> \<not> sub_cancel s \<and> sub_status s \<noteq> CANCELED
         then [(new_invoice now rid (inv_sub i) STRIPE 0 (plan_currency p) (inv_end i)
                 (set_utc_month (inv_end i) (get_utc_month (inv_end i) + 1)))\<lparr>inv_status := IPaid\<rparr>] else [])"
    by (simp add: renewal_rows_def renewal_invoice_def per price)
  have e2: "rolled_sub now i s p = (if \<not> is_local_managed_stripe_subscription s p then s
        else if sub_cancel s
        then s\<lparr>sub_status := CANCELED, sub_grace := None, sub_cancel := False, sub_updated := now\<rparr>
        else if sub_status s \<noteq> CANCELED
        then s\<lparr>sub_status := ACTIVE, sub_start := Some (inv_end i),
               sub_end := Some (set_utc_month (inv_end i) (get_utc_month (inv_end i) + 1)),
               sub_grace := None, sub_updated := now\<rparr> else s)"
    by (simp add: rolled_sub_def canceled_sub_def renewed_sub_def per)
  show ?thesis
    using True f rows
    unfolding e1 e2 overage_rows_def w processed_invoice_def Let_def by (simp only: simp_thms if_True if_False) blast
qed

text \<open>C8: A period is settled once: after a source invoice was materialized, materializing it again, at
  any time and with any new ids, does nothing, whatever happened to other rows in between; and at
  most one overage invoice refers to it.\<close>

theorem source_settled_once:
  assumes "materialize_source_invoice now aborted oid rid iid t d = (Inr True, d1)" and "billing_ok d"
    and "find_unique (\<lambda>r. inv_id r = iid) (invoices d2) = find_unique (\<lambda>r. inv_id r = iid) (invoices d1)"
  shows "materialize_source_invoice now2 aborted2 oid2 rid2 iid t2 d2 = (Inr False, d2)
    \<and> length (filter (\<lambda>r. inv_source r = Some iid) (invoices d1)) \<le> 1"
proof -
  obtain i s p r u where f: "find_invoice_plan d iid = Some (i, s, p, r, u)" and ok1: "billing_ok d1"
    and rows: "invoices d1 = map (\<lambda>x. if x = i then processed_invoice t i else x) (invoices d)
        @ overage_rows now oid i p (sum_usage_for_window (sub_id s) (inv_start i) (inv_end i) d) d
        @ renewal_rows now rid i s p"
    by (rule materialized_rows [OF assms(1,2)]) blast
  have i: "i \<in> set (invoices d)" "inv_id i = iid"
    using find_invoice_row [OF find_invoice_plan_parts(1) [OF f]] by auto
  have in1: "processed_invoice t i \<in> set (invoices d1)" using i rows by auto
  have f1: "find_unique (\<lambda>r. inv_id r = iid) (invoices d2) = Some (processed_invoice t i)"
    unfolding assms(3) using find_invoice_unique [OF ok1 in1] i(2) by (simp add: processed_invoice_def)
  have "materialize_source_invoice now2 aborted2 oid2 rid2 iid t2 d2 = (Inr False, d2)"
  proof (cases "find_invoice_plan d2 iid")
    case None
    then show ?thesis by (simp add: materialize_source_invoice_def tx_def bnd_def gets_def ret_def)
  next
    case (Some y)
    then obtain i' s' p' r' u' where y: "find_invoice_plan d2 iid = Some (i', s', p', r', u')" by (metis prod_cases5)
    have "i' = processed_invoice t i"
      using find_invoice_plan_parts(1) [OF y] f1 by (simp add: find_invoice_parts)
    then have "\<not> source_pending i'" by (simp add: source_pending_def processed_invoice_def)
    then show ?thesis using y by (simp add: materialize_source_invoice_def tx_def bnd_def gets_def ret_def)
  qed
  moreover have "length (filter (\<lambda>r. inv_source r = Some iid) (invoices d1)) \<le> 1"
    by (rule col_unique_count) (rule billing_okD(6) [OF ok1])
  ultimately show ?thesis by blast
qed

text \<open>A free plan with overage: 1150 requests in a period that allows 1000.\<close>

definition free_period_db :: db where
  "free_period_db = (shop_db 0)\<lparr>
     subs := [(new_subscription 0 ''s1'' ''u1'' ''p1'' STRIPE)
       \<lparr>sub_status := ACTIVE, sub_start := Some 0, sub_end := Some 2678400000\<rparr>],
     invoices := [(new_invoice 0 ''i1'' ''s1'' STRIPE 0 ''EUR'' 0 2678400000)\<lparr>inv_status := IPaid\<rparr>],
     usages := [\<lparr>ur_sub = ''s1'', ur_job = None, ur_aggregated = None, ur_at = 5000, ur_endpoint = ''/a'',
                 ur_count = 1150\<rparr>]\<rparr>"

lemma free_period_ok: "billing_ok free_period_db"
  by (simp add: billing_ok_def free_period_db_def shop_db_def empty_db_def new_subscription_def
      new_invoice_def invoice_int4_def int4_ok_def opt_int4_ok_def clear_managed_retry_state_def)
    (simp add: col_unique_def)

lemma free_period_consistent: "usage_consistent free_period_db"
  by code_simp

lemma free_period_run:
  "fst (materialize_source_invoice 2678400001 None ''o1'' ''r1'' ''i1'' 2678400001 free_period_db) = Inr True"
  "map inv_amount (invoices (snd (materialize_source_invoice 2678400001 None ''o1'' ''r1'' ''i1'' 2678400001
     free_period_db))) = [0, 100, 0]"
  by code_simp+

theorem settlement_effect_witness:
  "inv_processed ` set (take 1 (invoices (snd (materialize_source_invoice 2678400001 None ''o1'' ''r1'' ''i1''
     2678400001 free_period_db)))) = {Some 2678400001}"
proof -
  let ?run = "materialize_source_invoice 2678400001 None ''o1'' ''r1'' ''i1'' 2678400001 free_period_db"
  have run: "?run = (Inr True, snd ?run)" using free_period_run(1) by (metis prod.collapse)
  obtain i rest where "find_unique (\<lambda>r. inv_id r = ''i1'') (invoices free_period_db) = Some i"
    "invoices (snd ?run) = map (\<lambda>x. if x = i then i\<lparr>inv_processed := Some 2678400001\<rparr> else x) (invoices free_period_db) @ rest"
    using settlement_effect [OF run free_period_ok free_period_consistent]
    by (auto simp: Let_def find_invoice_parts dest!: find_invoice_plan_parts(1))
  then show ?thesis by (simp add: free_period_db_def find_unique_def new_invoice_def)
qed

theorem source_settled_once_witness:
  "fst (materialize_source_invoice 2678400009 None ''o2'' ''r2'' ''i1'' 2678400009
     (snd (materialize_source_invoice 2678400001 None ''o1'' ''r1'' ''i1'' 2678400001 free_period_db))) = Inr False"
proof -
  let ?run = "materialize_source_invoice 2678400001 None ''o1'' ''r1'' ''i1'' 2678400001 free_period_db"
  have run: "?run = (Inr True, snd ?run)" using free_period_run(1) by (metis prod.collapse)
  show ?thesis using source_settled_once [OF run free_period_ok refl] by simp
qed

end
