(* ===== verification/StripeWebhooks.thy ===== *)
theory StripeWebhooks
  imports BillingFacts
begin

text \<open>
  \<open>src/modules/billing/stripe-webhooks.service.ts\<close> and \<open>constructWebhookEvent\<close> of
  \<open>payment/stripe-client.service.ts\<close>: what each verified Stripe event does to the billing tables.
  The check of the signature (\<open>webhooks.constructEvent\<close>) and the Stripe client are parameters; an
  event carries the fields of its object that the service reads.
\<close>

section \<open>Events\<close>

text \<open>\<open>metadata?.invoiceId\<close>, and \<open>subscription\<close> when it is a string (else \<open>None\<close>).\<close>

record webhook_session =
  ws_id :: string
  ws_invoice :: "string option"
  ws_sub :: "string option"
  ws_mode :: string

datatype stripe_event =
    CheckoutCompleted webhook_session
  | CheckoutExpired webhook_session
  | InvoiceCreated stripe_invoice
  | InvoiceFinalized stripe_invoice
  | InvoicePaid stripe_invoice
  | InvoicePaymentFailed stripe_invoice
  | SubscriptionUpdated stripe_subscription
  | SubscriptionDeleted stripe_subscription
  | OtherEvent

definition webhook_invalid :: exn where
  "webhook_invalid = AppError STRIPE_WEBHOOK_INVALID ''STRIPE_WEBHOOK_INVALID'' 400 []"

text \<open>The client getter is inside \<open>try\<close>: a missing secret key counts as an invalid event.\<close>

definition construct_webhook_event ::
  "stripe_config \<Rightarrow> ('b \<Rightarrow> string \<Rightarrow> string \<Rightarrow> exn + stripe_event) \<Rightarrow> 'b \<Rightarrow> string \<Rightarrow> exn + stripe_event" where
  "construct_webhook_event scfg check_sig raw signature =
     (if \<not> js_truthy_str (sc_webhook_secret scfg) then Inl provider_not_enabled
      else if \<not> js_truthy_str (sc_secret_key scfg) then Inl webhook_invalid
      else case check_sig raw signature (the (sc_webhook_secret scfg)) of
             Inl e \<Rightarrow> Inl webhook_invalid
           | Inr event \<Rightarrow> Inr event)"

section \<open>Mapping Stripe objects\<close>

definition map_stripe_subscription_status :: "string \<Rightarrow> subscription_status" where
  "map_stripe_subscription_status st =
     (if st = ''active'' \<or> st = ''trialing'' then ACTIVE
      else if st = ''canceled'' then CANCELED
      else if st = ''past_due'' \<or> st = ''unpaid'' then PAST_DUE
      else PENDING)"

definition should_allow_metadata_invoice_id :: "stripe_invoice \<Rightarrow> bool" where
  "should_allow_metadata_invoice_id i \<longleftrightarrow> js_truthy_str (si_meta i)
     \<or> si_reason i = Some ''subscription'' \<or> si_reason i = Some ''subscription_create''"

definition resolve_subscription_metadata ::
  "stripe_config \<Rightarrow> stripe_sdk \<Rightarrow> string option \<Rightarrow> (db, string option) prog" where
  "resolve_subscription_metadata scfg sdk external =
     (if \<not> js_truthy_str external then ret None
      else bnd (with_client scfg (sdk_subscription sdk (the external))) (\<lambda>s. ret (ss_meta s)))"

definition webhook_metadata_invoice_id ::
  "stripe_config \<Rightarrow> stripe_sdk \<Rightarrow> stripe_invoice \<Rightarrow> string option \<Rightarrow> bool \<Rightarrow> (db, string option) prog" where
  "webhook_metadata_invoice_id scfg sdk i external allow =
     (if js_truthy_str (si_meta i) then ret (si_meta i)
      else if js_truthy_str (si_parent_meta i) then ret (si_parent_meta i)
      else if \<not> allow then ret None
      else resolve_subscription_metadata scfg sdk external)"

text \<open>The parameters of a synchronization, from the Stripe invoice.\<close>

definition stripe_sync_params ::
  "stripe_invoice \<Rightarrow> string option \<Rightarrow> string option \<Rightarrow> bool \<Rightarrow> invoice_status \<Rightarrow> sync_invoice_params" where
  "stripe_sync_params i external metadata allow st = \<lparr>sy_provider = STRIPE, sy_external = si_id i,
     sy_sub_external = external, sy_session = None, sy_metadata = metadata, sy_allow_metadata = allow,
     sy_amount = si_total i, sy_currency = to_upper_case (si_currency i),
     sy_start = si_start i * 1000, sy_end = si_end i * 1000, sy_status = st,
     sy_attempts = Some (case si_attempts i of None \<Rightarrow> 0 | Some n \<Rightarrow> n),
     sy_next = next_payment_attempt i\<rparr>"

definition stripe_sub_params :: "stripe_subscription \<Rightarrow> sync_sub_params" where
  "stripe_sub_params s = \<lparr>sp_external = ss_id s, sp_cancel = ss_cancel s,
     sp_status = Some (map_stripe_subscription_status (ss_status s)),
     sp_start = Some (fst (extract_stripe_subscription_period s)),
     sp_end = Some (snd (extract_stripe_subscription_period s))\<rparr>"

section \<open>Handlers\<close>

definition ignored_not_found :: "exn \<Rightarrow> bool" where
  "ignored_not_found e \<longleftrightarrow> exn_code e = Some INVOICE_NOT_FOUND \<or> exn_code e = Some SUBSCRIPTION_NOT_FOUND"

definition ignore_not_found :: "exn \<Rightarrow> (db, unit) prog" where
  "ignore_not_found e = (if ignored_not_found e then ret () else raise e)"

text \<open>What a request meets: its clock, the Stripe client and the id of a row it may create.\<close>

record webhook_env =
  we_cfg :: billing_config
  we_stripe :: stripe_config
  we_sdk :: stripe_sdk
  we_now :: date
  we_new_id :: string

definition session_checkout :: "webhook_session \<Rightarrow> string \<Rightarrow> checkout_params" where
  "session_checkout w iid = \<lparr>xc_invoice = iid, xc_provider = STRIPE, xc_session = Some (ws_id w),
     xc_sub_external = ws_sub w\<rparr>"

definition handle_checkout_completed :: "webhook_env \<Rightarrow> webhook_session \<Rightarrow> (db, unit) prog" where
  "handle_checkout_completed env w =
     (if \<not> js_truthy_str (ws_invoice w) then ret ()
      else let iid = the (ws_invoice w) in
        try_catch
          (bnd (record_external_checkout (we_now env) (session_checkout w iid)) (\<lambda>_.
             if ws_mode w = ''setup'' \<or> ws_sub w = None
             then bnd (mark_invoice_paid (we_now env)
                         ((mark_only iid STRIPE)\<lparr>mk_session := Some (ws_id w)\<rparr>)) (\<lambda>_. ret ())
             else ret ()))
          ignore_not_found)"

definition handle_checkout_expired :: "webhook_env \<Rightarrow> webhook_session \<Rightarrow> (db, unit) prog" where
  "handle_checkout_expired env w =
     (if \<not> js_truthy_str (ws_invoice w) then ret ()
      else
        try_catch
          (bnd (mark_invoice_failed (we_cfg env) (we_now env)
                  ((fail_only (the (ws_invoice w)) STRIPE)
                     \<lparr>mk_session := Some (ws_id w), mk_sub_external := ws_sub w\<rparr>)) (\<lambda>_. ret ()))
          ignore_not_found)"

definition webhook_sync_invoice ::
  "webhook_env \<Rightarrow> stripe_invoice \<Rightarrow> invoice_status \<Rightarrow> (db, unit) prog" where
  "webhook_sync_invoice env i st =
     (let external = si_parent_sub i; allow = should_allow_metadata_invoice_id i in
      bnd (webhook_metadata_invoice_id (we_stripe env) (we_sdk env) i external allow) (\<lambda>metadata.
        try_catch
          (bnd (sync_invoice_from_external (we_cfg env) (we_now env) (we_new_id env)
                  (stripe_sync_params i external metadata allow st)) (\<lambda>_. ret ()))
          ignore_not_found))"

definition handle_subscription_updated :: "webhook_env \<Rightarrow> stripe_subscription \<Rightarrow> (db, unit) prog" where
  "handle_subscription_updated env s =
     try_catch (sync_subscription_from_external (we_cfg env) (we_now env) (stripe_sub_params s))
       ignore_not_found"

definition handle_subscription_deleted :: "webhook_env \<Rightarrow> stripe_subscription \<Rightarrow> (db, unit) prog" where
  "handle_subscription_deleted env s =
     try_catch (mark_subscription_canceled_by_external_id (we_now env) (ss_id s)) ignore_not_found"

fun handle_event :: "webhook_env \<Rightarrow> stripe_event \<Rightarrow> (db, unit) prog" where
  "handle_event env (CheckoutCompleted w) = handle_checkout_completed env w"
| "handle_event env (CheckoutExpired w) = handle_checkout_expired env w"
| "handle_event env (InvoiceCreated i) = webhook_sync_invoice env i IDraft"
| "handle_event env (InvoiceFinalized i) = webhook_sync_invoice env i IDraft"
| "handle_event env (InvoicePaid i) = webhook_sync_invoice env i IPaid"
| "handle_event env (InvoicePaymentFailed i) = webhook_sync_invoice env i IPastDue"
| "handle_event env (SubscriptionUpdated s) = handle_subscription_updated env s"
| "handle_event env (SubscriptionDeleted s) = handle_subscription_deleted env s"
| "handle_event env OtherEvent = ret ()"

text \<open>An empty body is a buffer and passes; an absent one, or an empty or absent header, does not.\<close>

definition handle_webhook ::
  "webhook_env \<Rightarrow> ('b \<Rightarrow> string \<Rightarrow> string \<Rightarrow> exn + stripe_event) \<Rightarrow> 'b option \<Rightarrow> string option \<Rightarrow> (db, unit) prog" where
  "handle_webhook env check_sig raw signature =
     (if raw = None \<or> \<not> js_truthy_str signature then raise webhook_invalid
      else bnd (from_result (construct_webhook_event (we_stripe env) check_sig (the raw) (the signature)))
        (handle_event env))"

section \<open>Every event is a run of billing steps\<close>

abbreviation billing_steps :: "billing_config \<Rightarrow> int \<Rightarrow> stripe_config \<Rightarrow> db \<Rightarrow> db \<Rightarrow> bool" where
  "billing_steps cfg port scfg \<equiv> (billing_step cfg port scfg)\<^sup>*\<^sup>*"

lemma by_steps_client [steps_intros]: "by_steps R (with_client scfg x)"
  unfolding with_client_def by (intro steps_intros)

lemma by_steps_ignore [steps_intros]: "by_steps R (ignore_not_found e)"
  unfolding ignore_not_found_def by (intro steps_intros)

lemma service_by_steps [steps_intros]:
  "by_steps (billing_step cfg port scfg) (mark_invoice_paid now mp)"
  "by_steps (billing_step cfg port scfg) (mark_invoice_failed cfg now fp)"
  "by_steps (billing_step cfg port scfg) (mark_subscription_canceled_by_external_id now x)"
  "xc_provider xp = STRIPE \<Longrightarrow> by_steps (billing_step cfg port scfg) (record_external_checkout now xp)"
  "sy_provider yp = STRIPE \<Longrightarrow> by_steps (billing_step cfg port scfg) (sync_invoice_from_external cfg now nid yp)"
  "sp_status sp \<noteq> None \<Longrightarrow> by_steps (billing_step cfg port scfg) (sync_subscription_from_external cfg now sp)"
  by (blast intro: by_steps_step billing_step.intros)+

lemma stripe_params_shape [simp]:
  "xc_provider (session_checkout w iid) = STRIPE"
  "sy_provider (stripe_sync_params i x m a st) = STRIPE"
  "sp_status (stripe_sub_params s) \<noteq> None"
  by (simp_all add: session_checkout_def stripe_sync_params_def stripe_sub_params_def)

lemma metadata_by_steps [steps_intros]:
  "by_steps R (webhook_metadata_invoice_id scfg sdk i external allow)"
  unfolding webhook_metadata_invoice_id_def resolve_subscription_metadata_def
  by (intro steps_intros)

lemma handle_event_by_steps [steps_intros]:
  "by_steps (billing_step (we_cfg env) port scfg) (handle_event env event)"
proof (cases event)
  case (CheckoutCompleted w)
  then show ?thesis
    by (simp add: handle_checkout_completed_def Let_def) (intro conjI impI steps_intros stripe_params_shape)
next
  case (CheckoutExpired w)
  then show ?thesis
    by (simp add: handle_checkout_expired_def) (intro conjI impI steps_intros)
qed (simp_all add: webhook_sync_invoice_def handle_subscription_updated_def
    handle_subscription_deleted_def Let_def, (intro steps_intros stripe_params_shape)+)

lemma handle_webhook_by_steps [steps_intros]:
  "by_steps (billing_step (we_cfg env) port scfg) (handle_webhook env check_sig raw signature)"
  unfolding handle_webhook_def by (intro steps_intros)

section \<open>Which errors an event can end in\<close>

text \<open>The errors of the database carry no code of the application.\<close>

definition database_error :: "exn \<Rightarrow> bool" where
  "database_error e \<longleftrightarrow> exn_code e = None"

lemma viol_database_error:
  "sub_viol r r' = Some e \<Longrightarrow> database_error e" "invoice_viol r0 r0' = Some e \<Longrightarrow> database_error e"
  by (auto simp: sub_viol_def invoice_viol_def unique_violation_def database_error_def split: if_splits)

lemma insert_database_error:
  assumes "insert_unique viol row rows = Inl e" "\<And>r r' e. viol r r' = Some e \<Longrightarrow> database_error e"
  shows "database_error e"
  using insert_unique_Inl [OF assms(1)] assms(2) by blast

lemma update_database_error:
  assumes "update_unique viol p g rows = Inl e" "\<And>r r' e. viol r r' = Some e \<Longrightarrow> database_error e"
  shows "database_error e"
proof (cases "find_unique p rows")
  case None
  then show ?thesis using assms(1) by (simp add: update_unique_def record_missing_def database_error_def) auto
next
  case (Some r)
  let ?bad = "List.map_filter (viol (g r)) (filter (\<lambda>r'. \<not> p r') rows)"
  have "?bad \<noteq> [] \<and> hd ?bad = e"
    using assms(1) Some by (cases ?bad) (auto simp: update_unique_def)
  then have "e \<in> set ?bad" by (metis hd_in_set)
  then show ?thesis using assms(2) by (auto simp: set_map_filter)
qed

lemma writes_fail [fails_intros]:
  "fails_with database_error (create_invoice r)"
  "fails_with database_error (update_invoice iid g)"
  "fails_with database_error (update_sub now sid h)"
  unfolding fails_with_def create_invoice_def update_invoice_def update_sub_def writes_Inl
  using insert_database_error [of invoice_viol, OF _ viol_database_error(2)]
    update_database_error [of invoice_viol, OF _ viol_database_error(2)]
    update_database_error [of sub_viol, OF _ viol_database_error(1)]
  by (auto simp: int4_overflow_def foreign_key_violation_def record_missing_def database_error_def
      split: if_splits option.splits sum.splits)

text \<open>Those of the service also may say that an object is not found.\<close>

definition service_error :: "exn \<Rightarrow> bool" where
  "service_error e \<longleftrightarrow> database_error e \<or> ignored_not_found e"

lemmas writes_service = writes_fail [THEN fails_with_mono, of service_error]

lemma writes_fail_service [fails_intros]:
  "fails_with service_error (create_invoice r)"
  "fails_with service_error (update_invoice iid g)"
  "fails_with service_error (update_sub now sid h)"
  by (rule writes_service, simp add: service_error_def)+

lemma not_found_service [simp]:
  "service_error invoice_not_found" "service_error subscription_not_found"
  by (simp_all add: service_error_def ignored_not_found_def invoice_not_found_def
      subscription_not_found_def not_found_error_def)

lemma mark_fail [fails_intros]:
  "fails_with service_error (mark_invoice_paid now mp)"
  "fails_with service_error (mark_invoice_failed cfg now fp)"
  unfolding mark_invoice_paid_def mark_invoice_failed_def
  by (intro fails_intros not_found_service)+

lemma service_fail [fails_intros]:
  "fails_with service_error (mark_subscription_canceled_by_external_id now x)"
  "fails_with service_error (record_external_checkout now xp)"
  "fails_with service_error (sync_invoice_from_external cfg now nid yp)"
  "fails_with service_error (sync_subscription_from_external cfg now sp)"
  unfolding mark_subscription_canceled_by_external_id_def record_external_checkout_def
    sync_invoice_from_external_def sync_subscription_from_external_def
    resolve_invoice_for_external_sync_def
  by (intro fails_intros not_found_service)+

lemma ignore_fail [fails_intros]:
  "fails_with service_error m \<Longrightarrow> fails_with database_error (try_catch m ignore_not_found)"
  by (erule fails_with_try)
    (auto simp: ignore_not_found_def service_error_def intro: fails_intros)

lemma metadata_fail [fails_intros]:
  assumes "js_truthy_str (sc_secret_key scfg)" "\<And>x e. sdk_subscription sdk x = Inl e \<Longrightarrow> database_error e"
  shows "fails_with database_error (webhook_metadata_invoice_id scfg sdk i external allow)"
  unfolding webhook_metadata_invoice_id_def resolve_subscription_metadata_def with_client_def
  by (intro fails_intros) (use assms in auto)

lemma handle_event_fail:
  assumes "js_truthy_str (sc_secret_key (we_stripe env))"
    "\<And>x e. sdk_subscription (we_sdk env) x = Inl e \<Longrightarrow> database_error e"
  shows "fails_with database_error (handle_event env event)"
proof -
  have completed: "fails_with database_error (handle_checkout_completed env w)" for w
    unfolding handle_checkout_completed_def Let_def by (intro fails_intros)
  have expired: "fails_with database_error (handle_checkout_expired env w)" for w
    unfolding handle_checkout_expired_def by (intro fails_intros)
  have invoice: "fails_with database_error (webhook_sync_invoice env i st)" for i st
    unfolding webhook_sync_invoice_def Let_def by (intro fails_intros assms)
  have sub: "fails_with database_error (handle_subscription_updated env s)"
    "fails_with database_error (handle_subscription_deleted env s)" for s
    unfolding handle_subscription_updated_def handle_subscription_deleted_def by (intro fails_intros)+
  show ?thesis by (cases event) (simp_all add: completed expired invoice sub fails_with_ret)
qed

text \<open>The event's object is not known: no row has its external id, the ids its metadata name, or
  the external id of its subscription.\<close>

definition invoice_unknown :: "webhook_env \<Rightarrow> db \<Rightarrow> stripe_invoice \<Rightarrow> bool" where
  "invoice_unknown env d i \<longleftrightarrow>
     list_all (\<lambda>r. inv_external r \<noteq> Some (si_id i)
        \<and> (case fst (webhook_metadata_invoice_id (we_stripe env) (we_sdk env) i (si_parent_sub i)
              (should_allow_metadata_invoice_id i) d) of
             Inl e \<Rightarrow> False | Inr m \<Rightarrow> m \<noteq> Some (inv_id r))) (invoices d)
     \<and> list_all (\<lambda>s. sub_external s = None \<or> sub_external s \<noteq> si_parent_sub i) (subs d)"

fun object_unknown :: "webhook_env \<Rightarrow> db \<Rightarrow> stripe_event \<Rightarrow> bool" where
  "object_unknown env d (CheckoutCompleted w) = list_all (\<lambda>r. ws_invoice w \<noteq> Some (inv_id r)) (invoices d)"
| "object_unknown env d (CheckoutExpired w) = list_all (\<lambda>r. ws_invoice w \<noteq> Some (inv_id r)) (invoices d)"
| "object_unknown env d (InvoiceCreated i) = invoice_unknown env d i"
| "object_unknown env d (InvoiceFinalized i) = invoice_unknown env d i"
| "object_unknown env d (InvoicePaid i) = invoice_unknown env d i"
| "object_unknown env d (InvoicePaymentFailed i) = invoice_unknown env d i"
| "object_unknown env d (SubscriptionUpdated s) = list_all (\<lambda>r. sub_external r \<noteq> Some (ss_id s)) (subs d)"
| "object_unknown env d (SubscriptionDeleted s) = list_all (\<lambda>r. sub_external r \<noteq> Some (ss_id s)) (subs d)"
| "object_unknown env d OtherEvent = True"

lemma try_ignored:
  assumes "m d = (Inl e, d)" "ignored_not_found e"
  shows "try_catch m ignore_not_found d = (Inr (), d)"
  using assms by (simp add: try_catch_def ignore_not_found_def ret_def)

lemma ignored_codes [simp]:
  "ignored_not_found invoice_not_found" "ignored_not_found subscription_not_found"
  by (simp_all add: ignored_not_found_def invoice_not_found_def subscription_not_found_def not_found_error_def)

lemma no_invoice:
  assumes "list_all (\<lambda>r. x \<noteq> Some (inv_id r)) (invoices d)" "js_truthy_str x"
  shows "find_invoice d (the x) = None"
proof -
  have "find_unique (\<lambda>r. inv_id r = the x) (invoices d) = None"
    using assms by (auto simp: find_unique_None list_all_iff js_truthy_str_def split: option.splits)
  then show ?thesis by (simp add: find_invoice_def)
qed

lemma metadata_reads:
  "snd (webhook_metadata_invoice_id scfg sdk i external allow d) = d"
  by (simp add: webhook_metadata_invoice_id_def resolve_subscription_metadata_def with_client_def
      ret_def raise_def bnd_def from_result_def split: sum.splits)

lemma sync_unknown:
  assumes "list_all (\<lambda>r. inv_external r \<noteq> Some (sy_external p) \<and> sy_metadata p \<noteq> Some (inv_id r)) (invoices d)"
    and "list_all (\<lambda>s. sub_external s = None \<or> sub_external s \<noteq> sy_sub_external p) (subs d)"
  shows "sync_invoice_from_external cfg now nid p d = (Inl subscription_not_found, d)"
proof -
  have "find_invoice_by_external d (sy_external p) = None"
    using assms(1) by (auto simp: find_invoice_by_external_def find_unique_None list_all_iff)
  moreover have "find_unique (\<lambda>r. Some (inv_id r) = sy_metadata p) (invoices d) = None"
    using assms(1) by (auto simp: find_unique_None list_all_iff)
  moreover have "find_sub_by_external d (the (sy_sub_external p)) = None" if "js_truthy_str (sy_sub_external p)"
    using assms(2) that
    by (auto simp: find_sub_by_external_def find_unique_None list_all_iff js_truthy_str_def split: option.splits)
  ultimately show ?thesis
    by (simp add: sync_invoice_from_external_def resolve_invoice_for_external_sync_def metadata_match_def
        bnd_def gets_def raise_def ret_def)
qed

lemma unknown_invoice_event:
  assumes "invoice_unknown env d i" "webhook_sync_invoice env i st d = (res, d')"
  shows "d' = d \<and> (res = Inr () \<or> (\<exists>e. res = Inl e
     \<and> fst (webhook_metadata_invoice_id (we_stripe env) (we_sdk env) i (si_parent_sub i)
              (should_allow_metadata_invoice_id i) d) = Inl e))"
proof -
  let ?m = "webhook_metadata_invoice_id (we_stripe env) (we_sdk env) i (si_parent_sub i)
              (should_allow_metadata_invoice_id i)"
  obtain r where m: "?m d = (r, d)" using metadata_reads by (metis prod.collapse)
  show ?thesis
  proof (cases r)
    case (Inl e)
    then show ?thesis using assms(2) m by (simp add: webhook_sync_invoice_def Let_def bnd_def)
  next
    case (Inr metadata)
    let ?p = "stripe_sync_params i (si_parent_sub i) metadata (should_allow_metadata_invoice_id i) st"
    have "sync_invoice_from_external (we_cfg env) (we_now env) (we_new_id env) ?p d = (Inl subscription_not_found, d)"
      by (rule sync_unknown)
        (use assms(1) m Inr in \<open>simp_all add: invoice_unknown_def stripe_sync_params_def list_all_iff\<close>)
    then have "try_catch (bnd (sync_invoice_from_external (we_cfg env) (we_now env) (we_new_id env) ?p)
        (\<lambda>_. ret ())) ignore_not_found d = (Inr (), d)"
      by (intro try_ignored [where e = subscription_not_found]) (simp_all add: bnd_def)
    then show ?thesis using assms(2) m Inr by (simp add: webhook_sync_invoice_def Let_def bnd_def)
  qed
qed

lemma unknown_session_event:
  assumes "list_all (\<lambda>r. ws_invoice w \<noteq> Some (inv_id r)) (invoices d)"
  shows "handle_checkout_completed env w d = (Inr (), d)" "handle_checkout_expired env w d = (Inr (), d)"
proof -
  have completed: "record_external_checkout now (session_checkout w (the (ws_invoice w))) d = (Inl invoice_not_found, d)"
    if "js_truthy_str (ws_invoice w)" for now
    using no_invoice [OF assms that]
    by (simp add: record_external_checkout_def session_checkout_def bnd_def gets_def raise_def)
  show "handle_checkout_completed env w d = (Inr (), d)"
    unfolding handle_checkout_completed_def Let_def
    by (auto simp: ret_def bnd_def completed intro!: try_ignored)
  have expired: "mark_invoice_failed cfg now ((fail_only (the (ws_invoice w)) STRIPE)
      \<lparr>mk_session := x, mk_sub_external := y\<rparr>) d = (Inl invoice_not_found, d)"
    if "js_truthy_str (ws_invoice w)" for cfg now x y
    using no_invoice [OF assms that]
    by (simp add: mark_invoice_failed_def fail_only_def bnd_def gets_def raise_def)
  show "handle_checkout_expired env w d = (Inr (), d)"
    unfolding handle_checkout_expired_def
    by (auto simp: ret_def bnd_def expired intro!: try_ignored)
qed

lemma unknown_subscription_event:
  assumes "list_all (\<lambda>r. sub_external r \<noteq> Some (ss_id s)) (subs d)"
  shows "handle_subscription_updated env s d = (Inr (), d)" "handle_subscription_deleted env s d = (Inr (), d)"
proof -
  have none: "find_sub_by_external d (ss_id s) = None"
    using assms by (auto simp: find_sub_by_external_def find_unique_None list_all_iff)
  then show "handle_subscription_updated env s d = (Inr (), d)"
    unfolding handle_subscription_updated_def
    by (intro try_ignored [where e = subscription_not_found]) (simp_all add: sync_subscription_from_external_def stripe_sub_params_def
        bnd_def gets_def raise_def)
  show "handle_subscription_deleted env s d = (Inr (), d)"
    unfolding handle_subscription_deleted_def
    by (intro try_ignored [where e = subscription_not_found]) (simp_all add: mark_subscription_canceled_by_external_id_def none
        bnd_def gets_def raise_def)
qed

lemma unknown_event:
  assumes "object_unknown env d event" "handle_event env event d = (res, d')"
  shows "d' = d"
  using assms unknown_invoice_event [of env d _ _ res d'] unknown_session_event [of _ d env]
    unknown_subscription_event [of _ d env]
  by (cases event) (auto simp: ret_def)


definition sample_webhook_env :: webhook_env where
  "sample_webhook_env = \<lparr>we_cfg = shop_config STRIPE,
     we_stripe = sample_stripe_config,
     we_sdk = sample_sdk ''paid'', we_now = 10, we_new_id = ''i9''\<rparr>"


end
