(* ===== verification/Reconciliation.thy ===== *)
theory Reconciliation
  imports StripeWebhooks Lease
begin

text \<open>
  \<open>src/modules/billing/billing-reconciliation.service.ts\<close>: the worker that reads subscriptions from
  Stripe and applies what webhooks may have missed. What one reconciliation meets is a
  \<open>reconcile_env\<close>: Stripe's answers (the subscription with its latest invoice expanded, an invoice by
  id), the clocks of its two writes and the id of an invoice it may create.
\<close>

section \<open>One subscription\<close>

record reconcile_env =
  rn_stripe :: stripe_config
  rn_retrieve :: "string \<Rightarrow> exn + stripe_subscription"
  rn_invoice :: "string \<Rightarrow> exn + stripe_invoice"
  rn_now :: date
  rn_later :: date
  rn_new_id :: string

definition is_stripe_not_found :: "exn \<Rightarrow> bool" where
  "is_stripe_not_found e = (case e of
     StripeError type code message \<Rightarrow> type = ''StripeInvalidRequestError'' \<and> code = Some ''resource_missing''
   | _ \<Rightarrow> False)"

definition resolve_latest_invoice :: "reconcile_env \<Rightarrow> latest_invoice \<Rightarrow> (db, stripe_invoice option) prog" where
  "resolve_latest_invoice env latest =
     (case latest of
        NoLatest \<Rightarrow> ret None
      | LatestId x \<Rightarrow> if x = '''' then ret None
          else bnd (with_client (rn_stripe env) (rn_invoice env x)) (\<lambda>i. ret (Some i))
      | LatestObject i \<Rightarrow> ret (Some i))"

definition map_stripe_invoice_status :: "stripe_invoice \<Rightarrow> subscription_status \<Rightarrow> invoice_status" where
  "map_stripe_invoice_status i st =
     (if si_status i = Some ''paid'' then IPaid
      else if si_status i = Some ''void'' \<or> si_status i = Some ''uncollectible'' then IVoid
      else if st = PAST_DUE then IPastDue
      else IDraft)"

definition resolve_metadata_invoice_id :: "stripe_invoice \<Rightarrow> string option \<Rightarrow> bool \<Rightarrow> string option" where
  "resolve_metadata_invoice_id i sub_metadata allow =
     (if js_truthy_str (si_meta i) then si_meta i
      else if js_truthy_str (si_parent_meta i) then si_parent_meta i
      else if \<not> allow then None
      else sub_metadata)"

definition sync_latest_invoice ::
  "billing_config \<Rightarrow> reconcile_env \<Rightarrow> stripe_subscription \<Rightarrow> stripe_invoice \<Rightarrow> (db, unit) prog" where
  "sync_latest_invoice cfg env s i =
     (let allow = should_allow_metadata_invoice_id i;
          metadata = resolve_metadata_invoice_id i (ss_meta s) allow
      in bnd (sync_invoice_from_external cfg (rn_later env) (rn_new_id env)
           (stripe_sync_params i (Some (ss_id s)) metadata allow
              (map_stripe_invoice_status i (map_stripe_subscription_status (ss_status s))))) (\<lambda>_. ret ()))"

definition apply_stripe_subscription ::
  "billing_config \<Rightarrow> reconcile_env \<Rightarrow> stripe_subscription \<Rightarrow> (db, unit) prog" where
  "apply_stripe_subscription cfg env s =
     bnd (sync_subscription_from_external cfg (rn_now env) (stripe_sub_params s)) (\<lambda>_.
     bnd (resolve_latest_invoice env (ss_latest s)) (\<lambda>latest.
       case latest of None \<Rightarrow> ret () | Some i \<Rightarrow> sync_latest_invoice cfg env s i))"

definition reconcile_subscription :: "billing_config \<Rightarrow> reconcile_env \<Rightarrow> string \<Rightarrow> (db, unit) prog" where
  "reconcile_subscription cfg env external =
     bnd (try_catch
            (bnd (with_client (rn_stripe env) (rn_retrieve env external)) (\<lambda>s. ret (Some s)))
            (\<lambda>e. if is_stripe_not_found e
                 then bnd (mark_subscription_canceled_by_external_id (rn_now env) external) (\<lambda>_. ret None)
                 else raise e)) (\<lambda>answer.
       case answer of None \<Rightarrow> ret () | Some s \<Rightarrow> apply_stripe_subscription cfg env s)"

section \<open>The worker\<close>

definition reconciliation_should_run :: "billing_config \<Rightarrow> bool" where
  "reconciliation_should_run cfg \<longleftrightarrow> payment_provider cfg = STRIPE \<and> reconciliation_enabled cfg"

definition due_reconciliations :: "nat \<Rightarrow> db \<Rightarrow> sub_row list" where
  "due_reconciliations batch d = take batch (find_many sub_updated
     (\<lambda>s. sub_provider s = STRIPE \<and> sub_external s \<noteq> None
        \<and> (sub_status s = PENDING \<or> sub_status s = ACTIVE \<or> sub_status s = PAST_DUE)) (subs d))"

definition reconcile_all ::
  "billing_config \<Rightarrow> (sub_row \<Rightarrow> reconcile_env) \<Rightarrow> sub_row list \<Rightarrow> (db, int \<times> int) prog" where
  "reconcile_all cfg env rows = (\<lambda>d.
     let (counts, d') = run_batch (\<lambda>s.
            if \<not> js_truthy_str (sub_external s) then ret False
            else bnd (reconcile_subscription cfg (env s) (the (sub_external s))) (\<lambda>_. ret True)) rows (0, 0) d
     in (Inr counts, d'))"

definition reconcile_stripe_state ::
  "billing_config \<Rightarrow> string \<Rightarrow> date \<Rightarrow> exn option \<Rightarrow> (sub_row \<Rightarrow> reconcile_env) \<Rightarrow> (db, int \<times> int) prog" where
  "reconcile_stripe_state cfg owner lease_now fault env =
     (if \<not> reconciliation_should_run cfg then ret (0, 0)
      else bnd (reconciliation_try_acquire_lease cfg owner lease_now fault) (\<lambda>acquired.
        if \<not> acquired then ret (0, 0)
        else bnd (gets (due_reconciliations (reconciliation_batch cfg))) (reconcile_all cfg env)))"

definition run_reconciliation_cycle ::
  "billing_config \<Rightarrow> string \<Rightarrow> date \<Rightarrow> exn option \<Rightarrow> (sub_row \<Rightarrow> reconcile_env) \<Rightarrow> (db, unit) prog" where
  "run_reconciliation_cycle cfg owner lease_now fault env =
     try_catch (bnd (reconcile_stripe_state cfg owner lease_now fault env) (\<lambda>_. ret ())) (\<lambda>e. ret ())"

section \<open>Webhooks and reconciliation are runs of billing steps\<close>

lemma sync_latest_by_steps [steps_intros]:
  "by_steps (billing_step cfg port scfg) (sync_latest_invoice cfg env s i)"
  unfolding sync_latest_invoice_def Let_def by (intro steps_intros stripe_params_shape)

lemma resolve_latest_by_steps [steps_intros]: "by_steps R (resolve_latest_invoice env latest)"
  unfolding resolve_latest_invoice_def
  by (cases latest) (auto intro: steps_intros)

lemma apply_by_steps [steps_intros]:
  "by_steps (billing_step cfg port scfg) (apply_stripe_subscription cfg env s)"
proof -
  have "by_steps (billing_step cfg port scfg)
      (case latest of None \<Rightarrow> ret () | Some i \<Rightarrow> sync_latest_invoice cfg env s i)" for latest
    by (cases latest) (simp_all add: steps_intros)
  then show ?thesis
    unfolding apply_stripe_subscription_def
    by (intro by_steps_bnd service_by_steps stripe_params_shape resolve_latest_by_steps)
qed

lemma reconcile_by_steps [steps_intros]:
  "by_steps (billing_step cfg port scfg) (reconcile_subscription cfg env external)"
proof -
  have "by_steps (billing_step cfg port scfg)
      (case answer of None \<Rightarrow> ret () | Some s \<Rightarrow> apply_stripe_subscription cfg env s)" for answer
    by (cases answer) (simp_all add: steps_intros)
  then show ?thesis
    unfolding reconcile_subscription_def by (intro by_steps_bnd by_steps_try steps_intros)
qed

lemma reconcile_all_by_steps [steps_intros]:
  "by_steps (billing_step cfg port scfg) (reconcile_all cfg env rows)"
proof -
  let ?R = "(billing_step cfg port scfg)\<^sup>*\<^sup>*"
  let ?f = "\<lambda>s. if \<not> js_truthy_str (sub_external s) then ret False
            else bnd (reconcile_subscription cfg (env s) (the (sub_external s))) (\<lambda>_. ret True)"
  have one: "by_steps (billing_step cfg port scfg) (?f s)" for s by (intro steps_intros)
  have "?R d (snd (run_batch ?f rows (0, 0) d))" for d
  proof -
    obtain c d' where run: "run_batch ?f rows (0, 0) d = (c, d')" by (rule prod.exhaust)
    have more: "?R d d2" if "?R d d1" "?f s d1 = (r, d2)" for s d1 r d2
      by (rule rtranclp_trans [OF that(1) by_stepsD [OF one that(2)]])
    have "?R d d'"
      by (rule run_batch_invariant [where I = "?R d" and f = ?f and xs = rows, OF more _ run]) simp_all
    then show ?thesis by (simp add: run)
  qed
  then show ?thesis by (simp add: by_steps_def reconcile_all_def case_prod_beta)
qed

lemma lease_writes_by_steps [steps_intros]:
  "by_steps (billing_step cfg port scfg) (create_lease l)"
  "by_steps (billing_step cfg port scfg) (take_over_lease l owner expires)"
  by (rule by_steps_step, rule billing_step.elsewhere,
      auto simp: create_lease_def take_over_lease_def ret_def raise_def Let_def split: sum.splits if_splits)+

lemma lease_by_steps [steps_intros]:
  "by_steps (billing_step cfg port scfg) (reconciliation_try_acquire_lease bc owner now fault)"
  unfolding reconciliation_try_acquire_lease_def catch_retryable_def lease_transaction_def lease_body_def
    may_fail_def
  by (intro steps_intros by_steps_try)

lemma reconcile_state_by_steps [steps_intros]:
  "by_steps (billing_step cfg port scfg) (reconcile_stripe_state cfg owner lease_now fault env)"
  unfolding reconcile_stripe_state_def by (intro steps_intros)

lemma reconciliation_cycle_by_steps [steps_intros]:
  "by_steps (billing_step cfg port scfg) (run_reconciliation_cycle cfg owner lease_now fault env)"
  unfolding run_reconciliation_cycle_def by (intro steps_intros by_steps_try)

text \<open>C13: Webhooks and reconciliation only act through the subscription operations: whatever request
  arrives (any body, header, event and answers of Stripe) and whatever a reconciliation cycle finds,
  with any failure half-way, its effect on the database is a run of billing steps; so what those
  steps keep, and the lifecycle they refine, holds with webhooks and reconciliation in any order.\<close>

theorem stripe_sync_refines:
  assumes "(\<exists>env check_sig raw signature. we_cfg env = cfg
        \<and> handle_webhook env check_sig raw (signature :: string option) d = (res, d'))
     \<or> (\<exists>owner lease_now fault env. run_reconciliation_cycle cfg owner lease_now fault env d = (res, d'))"
  shows "billing_steps cfg port scfg d d' \<and> (billing_inv d \<longrightarrow> billing_inv d')"
proof -
  have run: "billing_steps cfg port scfg d d'"
    using assms by_stepsD [OF handle_webhook_by_steps] by_stepsD [OF reconciliation_cycle_by_steps] by blast
  have "billing_inv d'" if "billing_inv d"
    using run that by (induction rule: rtranclp_induct) (blast intro: billing_step_inv)+
  then show ?thesis using run by blast
qed

section \<open>Reconciliation replays missed events\<close>

fun invoice_event :: "stripe_invoice \<Rightarrow> invoice_status \<Rightarrow> stripe_event" where
  "invoice_event i IPaid = InvoicePaid i"
| "invoice_event i IPastDue = InvoicePaymentFailed i"
| "invoice_event i IDraft = InvoiceFinalized i"
| "invoice_event i IVoid = OtherEvent"

lemma invoice_event_sync:
  "st \<noteq> IVoid \<Longrightarrow> handle_event env (invoice_event i st) = webhook_sync_invoice env i st"
  by (cases st) simp_all

lemma try_ignore_ok: "m d = (Inr x, d') \<Longrightarrow> try_catch m h d = (Inr x, d')"
  by (simp add: try_catch_def)

lemma webhook_metadata_agrees:
  assumes "js_truthy_str (sc_secret_key scfg)" "ss_id s \<noteq> ''''"
    and "sdk_subscription sdk (ss_id s) = Inr s'" "ss_meta s' = ss_meta s"
  shows "webhook_metadata_invoice_id scfg sdk i (Some (ss_id s)) allow d
       = (Inr (resolve_metadata_invoice_id i (ss_meta s) allow), d)"
  using assms
  by (simp add: webhook_metadata_invoice_id_def resolve_metadata_invoice_id_def
      resolve_subscription_metadata_def with_client_def from_result_def ret_def bnd_def js_truthy_str_def)

text \<open>C12: Reconciliation makes up for missed webhooks: when reconciling a subscription with a latest
  invoice that is not void succeeds, its effect is exactly that of the two events Stripe would have
  sent, the update of the subscription and then the event of the invoice's status, handled at the
  same times.\<close>

theorem reconciliation_replays_webhooks:
  assumes "js_truthy_str (sc_secret_key (rn_stripe env))"
    and "rn_retrieve env external = Inr s" "ss_latest s = LatestObject i"
    and "si_parent_sub i = Some (ss_id s)" "ss_id s \<noteq> ''''"
    and "sdk_subscription sdk (ss_id s) = Inr s'" "ss_meta s' = ss_meta s"
    and "map_stripe_invoice_status i (map_stripe_subscription_status (ss_status s)) = st" "st \<noteq> IVoid"
    and "reconcile_subscription cfg env external d = (Inr (), d')"
  shows "bnd (handle_event \<lparr>we_cfg = cfg, we_stripe = rn_stripe env, we_sdk = sdk, we_now = rn_now env,
                we_new_id = rn_new_id env\<rparr> (SubscriptionUpdated s)) (\<lambda>_.
             handle_event \<lparr>we_cfg = cfg, we_stripe = rn_stripe env, we_sdk = sdk, we_now = rn_later env,
                we_new_id = rn_new_id env\<rparr> (invoice_event i st)) d = (Inr (), d')"
proof -
  let ?w = "\<lambda>now. \<lparr>we_cfg = cfg, we_stripe = rn_stripe env, we_sdk = sdk, we_now = now, we_new_id = rn_new_id env\<rparr>"
  have run: "apply_stripe_subscription cfg env s d = (Inr (), d')"
    using assms(1,2,10) by (simp add: reconcile_subscription_def with_client_def from_result_def bnd_def
        try_catch_def ret_def)
  then obtain d1 where first: "sync_subscription_from_external cfg (rn_now env) (stripe_sub_params s) d = (Inr (), d1)"
    and second: "sync_latest_invoice cfg env s i d1 = (Inr (), d')"
    using assms(3) by (auto simp: apply_stripe_subscription_def resolve_latest_invoice_def bnd_Inr ret_def)
  have updated: "handle_event (?w (rn_now env)) (SubscriptionUpdated s) d = (Inr (), d1)"
    by (simp add: handle_subscription_updated_def try_ignore_ok [of "sync_subscription_from_external cfg (rn_now env) (stripe_sub_params s)", OF first])
  let ?allow = "should_allow_metadata_invoice_id i"
  let ?sync = "bnd (sync_invoice_from_external cfg (rn_later env) (rn_new_id env)
      (stripe_sync_params i (Some (ss_id s)) (resolve_metadata_invoice_id i (ss_meta s) ?allow) ?allow st)) (\<lambda>_. ret ())"
  have "?sync d1 = (Inr (), d')"
    using second unfolding sync_latest_invoice_def Let_def assms(8) .
  then have "try_catch ?sync ignore_not_found d1 = (Inr (), d')" by (rule try_ignore_ok)
  then have "handle_event (?w (rn_later env)) (invoice_event i st) d1 = (Inr (), d')"
    unfolding invoice_event_sync [OF assms(9)] webhook_sync_invoice_def Let_def assms(4)
    by (simp add: bnd_def [of "webhook_metadata_invoice_id _ _ _ _ _"]
        webhook_metadata_agrees [OF assms(1,5,6,7)])
  then show ?thesis using updated by (simp add: bnd_def)
qed

section \<open>Concrete runs\<close>

text \<open>A stored active subscription and what Stripe says about it.\<close>

definition reconciled_sub :: "string \<Rightarrow> stripe_subscription" where
  "reconciled_sub st = (sample_stripe_sub ''sub_1'')\<lparr>ss_status := st,
     ss_latest := LatestObject ((sample_stripe_invoice ''in_1'' ''paid'')\<lparr>si_parent_sub := Some ''sub_1''\<rparr>)\<rparr>"

definition sample_reconcile_env :: "string \<Rightarrow> reconcile_env" where
  "sample_reconcile_env st = \<lparr>rn_stripe = sample_stripe_config, rn_retrieve = (\<lambda>x. Inr (reconciled_sub st)),
     rn_invoice = (\<lambda>x. Inr (sample_stripe_invoice x ''paid'')), rn_now = 5000, rn_later = 5001,
     rn_new_id = ''i9''\<rparr>"

definition shop_active :: db where
  "shop_active = snd (mark_invoice_paid 2000 shop_paid_event shop_pending)"

theorem stripe_sync_refines_witness:
  "billing_steps (shop_config STRIPE) 3000 sample_stripe_config shop_active
     (snd (run_reconciliation_cycle (shop_config STRIPE) ''w1'' 5000 None
        (\<lambda>s. sample_reconcile_env ''active'') shop_active))"
proof -
  obtain res d' where run: "run_reconciliation_cycle (shop_config STRIPE) ''w1'' 5000 None
      (\<lambda>s. sample_reconcile_env ''active'') shop_active = (res, d')" by (rule prod.exhaust)
  show ?thesis unfolding run snd_conv
    by (rule stripe_sync_refines [THEN conjunct1], rule disjI2, (rule exI)+, rule run)
qed

theorem reconciliation_replays_webhooks_witness:
  "fst (bnd (handle_event \<lparr>we_cfg = shop_config STRIPE, we_stripe = sample_stripe_config,
         we_sdk = sample_sdk ''paid'', we_now = 5000, we_new_id = ''i9''\<rparr>
         (SubscriptionUpdated (reconciled_sub ''active'')))
     (\<lambda>_. handle_event \<lparr>we_cfg = shop_config STRIPE, we_stripe = sample_stripe_config,
         we_sdk = sample_sdk ''paid'', we_now = 5001, we_new_id = ''i9''\<rparr>
         (InvoicePaid ((sample_stripe_invoice ''in_1'' ''paid'')\<lparr>si_parent_sub := Some ''sub_1''\<rparr>)))
     shop_active) = Inr ()"
proof -
  let ?env = "sample_reconcile_env ''active''"
  let ?i = "(sample_stripe_invoice ''in_1'' ''paid'')\<lparr>si_parent_sub := Some ''sub_1''\<rparr>"
  have env: "rn_stripe ?env = sample_stripe_config" "rn_now ?env = 5000" "rn_later ?env = 5001" "rn_new_id ?env = ''i9''"
    "rn_retrieve ?env ''sub_1'' = Inr (reconciled_sub ''active'')"
    by (simp_all add: sample_reconcile_env_def)
  have fields: "ss_latest (reconciled_sub ''active'') = LatestObject ?i" "si_parent_sub ?i = Some (ss_id (reconciled_sub ''active''))"
    "ss_id (reconciled_sub ''active'') \<noteq> ''''" "js_truthy_str (sc_secret_key (rn_stripe ?env))"
    "sdk_subscription (sample_sdk ''paid'') (ss_id (reconciled_sub ''active'')) = Inr (sample_stripe_sub ''sub_1'')"
    "ss_meta (sample_stripe_sub ''sub_1'') = ss_meta (reconciled_sub ''active'')"
    "map_stripe_invoice_status ?i (map_stripe_subscription_status (ss_status (reconciled_sub ''active''))) = IPaid"
    by (simp_all add: reconciled_sub_def sample_stripe_sub_def sample_stripe_invoice_def sample_sdk_def
        sample_reconcile_env_def sample_stripe_config_def js_truthy_str_def map_stripe_invoice_status_def)
  have "fst (reconcile_subscription (shop_config STRIPE) ?env ''sub_1'' shop_active) = Inr ()" by code_simp
  then have run: "reconcile_subscription (shop_config STRIPE) ?env ''sub_1'' shop_active
      = (Inr (), snd (reconcile_subscription (shop_config STRIPE) ?env ''sub_1'' shop_active))"
    by (metis prod.collapse)
  show ?thesis
    using reconciliation_replays_webhooks [OF fields(4) env(5) fields(1,2,3,5,6,7) _ run]
    by (simp add: env)
qed

text \<open>
  Reconciling a subscription that Stripe has ended, with its last invoice paid, ends it and then
  revives it: the paid invoice is applied after the status.
\<close>

lemma reconciliation_revives_canceled:
  "map_stripe_subscription_status (ss_status (reconciled_sub ''canceled'')) = CANCELED
   \<and> map sub_status (subs (snd (reconcile_subscription (shop_config STRIPE) (sample_reconcile_env ''canceled'')
        ''sub_1'' shop_active))) = [ACTIVE]"
  by (rule conjI) code_simp+

end
