(* ===== verification/ExternalUrl.thy ===== *)
theory ExternalUrl
  imports JsString Effects
begin

text \<open>
  \<open>src/common/utils/external-url.ts\<close>: the check every outgoing request to a seller's address
  passes. WHATWG URL parsing and DNS are parameters; \<open>isIP\<close> of \<open>node:net\<close> is modelled.
\<close>

section \<open>Splitting and trimming\<close>

definition js_white :: "char \<Rightarrow> bool" where
  "js_white c \<longleftrightarrow> of_char c \<in> {9, 10, 11, 12, 13, 32, 160 :: nat}"

definition js_trim :: "string \<Rightarrow> string" where
  "js_trim s = rev (dropWhile js_white (rev (dropWhile js_white s)))"

text \<open>\<open>s.split(c)\<close> for a separator of one character: never an empty list.\<close>

fun js_split :: "char \<Rightarrow> string \<Rightarrow> string list" where
  "js_split c [] = [[]]"
| "js_split c (x # s) =
     (if x = c then [] # js_split c s
      else case js_split c s of [] \<Rightarrow> [[x]] | p # ps \<Rightarrow> (x # p) # ps)"

definition ends_with :: "string \<Rightarrow> string \<Rightarrow> bool" where
  "ends_with suffix s = starts_with (rev suffix) (rev s)"

section \<open>IP addresses in text\<close>

text \<open>A decimal number from 0 to 255 without leading zeros.\<close>

definition v4_segment :: "string \<Rightarrow> nat option" where
  "v4_segment s = (case parse_digits s of
     None \<Rightarrow> None | Some n \<Rightarrow> if n \<le> 255 \<and> s = nat_digits n then Some n else None)"

definition v4_segments :: "string \<Rightarrow> (nat \<times> nat \<times> nat \<times> nat) option" where
  "v4_segments s = (case map v4_segment (js_split (CHR ''.'') s) of
     [Some a, Some b, Some c, Some d] \<Rightarrow> Some (a, b, c, d) | _ \<Rightarrow> None)"

definition hex_value :: "char \<Rightarrow> nat option" where
  "hex_value c = (let n = (of_char c :: nat) in
     if 48 \<le> n \<and> n \<le> 57 then Some (n - 48)
     else if 97 \<le> n \<and> n \<le> 102 then Some (n - 87)
     else if 65 \<le> n \<and> n \<le> 70 then Some (n - 55) else None)"

definition v6_segment :: "string \<Rightarrow> bool" where
  "v6_segment s \<longleftrightarrow> s \<noteq> [] \<and> length s \<le> 4 \<and> list_all (\<lambda>c. hex_value c \<noteq> None) s"

text \<open>The groups of one side of \<open>::\<close>, as a count; the last one may be an IPv4 address (two groups).\<close>

fun v6_count :: "bool \<Rightarrow> string list \<Rightarrow> nat option" where
  "v6_count v4 [] = Some 0"
| "v6_count v4 [s] =
     (if v6_segment s then Some 1 else if v4 \<and> v4_segments s \<noteq> None then Some 2 else None)"
| "v6_count v4 (s # t # ss) =
     (if v6_segment s then map_option Suc (v6_count v4 (t # ss)) else None)"

text \<open>The text before and after the first \<open>::\<close>, if there is one.\<close>

fun split_gap :: "string \<Rightarrow> string \<times> string option" where
  "split_gap (x # y # s) =
     (if x = CHR '':'' \<and> y = CHR '':'' then ([], Some s)
      else let (a, b) = split_gap (y # s) in (x # a, b))"
| "split_gap s = (s, None)"

definition v6_side :: "bool \<Rightarrow> string \<Rightarrow> nat option" where
  "v6_side v4 s = (if s = [] then Some 0 else v6_count v4 (js_split (CHR '':'') s))"

definition zone_char :: "char \<Rightarrow> bool" where
  "zone_char c = (let n = (of_char c :: nat) in
     (48 \<le> n \<and> n \<le> 58) \<or> (65 \<le> n \<and> n \<le> 90) \<or> (97 \<le> n \<and> n \<le> 122) \<or> n = 45 \<or> n = 46)"

definition v6_zone_ok :: "string \<Rightarrow> bool" where
  "v6_zone_ok z \<longleftrightarrow> z = [] \<or> (2 \<le> length z \<and> list_all zone_char (tl z))"

definition is_ipv6 :: "string \<Rightarrow> bool" where
  "is_ipv6 s =
     (let address = takeWhile (\<lambda>c. c \<noteq> CHR ''%'') s; zone = dropWhile (\<lambda>c. c \<noteq> CHR ''%'') s in
      v6_zone_ok zone
      \<and> (case split_gap address of
           (a, None) \<Rightarrow> v6_side True a = Some 8
         | (a, Some b) \<Rightarrow> (case (v6_side False a, v6_side True b) of
             (Some m, Some n) \<Rightarrow> m + n \<le> 7 | _ \<Rightarrow> False)))"

text \<open>\<open>isIP\<close>: 4, 6, or 0 for anything else.\<close>

definition is_ip :: "string \<Rightarrow> nat" where
  "is_ip s = (if v4_segments s \<noteq> None then 4 else if is_ipv6 s then 6 else 0)"

section \<open>Private addresses\<close>

text \<open>
  \<open>Number(part)\<close> on the parts of an IPv4 address; the function is only called on addresses for
  which \<open>isIP\<close> answers 4, where every part is a decimal numeral.
\<close>

definition is_private_ipv4 :: "string \<Rightarrow> bool" where
  "is_private_ipv4 address =
     (case map parse_digits (js_split (CHR ''.'') address) of
        [Some a, Some b, Some c, Some d] \<Rightarrow>
          a = 0 \<or> a = 10 \<or> a = 127 \<or> (a = 100 \<and> 64 \<le> b \<and> b \<le> 127) \<or> (a = 169 \<and> b = 254)
          \<or> (a = 172 \<and> 16 \<le> b \<and> b \<le> 31) \<or> (a = 192 \<and> b = 168) \<or> (a = 198 \<and> (b = 18 \<or> b = 19))
      | _ \<Rightarrow> True)"

definition is_private_ipv6 :: "string \<Rightarrow> bool" where
  "is_private_ipv6 address =
     (let n = to_lower_case (js_trim address) in
      n = ''::'' \<or> n = ''::1'' \<or> starts_with ''fc'' n \<or> starts_with ''fd'' n \<or> starts_with ''fe8'' n
      \<or> starts_with ''fe9'' n \<or> starts_with ''fea'' n \<or> starts_with ''feb'' n)"

definition is_private_address :: "string \<Rightarrow> bool" where
  "is_private_address address =
     (if is_ip address = 4 then is_private_ipv4 address
      else if is_ip address = 6 then is_private_ipv6 address
      else True)"

section \<open>The check of a URL\<close>

record url =
  url_protocol :: string
  url_username :: string
  url_password :: string
  url_hostname :: string
  url_pathname :: string
  url_search :: string
  url_rest :: string

record safe_url_options =
  so_allow_private :: bool
  so_message :: string
  so_status :: int

definition build_unsafe_url_error :: "string \<Rightarrow> safe_url_options \<Rightarrow> string \<Rightarrow> exn" where
  "build_unsafe_url_error s opts reason =
     AppError UNSAFE_EXTERNAL_URL (so_message opts) (so_status opts)
       [(''reason'', DStr reason), (''url'', DStr s)]"

definition parse_url :: "(string \<Rightarrow> url option) \<Rightarrow> string \<Rightarrow> safe_url_options \<Rightarrow> exn + url" where
  "parse_url new_url s opts =
     (case new_url s of
        None \<Rightarrow> Inl (build_unsafe_url_error s opts ''INVALID_URL'')
      | Some u \<Rightarrow>
          if url_protocol u \<noteq> ''http:'' \<and> url_protocol u \<noteq> ''https:''
          then Inl (build_unsafe_url_error s opts ''UNSUPPORTED_PROTOCOL'')
          else if url_username u \<noteq> [] \<or> url_password u \<noteq> [] \<or> url_hostname u = []
          then Inl (build_unsafe_url_error s opts ''INVALID_AUTHORITY'')
          else Inr u)"

definition has_blocked_hostname :: "string \<Rightarrow> bool" where
  "has_blocked_hostname hostname =
     (let n = to_lower_case (js_trim hostname)
      in n = ''localhost'' \<or> ends_with ''.localhost'' n \<or> ends_with ''.local'' n)"

definition resolve_addresses ::
  "(string \<Rightarrow> string list option) \<Rightarrow> string \<Rightarrow> string \<Rightarrow> safe_url_options \<Rightarrow> exn + string list" where
  "resolve_addresses dns hostname s opts =
     (if is_ip hostname \<noteq> 0 then Inr [hostname]
      else case dns hostname of
             None \<Rightarrow> Inl (build_unsafe_url_error s opts ''DNS_LOOKUP_FAILED'')
           | Some addresses \<Rightarrow> Inr addresses)"

definition assert_safe_external_http_url ::
  "(string \<Rightarrow> url option) \<Rightarrow> (string \<Rightarrow> string list option) \<Rightarrow> string \<Rightarrow> safe_url_options \<Rightarrow> exn + url" where
  "assert_safe_external_http_url new_url dns s opts =
     (case parse_url new_url s opts of
        Inl e \<Rightarrow> Inl e
      | Inr u \<Rightarrow>
          if so_allow_private opts then Inr u
          else if has_blocked_hostname (url_hostname u)
          then Inl (build_unsafe_url_error s opts ''BLOCKED_HOSTNAME'')
          else case resolve_addresses dns (url_hostname u) s opts of
                 Inl e \<Rightarrow> Inl e
               | Inr addresses \<Rightarrow>
                   if list_ex is_private_address addresses
                   then Inl (build_unsafe_url_error s opts ''PRIVATE_ADDRESS'')
                   else Inr u)"

section \<open>Private IPv4 blocks\<close>

text \<open>The 32-bit address and the reserved blocks as network and prefix length.\<close>

definition v4_address :: "nat \<times> nat \<times> nat \<times> nat \<Rightarrow> nat" where
  "v4_address q = (case q of (a, b, c, d) \<Rightarrow> ((a * 256 + b) * 256 + c) * 256 + d)"

definition in_block :: "nat \<Rightarrow> (nat \<times> nat \<times> nat \<times> nat) \<times> nat \<Rightarrow> bool" where
  "in_block n block = (case block of (net, len) \<Rightarrow>
     n div 2 ^ (32 - len) = v4_address net div 2 ^ (32 - len))"

definition reserved_v4 :: "((nat \<times> nat \<times> nat \<times> nat) \<times> nat) list" where
  "reserved_v4 = [((0, 0, 0, 0), 8), ((10, 0, 0, 0), 8), ((127, 0, 0, 0), 8), ((100, 64, 0, 0), 10),
     ((169, 254, 0, 0), 16), ((172, 16, 0, 0), 12), ((192, 168, 0, 0), 16), ((198, 18, 0, 0), 15)]"

lemma v4_segment_le: "v4_segment s = Some n \<Longrightarrow> n \<le> 255 \<and> parse_digits s = Some n"
  by (auto simp: v4_segment_def split: option.splits if_splits)

lemma v4_segments_parts:
  assumes "v4_segments s = Some (a, b, c, d)"
  shows "map parse_digits (js_split (CHR ''.'') s) = [Some a, Some b, Some c, Some d]"
    and "a \<le> 255" "b \<le> 255" "c \<le> 255" "d \<le> 255"
proof -
  have m: "map v4_segment (js_split (CHR ''.'') s) = [Some a, Some b, Some c, Some d]"
    using assms by (auto simp: v4_segments_def split: list.splits option.splits)
  then obtain p q r t where "js_split (CHR ''.'') s = [p, q, r, t]"
    "v4_segment p = Some a" "v4_segment q = Some b" "v4_segment r = Some c" "v4_segment t = Some d"
    by (auto simp: map_eq_Cons_conv)
  then show "map parse_digits (js_split (CHR ''.'') s) = [Some a, Some b, Some c, Some d]"
    "a \<le> 255" "b \<le> 255" "c \<le> 255" "d \<le> 255"
    using v4_segment_le by auto
qed

lemma address_div:
  fixes a b c d :: nat
  assumes "b \<le> 255" "c \<le> 255" "d \<le> (255 :: nat)"
  defines "n \<equiv> ((a * 256 + b) * 256 + c) * 256 + d"
  shows "n div 65536 = a * 256 + b" "n div 16777216 = a" "n div 4194304 = a * 4 + b div 64"
    "n div 1048576 = a * 16 + b div 16" "n div 131072 = a * 128 + b div 2"
proof -
  have 1: "n div 256 = (a * 256 + b) * 256 + c" using assms(3) by (simp add: n_def)
  have 2: "n div 65536 = n div 256 div 256" by (simp add: div_mult2_eq [symmetric])
  also have "\<dots> = a * 256 + b" unfolding 1 using assms(2) by simp
  finally show h: "n div 65536 = a * 256 + b" .
  have "n div (65536 * k) = (a * 256 + b) div k" for k by (simp add: div_mult2_eq h)
  from this [of 256] this [of 64] this [of 16] this [of 2]
  have "n div 16777216 = (a * 256 + b) div 256" "n div 4194304 = (a * 256 + b) div 64"
    "n div 1048576 = (a * 256 + b) div 16" "n div 131072 = (a * 256 + b) div 2"
    by simp_all
  moreover have "(a * 256 + b) div 256 = a" using assms(1) by simp
  moreover have "(a * 4 * 64 + b) div 64 = a * 4 + b div 64" by (rule div_mult_self3) simp
  moreover have "(a * 16 * 16 + b) div 16 = a * 16 + b div 16" by (rule div_mult_self3) simp
  moreover have "(a * 128 * 2 + b) div 2 = a * 128 + b div 2" by (rule div_mult_self3) simp
  ultimately show "n div 16777216 = a" "n div 4194304 = a * 4 + b div 64"
    "n div 1048576 = a * 16 + b div 16" "n div 131072 = a * 128 + b div 2"
    by (simp_all only: mult.assoc) simp_all
qed
lemma v4_div:
  assumes "b \<le> 255" "c \<le> 255" "d \<le> (255 :: nat)"
  shows "v4_address (a, b, c, d) div 16777216 = a" "v4_address (a, b, c, d) div 4194304 = a * 4 + b div 64"
    "v4_address (a, b, c, d) div 65536 = a * 256 + b" "v4_address (a, b, c, d) div 1048576 = a * 16 + b div 16"
    "v4_address (a, b, c, d) div 131072 = a * 128 + b div 2"
  using address_div [OF assms, of a] by (simp_all add: v4_address_def)

lemma reserved_blocks:
  "list_ex (in_block n) reserved_v4 \<longleftrightarrow> n div 16777216 = 0 \<or> n div 16777216 = 10 \<or> n div 16777216 = 127
     \<or> n div 4194304 = 401 \<or> n div 65536 = 43518 \<or> n div 1048576 = 2753 \<or> n div 65536 = 49320
     \<or> n div 131072 = 25353"
  by (simp add: in_block_def reserved_v4_def v4_address_def)

lemma radix_eq:
  assumes "q < k" "r < (k :: nat)"
  shows "a * k + q = m * k + r \<longleftrightarrow> a = m \<and> q = r"
proof
  assume e: "a * k + q = m * k + r"
  have "(a * k + q) div k = a" "(m * k + r) div k = m" using assms by auto
  then show "a = m \<and> q = r" using e by simp
qed simp

lemma private_ipv4_blocks:
  assumes "v4_segments s = Some (a, b, c, d)"
  shows "is_private_ipv4 s \<longleftrightarrow> list_ex (in_block (v4_address (a, b, c, d))) reserved_v4"
proof -
  note p = v4_segments_parts [OF assms]
  have priv: "is_private_ipv4 s \<longleftrightarrow> a = 0 \<or> a = 10 \<or> a = 127 \<or> (a = 100 \<and> 64 \<le> b \<and> b \<le> 127)
      \<or> (a = 169 \<and> b = 254) \<or> (a = 172 \<and> 16 \<le> b \<and> b \<le> 31) \<or> (a = 192 \<and> b = 168)
      \<or> (a = 198 \<and> (b = 18 \<or> b = 19))"
    by (simp add: is_private_ipv4_def p(1))
  have e1: "a * 4 + b div 64 = 401 \<longleftrightarrow> a = 100 \<and> b div 64 = 1"
    using radix_eq [of "b div 64" 4 1 a 100] p(3) by simp
  have e2: "a * 256 + b = 43518 \<longleftrightarrow> a = 169 \<and> b = 254" using radix_eq [of b 256 254 a 169] p(3) by simp
  have e3: "a * 16 + b div 16 = 2753 \<longleftrightarrow> a = 172 \<and> b div 16 = 1"
    using radix_eq [of "b div 16" 16 1 a 172] p(3) by simp
  have e4: "a * 256 + b = 49320 \<longleftrightarrow> a = 192 \<and> b = 168" using radix_eq [of b 256 168 a 192] p(3) by simp
  have e5: "a * 128 + b div 2 = 25353 \<longleftrightarrow> a = 198 \<and> b div 2 = 9"
    using radix_eq [of "b div 2" 128 9 a 198] p(3) by simp
  have d: "b div 64 = 1 \<longleftrightarrow> 64 \<le> b \<and> b \<le> 127" "b div 16 = 1 \<longleftrightarrow> 16 \<le> b \<and> b \<le> 31"
    "b div 2 = 9 \<longleftrightarrow> b = 18 \<or> b = 19" by auto
  show ?thesis unfolding priv reserved_blocks v4_div [OF p(3,4,5)] e1 e2 e3 e4 e5 d by (rule refl)
qed

section \<open>Private IPv6 prefixes\<close>

lemma hex_not_white: "hex_value c = Some h \<Longrightarrow> \<not> js_white c"
  by (auto simp: hex_value_def js_white_def Let_def split: if_splits)

lemma trim_keeps_prefix:
  assumes "list_all (\<lambda>c. \<not> js_white c) p" "p \<noteq> []"
  shows "\<exists>t. js_trim (p @ s) = p @ t"
proof -
  obtain x q where p: "p = x # q" using assms(2) by (cases p) auto
  then have left: "dropWhile js_white (p @ s) = p @ s" using assms(1) by simp
  have "dropWhile js_white (rev s @ rev p) = dropWhile js_white (rev s) @ rev p
      \<or> dropWhile js_white (rev s @ rev p) = rev p"
  proof (cases "\<exists>c \<in> set (rev s). \<not> js_white c")
    case True
    then show ?thesis by (auto simp: dropWhile_append1)
  next
    case False
    have "dropWhile js_white (rev p) = rev p"
    proof (cases "rev p")
      case (Cons y ys)
      then have "y \<in> set p" by (metis list.set_intros(1) set_rev)
      then show ?thesis using Cons assms(1) by (auto simp: list_all_iff)
    qed simp
    moreover have "dropWhile js_white (rev s @ rev p) = dropWhile js_white (rev p)"
      using False by (intro dropWhile_append2) auto
    ultimately show ?thesis by simp
  qed
  then show ?thesis by (auto simp: js_trim_def left)
qed

lemma hex_lower:
  assumes "hex_value c = Some h" "10 \<le> h"
  shows "js_char_lower c = char_of (h + 87)"
proof -
  define n where "n = (of_char c :: nat)"
  have c: "c = char_of n" by (simp add: n_def)
  have "(97 \<le> n \<and> n \<le> 102 \<and> h = n - 87) \<or> (65 \<le> n \<and> n \<le> 70 \<and> h = n - 55)"
    using assms by (auto simp: hex_value_def Let_def n_def [symmetric] split: if_splits)
  then show ?thesis
    by (auto simp: js_char_lower_def Let_def n_def [symmetric]) (auto simp: c)
qed

lemma hex_lower_digit:
  assumes "hex_value c = Some h" "h < 10"
  shows "js_char_lower c = char_of (h + 48)"
proof -
  define n where "n = (of_char c :: nat)"
  have c: "c = char_of n" by (simp add: n_def)
  have "48 \<le> n \<and> n \<le> 57 \<and> h = n - 48"
    using assms by (auto simp: hex_value_def Let_def n_def [symmetric] split: if_splits)
  then show ?thesis by (simp add: js_char_lower_def Let_def n_def [symmetric]) (simp add: c)
qed

lemma hex_letters:
  "char_of (56 :: nat) = CHR ''8''" "char_of (57 :: nat) = CHR ''9''" "char_of (97 :: nat) = CHR ''a''"
  "char_of (98 :: nat) = CHR ''b''" "char_of (99 :: nat) = CHR ''c''" "char_of (100 :: nat) = CHR ''d''"
  "char_of (101 :: nat) = CHR ''e''" "char_of (102 :: nat) = CHR ''f''"
  by code_simp+

text \<open>Every address whose first group lies in \<open>fc00::/7\<close> or \<open>fe80::/10\<close> is private.\<close>

lemma private_ipv6_groups:
  assumes "address = [c1, c2, c3, c4] @ s"
    and "map hex_value [c1, c2, c3, c4] = [Some h1, Some h2, Some h3, Some h4]"
    and "((h1 * 16 + h2) * 16 + h3) * 16 + h4 \<in> {0xfc00..0xfdff} \<union> {0xfe80..0xfebf}"
    and "h2 < 16" "h3 < 16" "h4 < 16" "h1 < 16"
  shows "is_private_ipv6 address"
proof -
  let ?v = "((h1 * 16 + h2) * 16 + h3) * 16 + h4"
  have h: "hex_value c1 = Some h1" "hex_value c2 = Some h2" "hex_value c3 = Some h3" "hex_value c4 = Some h4"
    using assms(2) by simp_all
  have "list_all (\<lambda>c. \<not> js_white c) [c1, c2, c3, c4]" using h hex_not_white by auto
  then obtain t where trim: "js_trim address = [c1, c2, c3, c4] @ t"
    using trim_keeps_prefix [of "[c1, c2, c3, c4]" s] assms(1) by auto
  have h1: "h1 = 15" using assms(3-7) by auto
  have low: "h3 * 16 + h4 < 256" using assms(5,6) by simp
  have v: "?v = 61440 + h2 * 256 + (h3 * 16 + h4)" using h1 by simp
  have h2: "h2 = 12 \<or> h2 = 13 \<or> h2 = 14" using assms(3) v low by auto
  have h3: "8 \<le> h3 \<and> h3 \<le> 11" if "h2 = 14" using assms(3) v assms(6) that by auto
  consider "h2 = 12 \<or> h2 = 13" | "h2 = 14" "8 \<le> h3" "h3 \<le> 11" using h2 h3 by blast
  then show ?thesis
  proof cases
    case 1
    then have "js_char_lower c1 = CHR ''f''" "js_char_lower c2 = CHR ''c'' \<or> js_char_lower c2 = CHR ''d''"
      using hex_lower [OF h(1)] hex_lower [OF h(2)] h1 by (auto simp: hex_letters)
    then show ?thesis by (auto simp: is_private_ipv6_def to_lower_case_def trim)
  next
    case 2
    then have "h3 = 8 \<or> h3 = 9 \<or> h3 = 10 \<or> h3 = 11" by auto
    then have "js_char_lower c3 \<in> {CHR ''8'', CHR ''9'', CHR ''a'', CHR ''b''}"
      using hex_lower [OF h(3)] hex_lower_digit [OF h(3)] by (auto simp: hex_letters)
    moreover have "js_char_lower c1 = CHR ''f''" "js_char_lower c2 = CHR ''e''"
      using hex_lower [OF h(1)] hex_lower [OF h(2)] h1 2(1) by (auto simp: hex_letters)
    ultimately show ?thesis by (auto simp: is_private_ipv6_def to_lower_case_def trim)
  qed
qed

lemma hex_value_less: "hex_value c = Some h \<Longrightarrow> h < 16"
  by (auto simp: hex_value_def Let_def split: if_splits)

section \<open>Which addresses are reached\<close>

text \<open>Outside the reserved IPv4 blocks; and no first group in the local IPv6 ranges.\<close>

definition public_v4 :: "string \<Rightarrow> bool" where
  "public_v4 a = (case v4_segments a of None \<Rightarrow> False
     | Some q \<Rightarrow> \<not> list_ex (in_block (v4_address q)) reserved_v4)"

definition first_group :: "string \<Rightarrow> nat option" where
  "first_group a = (case a of
     c1 # c2 # c3 # c4 # t \<Rightarrow> (case (hex_value c1, hex_value c2, hex_value c3, hex_value c4) of
       (Some h1, Some h2, Some h3, Some h4) \<Rightarrow> Some (((h1 * 16 + h2) * 16 + h3) * 16 + h4)
     | _ \<Rightarrow> None)
   | _ \<Rightarrow> None)"

definition public_v6 :: "string \<Rightarrow> bool" where
  "public_v6 a \<longleftrightarrow> is_ipv6 a \<and> a \<noteq> ''::'' \<and> a \<noteq> ''::1''
     \<and> (case first_group a of None \<Rightarrow> True
        | Some v \<Rightarrow> \<not> (0xfc00 \<le> v \<and> v \<le> 0xfdff) \<and> \<not> (0xfe80 \<le> v \<and> v \<le> 0xfebf))"

lemma public_v6_iff:
  assumes "is_ipv6 a" "\<not> is_private_ipv6 a"
  shows "public_v6 a"
proof -
  have "a \<noteq> ''::''" "a \<noteq> ''::1''"
    using assms(2) by (auto simp: is_private_ipv6_def js_trim_def js_white_def to_lower_case_def js_char_lower_def)
  moreover have "v \<notin> {0xfc00..0xfdff} \<union> {0xfe80..0xfebf}" if fg: "first_group a = Some v" for v
  proof -
    from fg obtain c1 c2 c3 c4 t h1 h2 h3 h4 where p: "a = [c1, c2, c3, c4] @ t"
      "hex_value c1 = Some h1" "hex_value c2 = Some h2" "hex_value c3 = Some h3" "hex_value c4 = Some h4"
      "v = ((h1 * 16 + h2) * 16 + h3) * 16 + h4"
      by (auto simp: first_group_def split: list.splits option.splits)
    show ?thesis
      using private_ipv6_groups [OF p(1), of h1 h2 h3 h4] assms(2) p(2-6) hex_value_less by auto
  qed
  ultimately show ?thesis using assms(1) by (auto simp: public_v6_def split: option.splits)
qed

lemma public_address:
  assumes "\<not> is_private_address a"
  shows "public_v4 a \<or> public_v6 a"
proof (cases "v4_segments a")
  case None
  then show ?thesis
    using assms public_v6_iff by (auto simp: is_private_address_def is_ip_def split: if_splits)
next
  case (Some q)
  then obtain b c d e where "q = (b, c, d, e)" by (cases q) auto
  then have "public_v4 a"
    using assms Some private_ipv4_blocks [of a b c d e]
    by (simp add: public_v4_def is_private_address_def is_ip_def)
  then show ?thesis ..
qed


definition sample_url :: "string \<Rightarrow> url" where
  "sample_url host = \<lparr>url_protocol = ''https:'', url_username = [], url_password = [], url_hostname = host,
     url_pathname = ''/v1'', url_search = [], url_rest = []\<rparr>"

definition sample_url_options :: safe_url_options where
  "sample_url_options = \<lparr>so_allow_private = False, so_message = ''UPSTREAM_URL_NOT_ALLOWED'', so_status = 502\<rparr>"


text \<open>
  An IPv4 address mapped into IPv6 passes as IPv6 and is none of the private prefixes: a name whose
  AAAA record is \<open>::ffff:127.0.0.1\<close> is accepted and reaches the loopback interface.
\<close>

lemma mapped_loopback_accepted:
  "assert_safe_external_http_url (\<lambda>s. Some (sample_url ''evil.example.org'')) (\<lambda>h. Some [''::ffff:127.0.0.1''])
     ''https://evil.example.org/v1'' sample_url_options = Inr (sample_url ''evil.example.org'')"
  by code_simp

end
