(* ===== verification/OpenApiServer.thy ===== *)
theory OpenApiServer
  imports ExternalUrl
begin

text \<open>
  The part of \<open>src/modules/gateway/gateway.service.ts\<close> that reads the server address from a stored
  OpenAPI document: as JSON (the parser is a parameter), else as YAML by regular expressions. The
  expressions are matched by a backtracking matcher with the priorities of JavaScript.
\<close>

section \<open>Regular expressions\<close>

text \<open>A position is the text before it (reversed), the text after it, and the captured group.\<close>

type_synonym re_pos = "string \<times> string \<times> string option"

datatype re =
    Cls "char \<Rightarrow> bool"
  | Seq re re
  | Alt re re
  | Rep bool re
  | Cap re
  | Bol
  | Eol
  | Eps

text \<open>
  A repetition, greedy or lazy: a further iteration must consume, so as many iterations as there are
  characters left suffice. The results come in the order in which the alternatives are tried.
\<close>

primrec re_repeat :: "bool \<Rightarrow> (re_pos \<Rightarrow> re_pos list) \<Rightarrow> nat \<Rightarrow> re_pos \<Rightarrow> re_pos list" where
  "re_repeat greedy f 0 p = [p]"
| "re_repeat greedy f (Suc n) p =
     (let more = concat (map (re_repeat greedy f n)
                   (filter (\<lambda>q. length (fst (snd q)) < length (fst (snd p))) (f p)))
      in if greedy then more @ [p] else p # more)"

definition line_end :: "char \<Rightarrow> bool" where
  "line_end c \<longleftrightarrow> of_char c \<in> {10, 13 :: nat}"

primrec re_match :: "bool \<Rightarrow> re \<Rightarrow> re_pos \<Rightarrow> re_pos list" where
  "re_match multi (Cls f) p =
     (case p of (before, x # after, cap) \<Rightarrow> if f x then [(x # before, after, cap)] else [] | _ \<Rightarrow> [])"
| "re_match multi (Seq a b) p = concat (map (re_match multi b) (re_match multi a p))"
| "re_match multi (Alt a b) p = re_match multi a p @ re_match multi b p"
| "re_match multi (Rep greedy a) p = re_repeat greedy (re_match multi a) (length (fst (snd p))) p"
| "re_match multi (Cap a) p =
     map (\<lambda>(before, after, cap). (before, after,
            Some (take (length (fst (snd p)) - length after) (fst (snd p))))) (re_match multi a p)"
| "re_match multi Bol p =
     (case fst p of [] \<Rightarrow> [p] | x # _ \<Rightarrow> if multi \<and> line_end x then [p] else [])"
| "re_match multi Eol p =
     (case fst (snd p) of [] \<Rightarrow> [p] | x # _ \<Rightarrow> if multi \<and> line_end x then [p] else [])"
| "re_match multi Eps p = [p]"

text \<open>\<open>s.match(r)?.[1]\<close>: the group of the first match, from the leftmost position that has one.\<close>

fun re_search :: "bool \<Rightarrow> re \<Rightarrow> string \<Rightarrow> string \<Rightarrow> string option" where
  "re_search multi r before after =
     (case re_match multi r (before, after, None) of
        (b, a, cap) # _ \<Rightarrow> cap
      | [] \<Rightarrow> (case after of [] \<Rightarrow> None | x # s \<Rightarrow> re_search multi r (x # before) s))"

declare re_search.simps [simp del]

definition js_match :: "bool \<Rightarrow> re \<Rightarrow> string \<Rightarrow> string option" where
  "js_match multi r s = re_search multi r [] s"

fun re_text :: "string \<Rightarrow> re" where
  "re_text [] = Eps"
| "re_text (c # s) = Seq (Cls (\<lambda>x. x = c)) (re_text s)"

definition re_opt :: "re \<Rightarrow> re" where
  "re_opt a = Alt a Eps"

definition re_spaces :: re where
  "re_spaces = Rep True (Cls js_white)"

definition is_newline :: "char \<Rightarrow> bool" where
  "is_newline c \<longleftrightarrow> of_char c = (10 :: nat)"

definition is_quote :: "char \<Rightarrow> bool" where
  "is_quote c \<longleftrightarrow> of_char c \<in> {34, 39 :: nat}"

text \<open>An optionally quoted value to the end of the line or the quote, captured.\<close>

definition re_value :: re where
  "re_value = Seq (re_opt (Cls is_quote))
     (Seq (Cap (Seq (Cls (\<lambda>c. \<not> is_newline c \<and> \<not> is_quote c)) (Rep True (Cls (\<lambda>c. \<not> is_newline c \<and> \<not> is_quote c)))))
       (re_opt (Cls is_quote)))"

definition servers_re :: re where
  "servers_re = Seq (Alt Bol (Cls is_newline)) (Seq (re_text ''servers:'') (Seq re_spaces
     (Seq (Cap (Rep False (Cls (\<lambda>c. True))))
       (Alt (Seq (Cls is_newline) (Seq (Cls (\<lambda>c. \<not> js_white c \<and> c \<noteq> CHR ''-''))
               (Seq (Rep True (Cls (\<lambda>c. c \<noteq> CHR '':'' \<and> \<not> is_newline c))) (re_text '':''))))
            (Seq re_spaces Eol)))))"

definition server_url_re :: re where
  "server_url_re = Seq (re_text ''-'') (Seq re_spaces (Seq (re_text ''url:'') (Seq re_spaces re_value)))"

definition key_re :: "string \<Rightarrow> re" where
  "key_re key = Seq Bol (Seq re_spaces (Seq (re_text key) (Seq re_spaces re_value)))"

definition scheme_re :: re where
  "scheme_re = Seq Bol (Seq re_spaces (Seq (re_text ''-'') (Seq re_spaces (Seq (re_opt (Cls is_quote))
     (Seq (Cap (Alt (Seq (re_text ''http'') (re_opt (re_text ''s''))) (Seq (re_text ''ws'') (re_opt (re_text ''s'')))))
       (Seq (re_opt (Cls is_quote)) (Seq re_spaces Eol)))))))"

section \<open>The server of a document\<close>

datatype json =
    JNull
  | JBool bool
  | JNum string
  | JStr string
  | JArr "json list"
  | JObj "(string \<times> json) list"

definition json_field :: "json \<Rightarrow> string \<Rightarrow> json option" where
  "json_field j k = (case j of JObj members \<Rightarrow> map_of members k | _ \<Rightarrow> None)"

definition json_trimmed :: "json option \<Rightarrow> string" where
  "json_trimmed j = (case j of Some (JStr s) \<Rightarrow> js_trim s | _ \<Rightarrow> [])"

text \<open>The \<open>url\<close> of the first element of \<open>servers\<close> that is an object with one.\<close>

definition first_server_url :: "json \<Rightarrow> string" where
  "first_server_url doc =
     (case json_field doc ''servers'' of
        Some (JArr items) \<Rightarrow>
          (case List.find (\<lambda>i. json_field i ''url'' \<noteq> None) items of
             Some i \<Rightarrow> json_trimmed (json_field i ''url'')
           | None \<Rightarrow> [])
      | _ \<Rightarrow> [])"

definition first_scheme :: "json \<Rightarrow> string" where
  "first_scheme doc =
     (case json_field doc ''schemes'' of
        Some (JArr items) \<Rightarrow>
          (case List.find (\<lambda>i. case i of JStr s \<Rightarrow> True | _ \<Rightarrow> False) items of
             Some (JStr s) \<Rightarrow> s | _ \<Rightarrow> ''https'')
      | _ \<Rightarrow> ''https'')"

definition extract_server_url_from_json :: "(string \<Rightarrow> json option) \<Rightarrow> string \<Rightarrow> string option" where
  "extract_server_url_from_json parse_json snapshot =
     (case parse_json snapshot of
        None \<Rightarrow> None
      | Some doc \<Rightarrow>
          if first_server_url doc \<noteq> [] then Some (first_server_url doc)
          else let host = json_trimmed (json_field doc ''host'') in
            if host = [] then None
            else Some (first_scheme doc @ ''://'' @ host @ json_trimmed (json_field doc ''basePath'')))"

definition extract_server_url_from_yaml :: "string \<Rightarrow> string option" where
  "extract_server_url_from_yaml snapshot =
     (let server_url = (case js_match False servers_re snapshot of
            None \<Rightarrow> None | Some block \<Rightarrow> js_match False server_url_re block)
      in if js_truthy_str server_url then Some (js_trim (the server_url))
         else
           let host = map_option js_trim (js_match True (key_re ''host:'') snapshot) in
           if \<not> js_truthy_str host then None
           else
             let base = (case js_match True (key_re ''basePath:'') snapshot of None \<Rightarrow> [] | Some b \<Rightarrow> js_trim b);
                 scheme = (case js_match True scheme_re snapshot of None \<Rightarrow> ''https'' | Some x \<Rightarrow> x)
             in Some (scheme @ ''://'' @ the host @ base))"

definition extract_server_url :: "(string \<Rightarrow> json option) \<Rightarrow> string option \<Rightarrow> string option" where
  "extract_server_url parse_json snapshot =
     (if \<not> js_truthy_str snapshot then None
      else let from_json = extract_server_url_from_json parse_json (the snapshot) in
        if js_truthy_str from_json then from_json
        else extract_server_url_from_yaml (the snapshot))"

section \<open>The matcher on small documents\<close>

text \<open>Newline, double quote.\<close>

definition sample_yaml :: string where
  "sample_yaml = ''openapi: 3.0.0'' @ [char_of (10 :: nat)] @ ''servers:'' @ [char_of (10 :: nat)]
     @ ''  - url: https://a.org/v1 '' @ [char_of (10 :: nat)] @ ''paths:'' @ [char_of (10 :: nat)]"

lemma sample_yaml_server: "extract_server_url (\<lambda>s. None) (Some sample_yaml) = Some ''https://a.org/v1''"
  by code_simp

definition sample_swagger_yaml :: string where
  "sample_swagger_yaml = ''host: a.org'' @ [char_of (10 :: nat)] @ ''basePath: /v2'' @ [char_of (10 :: nat)]
     @ ''schemes:'' @ [char_of (10 :: nat)] @ ''  - http'' @ [char_of (10 :: nat)]"

lemma sample_swagger_server: "extract_server_url (\<lambda>s. None) (Some sample_swagger_yaml) = Some ''http://a.org/v2''"
  by code_simp

end
