(* ===== verification/Crypto.thy ===== *)
theory Crypto
  imports JsString
begin

text \<open>
  Encodings: base 64, the API keys of \<open>src/common/utils/crypto.ts\<close> (\<open>toBase64Url\<close>,
  \<open>generateRawApiKey\<close>) over random bytes, and the length of a text in UTF-8.
\<close>

text \<open>\<open>Buffer.byteLength\<close> of a string of characters below 256, in UTF-8.\<close>

definition utf8_length :: "string \<Rightarrow> int" where
  "utf8_length s = sum_list (map (\<lambda>c. if of_char c < (128 :: nat) then 1 else 2) s)"

text \<open>Base 64 of a byte string.\<close>

definition base64_alphabet :: string where
  "base64_alphabet = ''ABCDEFGHIJKLMNOPQRSTUVWXYZabcdefghijklmnopqrstuvwxyz0123456789+/''"

definition base64_digit :: "nat \<Rightarrow> char" where
  "base64_digit n = base64_alphabet ! (n mod 64)"

fun base64 :: "string \<Rightarrow> string" where
  "base64 [] = []"
| "base64 [a] = (let n = of_char a :: nat in [base64_digit (n div 4), base64_digit (n * 16), CHR ''='', CHR ''=''])"
| "base64 [a, b] = (let n = (of_char a * 256 + of_char b) :: nat in
     [base64_digit (n div 1024), base64_digit (n div 16), base64_digit (n * 4), CHR ''=''])"
| "base64 (a # b # c # s) = (let n = ((of_char a * 256 + of_char b) * 256 + of_char c) :: nat in
     [base64_digit (n div 262144), base64_digit (n div 4096), base64_digit (n div 64), base64_digit n] @ base64 s)"

text \<open>\<open>toBase64Url\<close>: the two characters that are not safe in URLs replaced, the padding removed.\<close>

definition url_char :: "char \<Rightarrow> char" where
  "url_char c = (if c = CHR ''+'' then CHR ''-'' else if c = CHR ''/'' then CHR ''_'' else c)"

definition strip_padding :: "string \<Rightarrow> string" where
  "strip_padding s = rev (dropWhile (\<lambda>c. c = CHR ''='') (rev s))"

definition to_base64_url :: "string \<Rightarrow> string" where
  "to_base64_url bytes = strip_padding (map url_char (base64 bytes))"

definition generate_raw_api_key :: "string \<Rightarrow> string" where
  "generate_raw_api_key random_bytes = ''hp_'' @ to_base64_url random_bytes"

section \<open>Decoding\<close>

definition base64_url_digit :: "nat \<Rightarrow> char" where
  "base64_url_digit n = url_char (base64_digit n)"

definition base64_value :: "char \<Rightarrow> nat" where
  "base64_value c = length (takeWhile (\<lambda>d. d \<noteq> c) (map url_char base64_alphabet))"

fun decode_digits :: "nat list \<Rightarrow> string" where
  "decode_digits (a # b # c # d # s) =
     (let n = ((a * 64 + b) * 64 + c) * 64 + d in
      [char_of (n div 65536), char_of (n div 256 mod 256), char_of (n mod 256)] @ decode_digits s)"
| "decode_digits [a, b, c] =
     (let n = (a * 64 + b) * 64 + c in [char_of (n div 1024), char_of (n div 4 mod 256)])"
| "decode_digits [a, b] = [char_of ((a * 64 + b) div 16)]"
| "decode_digits s = []"

definition from_base64_url :: "string \<Rightarrow> string" where
  "from_base64_url s = decode_digits (map base64_value s)"

lemma base64_alphabet_facts: "distinct (map url_char base64_alphabet)" "length base64_alphabet = 64"
  "CHR ''='' \<notin> set (map url_char base64_alphabet)"
  by code_simp+

lemma base64_url_digit_nth: "base64_url_digit n = map url_char base64_alphabet ! (n mod 64)"
  by (simp add: base64_url_digit_def base64_digit_def base64_alphabet_facts(2))

lemma base64_value_digit [simp]: "base64_value (base64_url_digit n) = n mod 64"
proof -
  let ?xs = "map url_char base64_alphabet"
  have len: "n mod 64 < length ?xs" by (simp add: base64_alphabet_facts(2))
  have "takeWhile (\<lambda>d. d \<noteq> ?xs ! (n mod 64)) ?xs = take (n mod 64) ?xs"
    by (rule takeWhile_eq_take_P_nth)
      (use len base64_alphabet_facts(1) nth_eq_iff_index_eq in fastforce)+
  then show ?thesis using len unfolding base64_value_def base64_url_digit_nth by simp
qed

lemma base64_digit_no_padding [simp]: "base64_url_digit n \<noteq> CHR ''=''"
  using base64_alphabet_facts nth_mem [of "n mod 64" "map url_char base64_alphabet"]
  unfolding base64_url_digit_nth by (metis length_map mod_less_divisor zero_less_numeral)

lemma strip_padding_digit [simp]:
  "strip_padding (base64_url_digit n # s) = base64_url_digit n # strip_padding s"
  by (simp add: strip_padding_def dropWhile_append) 

lemma strip_padding_pads [simp]:
  "strip_padding [] = []" "strip_padding ''='' = []" "strip_padding ''=='' = []"
  by (simp_all add: strip_padding_def)

lemma url_char_digit [simp]: "url_char (base64_digit n) = base64_url_digit n" "url_char CHR ''='' = CHR ''=''"
  by (simp_all add: base64_url_digit_def) (simp add: url_char_def)

lemma to_base64_url_simps:
  "to_base64_url [] = []"
  "to_base64_url [a] = map base64_url_digit [of_char a div 4, of_char a * 16]"
  "to_base64_url [a, b] = (let n = (of_char a * 256 + of_char b) :: nat in
     map base64_url_digit [n div 1024, n div 16, n * 4])"
  "to_base64_url (a # b # c # s) = (let n = ((of_char a * 256 + of_char b) * 256 + of_char c) :: nat in
     map base64_url_digit [n div 262144, n div 4096, n div 64, n] @ to_base64_url s)"
  by (simp_all add: to_base64_url_def Let_def)

text \<open>The digits of one, two and three bytes in base 64 give the number of the bytes back.\<close>

lemma radix_step: "(n :: nat) div (64 * k) * 64 + n div k mod 64 = n div k"
  by (metis div_mod_decomp div_mult2_eq mult.commute)

lemma radix_three:
  fixes n :: nat
  assumes "n < 16777216"
  shows "((n div 262144 mod 64 * 64 + n div 4096 mod 64) * 64 + n div 64 mod 64) * 64 + n mod 64 = n"
proof -
  have "n div 262144 mod 64 = n div 262144" using assms by (simp add: less_mult_imp_div_less)
  then show ?thesis using radix_step [of n 4096] radix_step [of n 64] radix_step [of n 1] by simp
qed

lemma bytes_of_three:
  fixes a b c :: nat
  assumes "a < 256" "b < 256" "c < 256"
  defines "n \<equiv> (a * 256 + b) * 256 + c"
  shows "n < 16777216" "n div 65536 = a" "n div 256 mod 256 = b" "n mod 256 = c"
proof -
  have *: "n div 256 = a * 256 + b" using assms by simp
  show "n < 16777216" using assms by simp
  show "n div 65536 = a" using * assms(2) div_mult2_eq [of n 256 256] by simp
  show "n div 256 mod 256 = b" using * assms(2) by simp
  show "n mod 256 = c" unfolding n_def by (simp only: mod_mult_self3 mod_less assms(3))
qed

lemma of_char_byte: "(of_char c :: nat) < 256"
  by (metis mod_less_divisor of_char_mod_256 zero_less_numeral)

lemma char_of_byte: "char_of (of_char c :: nat) = c"
  by simp

lemma decode_one:
  assumes "(a :: nat) < 256"
  shows "(a div 4 mod 64 * 64 + a * 16 mod 64) div 16 = a"
proof -
  have "a div 4 mod 64 = a div 4" using assms by (simp add: less_mult_imp_div_less)
  moreover have "a * 16 mod 64 = a mod 4 * 16" using mult_mod_left [of a 4 16] by simp
  moreover have "a div 4 * 64 + a mod 4 * 16 = a * 16" by presburger
  ultimately show ?thesis by simp
qed

lemma decode_two:
  assumes "(a :: nat) < 256" "b < 256"
  defines "n \<equiv> a * 256 + b"
  defines "m \<equiv> (n div 1024 mod 64 * 64 + n div 16 mod 64) * 64 + n * 4 mod 64"
  shows "m div 1024 = a" "m div 4 mod 256 = b"
proof -
  have n: "n < 65536" "n div 256 = a" "n mod 256 = b" using assms by simp_all
  have "n * 4 mod 64 = n mod 16 * 4" using mult_mod_left [of n 16 4] by simp
  moreover have "n div 1024 mod 64 = n div 1024" using n(1) by (simp add: less_mult_imp_div_less)
  moreover have "n div 1024 * 64 + n div 16 mod 64 = n div 16" using radix_step [of n 16] by simp
  moreover have "n div 16 * 64 + n mod 16 * 4 = n * 4" by presburger
  ultimately have m: "m = n * 4" unfolding m_def by simp
  show "m div 1024 = a" using n(2) div_mult2_eq [of "n * 4" 4 256] by (simp add: m)
  show "m div 4 mod 256 = b" using n(3) by (simp add: m)
qed

lemma decode_four:
  assumes "n < 16777216"
  shows "decode_digits (n div 262144 mod 64 # n div 4096 mod 64 # n div 64 mod 64 # n mod 64 # s)
    = char_of (n div 65536) # char_of (n div 256 mod 256) # char_of (n mod 256) # decode_digits s"
  unfolding decode_digits.simps(1) radix_three [OF assms] Let_def by simp

lemma base64_url_roundtrip: "from_base64_url (to_base64_url bytes) = bytes"
proof (induction bytes rule: base64.induct)
  case 1
  then show ?case by (simp add: to_base64_url_simps from_base64_url_def)
next
  case (2 a)
  show ?case using decode_one [OF of_char_byte [of a]]
    by (simp add: to_base64_url_simps from_base64_url_def del: mod_less)
next
  case (3 a b)
  let ?n = "of_char a * 256 + of_char b :: nat"
  let ?m = "(?n div 1024 mod 64 * 64 + ?n div 16 mod 64) * 64 + ?n * 4 mod 64"
  have "from_base64_url (to_base64_url [a, b]) = [char_of (?m div 1024), char_of (?m div 4 mod 256)]"
    by (simp add: to_base64_url_simps from_base64_url_def Let_def)
  then show ?case
    unfolding decode_two [OF of_char_byte [of a] of_char_byte [of b]] char_of_byte .
next
  case (4 a b c s)
  let ?n = "(of_char a * 256 + of_char b) * 256 + of_char c :: nat"
  note bytes = bytes_of_three [OF of_char_byte [of a] of_char_byte [of b] of_char_byte [of c]]
  show ?case
    unfolding from_base64_url_def to_base64_url_simps Let_def list.map map_append base64_value_digit
      append_Cons append_Nil decode_four [OF bytes(1)] bytes char_of_byte
    using 4 unfolding from_base64_url_def by simp
qed


end
