(* ===== verification/Gateway.thy ===== *)
theory Gateway
  imports OpenApiServer Usage BurstLimiter Crypto
begin

text \<open>
  \<open>src/modules/gateway/gateway.service.ts\<close>: a call of a buyer is admitted (key, product, version,
  quota, burst limit, consumption), then forwarded to the seller's server. What the platform does
  (URLs, DNS, JSON, UTF-8, SHA-256, \<open>fetch\<close>) is the parameter record \<open>platform\<close>; header names of
  \<open>Headers\<close> objects are in lower case.
\<close>

section \<open>Requests and responses\<close>

datatype gateway_body = NoBody | TextBody string | BytesBody string | JsonBody json

record gateway_input =
  gi_product :: string
  gi_path :: string
  gi_method :: string
  gi_headers :: "(string \<times> string) list"
  gi_query :: "(string \<times> string) list"
  gi_body :: gateway_body
  gi_count :: int

datatype body_init = TextInit string | BytesInit string

record upstream_request =
  rq_url :: string
  rq_method :: string
  rq_headers :: "(string \<times> string) list"
  rq_body :: "body_init option"

text \<open>A body is a stream of chunks: a read may throw or give no value.\<close>

type_synonym chunks = "(exn + string option) list"

record upstream_response =
  rs_ok :: bool
  rs_status :: int
  rs_headers :: "(string \<times> string) list"
  rs_body :: "chunks option"
  rs_buffer :: string

record platform =
  pf_new_url :: "string \<Rightarrow> url option"
  pf_resolve_url :: "string \<Rightarrow> string \<Rightarrow> url option"
  pf_url_text :: "url \<Rightarrow> string"
  pf_set_pathname :: "string \<Rightarrow> url \<Rightarrow> url"
  pf_set_search :: "string \<Rightarrow> url \<Rightarrow> url"
  pf_parse_query :: "string \<Rightarrow> (string \<times> string) list"
  pf_query_text :: "(string \<times> string) list \<Rightarrow> string"
  pf_dns :: "string \<Rightarrow> string list option"
  pf_parse_json :: "string \<Rightarrow> json option"
  pf_stringify :: "json \<Rightarrow> string"
  pf_utf8 :: "string \<Rightarrow> string"
  pf_header_ok :: "string \<Rightarrow> string \<Rightarrow> bool"
  pf_fetch :: "upstream_request \<Rightarrow> upstream_response option"
  pf_sha256 :: "string \<Rightarrow> string"

record gateway_env =
  ge_usage :: usage_config
  ge_cfg :: gateway_config
  ge_allow_private :: bool
  ge_now :: date
  ge_aggregated :: date
  ge_burst_now :: date
  ge_faults :: "nat \<Rightarrow> exn option"

section \<open>Constants\<close>

definition blocked_request_headers :: "string list" where
  "blocked_request_headers =
     [''connection'', ''content-length'', ''host'', ''transfer-encoding'', ''x-api-key'', ''expect'']"

definition blocked_response_headers :: "string list" where
  "blocked_response_headers = [''connection'', ''content-length'', ''set-cookie'', ''transfer-encoding'']"

definition text_content_type_markers :: "string list" where
  "text_content_type_markers = [''text/'', ''/xml'', ''+xml'', ''application/javascript'',
     ''application/ecmascript'', ''application/x-www-form-urlencoded'']"

definition streaming_content_type_markers :: "string list" where
  "streaming_content_type_markers = [''text/event-stream'', ''application/x-ndjson'']"

section \<open>The address of the request\<close>

definition normalize_path :: "string \<Rightarrow> string" where
  "normalize_path path =
     (let trimmed = js_trim path in if starts_with ''/'' trimmed then trimmed else ''/'' @ trimmed)"

definition target_not_configured :: exn where
  "target_not_configured = AppError GATEWAY_TARGET_NOT_CONFIGURED ''GATEWAY_TARGET_NOT_CONFIGURED'' 502 []"

definition upstream_url_options :: "gateway_env \<Rightarrow> safe_url_options" where
  "upstream_url_options env = \<lparr>so_allow_private = ge_allow_private env,
     so_message = ''UPSTREAM_URL_NOT_ALLOWED'', so_status = 502\<rparr>"

definition assert_safe_upstream :: "platform \<Rightarrow> gateway_env \<Rightarrow> string \<Rightarrow> exn + url" where
  "assert_safe_upstream pf env s =
     assert_safe_external_http_url (pf_new_url pf) (pf_dns pf) s (upstream_url_options env)"

definition resolve_upstream_base_url ::
  "platform \<Rightarrow> gateway_env \<Rightarrow> string option \<Rightarrow> string \<Rightarrow> exn + string" where
  "resolve_upstream_base_url pf env snapshot openapi_url =
     (let server_url = extract_server_url (pf_parse_json pf) snapshot in
      if \<not> js_truthy_str server_url then Inl target_not_configured
      else case pf_resolve_url pf (the server_url) openapi_url of
             None \<Rightarrow> Inl target_not_configured
           | Some u \<Rightarrow> (case assert_safe_upstream pf env (pf_url_text pf u) of
               Inl e \<Rightarrow> Inl e | Inr _ \<Rightarrow> Inr (pf_url_text pf u)))"

text \<open>\<open>replace(/\/{2,}/g, '/')\<close>.\<close>

fun collapse_slashes :: "string \<Rightarrow> string" where
  "collapse_slashes (x # y # s) =
     (if x = CHR ''/'' \<and> y = CHR ''/'' then collapse_slashes (y # s) else x # collapse_slashes (y # s))"
| "collapse_slashes s = s"

text \<open>\<open>URLSearchParams.set\<close>: the first pair with the name gets the value, the others are removed.\<close>

definition params_set :: "string \<Rightarrow> string \<Rightarrow> (string \<times> string) list \<Rightarrow> (string \<times> string) list" where
  "params_set k v ps =
     (if list_ex (\<lambda>(k', _). k' = k) ps
      then takeWhile (\<lambda>(k', _). k' \<noteq> k) ps @ [(k, v)]
           @ filter (\<lambda>(k', _). k' \<noteq> k) (dropWhile (\<lambda>(k', _). k' \<noteq> k) ps)
      else ps @ [(k, v)])"

definition strip_last_slash :: "string \<Rightarrow> string" where
  "strip_last_slash s = (if ends_with ''/'' s then butlast s else s)"

definition build_upstream_url ::
  "platform \<Rightarrow> gateway_env \<Rightarrow> string \<Rightarrow> string \<Rightarrow> (string \<times> string) list \<Rightarrow> exn + string" where
  "build_upstream_url pf env base path query =
     (case pf_new_url pf base of
        None \<Rightarrow> Inl (OtherError ''Invalid URL'')
      | Some u \<Rightarrow>
          let parts = take 2 (js_split (CHR ''?'') path);
              path_only = hd parts;
              inline_query = (if length parts = 2 then parts ! 1 else []);
              base_path = strip_last_slash (url_pathname u);
              normalized = (if starts_with ''/'' path_only then path_only else ''/'' @ path_only);
              u1 = pf_set_pathname pf (collapse_slashes (base_path @ normalized)) u;
              params = foldl (\<lambda>ps (k, v). params_set k v ps) (pf_parse_query pf inline_query) query;
              upstream = pf_url_text pf (pf_set_search pf (pf_query_text pf params) u1)
          in (case assert_safe_upstream pf env upstream of Inl e \<Rightarrow> Inl e | Inr _ \<Rightarrow> Inr upstream))"

section \<open>The request sent\<close>

definition header_get :: "string \<Rightarrow> (string \<times> string) list \<Rightarrow> string option" where
  "header_get k hs = map_of hs (to_lower_case k)"

definition header_set :: "string \<Rightarrow> string \<Rightarrow> (string \<times> string) list \<Rightarrow> (string \<times> string) list" where
  "header_set k v hs =
     (let name = to_lower_case k in
      if map_of hs name \<noteq> None then map (\<lambda>(n, w). (n, if n = name then v else w)) hs
      else hs @ [(name, v)])"

definition copy_header ::
  "platform \<Rightarrow> exn + (string \<times> string) list \<Rightarrow> string \<times> string \<Rightarrow> exn + (string \<times> string) list" where
  "copy_header pf acc kv = (case acc of Inl e \<Rightarrow> Inl e
     | Inr hs \<Rightarrow>
         if snd kv = [] then Inr hs
         else if to_lower_case (fst kv) \<in> set blocked_request_headers then Inr hs
         else if \<not> pf_header_ok pf (fst kv) (snd kv) then Inl (OtherError ''Invalid header'')
         else Inr (header_set (fst kv) (snd kv) hs))"

definition build_request_headers ::
  "platform \<Rightarrow> (string \<times> string) list \<Rightarrow> exn + (string \<times> string) list" where
  "build_request_headers pf headers =
     (case foldl (copy_header pf) (Inr []) headers of
        Inl e \<Rightarrow> Inl e
      | Inr hs \<Rightarrow>
          Inr (if header_get ''accept'' hs = None
               then header_set ''accept'' ''application/json, text/plain;q=0.9, */*;q=0.1'' hs else hs))"

text \<open>The body, and the headers with the content type it may set.\<close>

definition build_request_body ::
  "platform \<Rightarrow> string \<Rightarrow> gateway_body \<Rightarrow> (string \<times> string) list \<Rightarrow> body_init option \<times> (string \<times> string) list" where
  "build_request_body pf meth body hs =
     (if body = NoBody \<or> meth = ''GET'' then (None, hs)
      else case body of
             TextBody s \<Rightarrow> (Some (TextInit s), hs)
           | BytesBody b \<Rightarrow> (Some (BytesInit b), hs)
           | JsonBody j \<Rightarrow> (Some (TextInit (pf_stringify pf j)),
               if header_get ''content-type'' hs = None
               then header_set ''content-type'' ''application/json'' hs else hs)
           | NoBody \<Rightarrow> (None, hs))"

definition get_body_size_bytes :: "body_init option \<Rightarrow> int" where
  "get_body_size_bytes body = (case body of None \<Rightarrow> 0 | Some (TextInit s) \<Rightarrow> utf8_length s
     | Some (BytesInit b) \<Rightarrow> int (length b))"

definition body_too_large :: "error_code \<Rightarrow> string \<Rightarrow> int \<Rightarrow> int \<Rightarrow> int \<Rightarrow> exn" where
  "body_too_large c m status bytes limit =
     AppError c m status [(''actualBytes'', DNum bytes), (''limitBytes'', DNum limit)]"

definition assert_request_body_size :: "gateway_env \<Rightarrow> body_init option \<Rightarrow> exn + unit" where
  "assert_request_body_size env body =
     (if get_body_size_bytes body \<le> request_limit (ge_cfg env) then Inr ()
      else Inl (body_too_large GATEWAY_REQUEST_BODY_TOO_LARGE ''GATEWAY_REQUEST_BODY_TOO_LARGE'' 413
                  (get_body_size_bytes body) (request_limit (ge_cfg env))))"

definition fetch_upstream ::
  "platform \<Rightarrow> gateway_env \<Rightarrow> string \<Rightarrow> gateway_input \<Rightarrow> exn + upstream_response" where
  "fetch_upstream pf env upstream inp =
     (case build_request_headers pf (gi_headers inp) of
        Inl e \<Rightarrow> Inl e
      | Inr hs0 \<Rightarrow>
          let (body, hs) = build_request_body pf (gi_method inp) (gi_body inp) hs0 in
          (case assert_request_body_size env body of
             Inl e \<Rightarrow> Inl e
           | Inr _ \<Rightarrow>
               (case pf_fetch pf \<lparr>rq_url = upstream, rq_method = gi_method inp, rq_headers = hs, rq_body = body\<rparr> of
                  None \<Rightarrow> Inl (AppError GATEWAY_UPSTREAM_UNAVAILABLE ''GATEWAY_UPSTREAM_UNAVAILABLE'' 502
                                 [(''upstreamUrl'', DStr upstream)])
                | Some r \<Rightarrow> Inr r)))"

section \<open>The response read\<close>

definition assert_response_body_size :: "gateway_env \<Rightarrow> int \<Rightarrow> exn + unit" where
  "assert_response_body_size env bytes =
     (if bytes \<le> response_limit (ge_cfg env) then Inr ()
      else Inl (body_too_large GATEWAY_RESPONSE_BODY_TOO_LARGE ''GATEWAY_RESPONSE_BODY_TOO_LARGE'' 502
                  bytes (response_limit (ge_cfg env))))"

text \<open>The loop over the reader: the bytes read so far are \<open>acc\<close>.\<close>

fun read_chunks :: "gateway_env \<Rightarrow> chunks \<Rightarrow> string \<Rightarrow> exn + string" where
  "read_chunks env [] acc = Inr acc"
| "read_chunks env (Inl e # cs) acc = Inl e"
| "read_chunks env (Inr None # cs) acc = read_chunks env cs acc"
| "read_chunks env (Inr (Some b) # cs) acc =
     (case assert_response_body_size env (int (length acc + length b)) of
        Inl e \<Rightarrow> Inl e | Inr _ \<Rightarrow> read_chunks env cs (acc @ b))"

definition read_response_body :: "gateway_env \<Rightarrow> upstream_response \<Rightarrow> exn + string option" where
  "read_response_body env r =
     (case rs_body r of
        None \<Rightarrow> (case assert_response_body_size env (int (length (rs_buffer r))) of
                  Inl e \<Rightarrow> Inl e
                | Inr _ \<Rightarrow> Inr (if rs_buffer r = [] then None else Some (rs_buffer r)))
      | Some cs \<Rightarrow> (case read_chunks env cs [] of
                  Inl e \<Rightarrow> Inl e | Inr b \<Rightarrow> Inr (if b = [] then None else Some b)))"

definition is_json_content_type :: "string \<Rightarrow> bool" where
  "is_json_content_type ct \<longleftrightarrow> js_includes ''/json'' (to_lower_case ct) \<or> js_includes ''+json'' (to_lower_case ct)"

definition is_text_content_type :: "string \<Rightarrow> bool" where
  "is_text_content_type ct \<longleftrightarrow>
     ct = [] \<or> list_ex (\<lambda>m. js_includes m (to_lower_case ct)) text_content_type_markers"

text \<open>The parsed body; its constructor is the \<open>bodyEncoding\<close> (\<open>null\<close>, json, text, base64).\<close>

datatype parsed_body = NoParsed | ParsedJson json | ParsedText string | ParsedBase64 string

definition parse_response_body ::
  "platform \<Rightarrow> gateway_env \<Rightarrow> upstream_response \<Rightarrow> exn + (parsed_body \<times> string option)" where
  "parse_response_body pf env r =
     (case read_response_body env r of
        Inl e \<Rightarrow> Inl e
      | Inr None \<Rightarrow> Inr (NoParsed, None)
      | Inr (Some raw) \<Rightarrow>
          let ct = (case header_get ''content-type'' (rs_headers r) of None \<Rightarrow> [] | Some c \<Rightarrow> c);
              text = pf_utf8 pf raw
          in Inr (if is_json_content_type ct
                  then (case pf_parse_json pf text of Some j \<Rightarrow> ParsedJson j | None \<Rightarrow> ParsedText text)
                  else if is_text_content_type ct then ParsedText text
                  else ParsedBase64 (base64 raw), Some raw))"

definition should_stream_proxy_response :: "upstream_response \<Rightarrow> bool" where
  "should_stream_proxy_response r \<longleftrightarrow> rs_body r \<noteq> None \<and>
     (let ct = to_lower_case (js_trim (case header_get ''content-type'' (rs_headers r) of None \<Rightarrow> [] | Some c \<Rightarrow> c))
      in list_ex (\<lambda>m. js_includes m ct) streaming_content_type_markers)"

definition serialize_headers :: "(string \<times> string) list \<Rightarrow> (string \<times> string) list" where
  "serialize_headers hs = filter (\<lambda>(k, v). to_lower_case k \<notin> set blocked_response_headers) hs"

section \<open>Executing a call\<close>

record gateway_usage =
  gu_sub :: string
  gu_count :: int
  gu_remaining :: "int option"
  gu_rpm :: "int option"
  gu_rate_remaining :: "int option"
  gu_burst_limit :: "int option"
  gu_burst_remaining :: "int option"
  gu_burst_window :: "int option"
  gu_recorded :: bool
  gu_period_end :: "date option"

record gateway_result =
  gr_ok :: bool
  gr_status :: int
  gr_method :: string
  gr_url :: string
  gr_content_type :: "string option"
  gr_headers :: "(string \<times> string) list"
  gr_body :: parsed_body
  gr_raw :: "string option"
  gr_stream :: "chunks option"
  gr_usage :: gateway_usage

definition gateway_error :: "error_code \<Rightarrow> string \<Rightarrow> int \<Rightarrow> exn" where
  "gateway_error c m status = AppError c m status []"

definition map_authorization_failure :: "denial option \<Rightarrow> exn" where
  "map_authorization_failure reason = (case reason of
     Some Denied_key \<Rightarrow> gateway_error INVALID_API_KEY ''INVALID_API_KEY'' 401
   | Some Denied_subscription \<Rightarrow> gateway_error NO_ACTIVE_SUBSCRIPTION ''NO_ACTIVE_SUBSCRIPTION'' 403
   | Some Denied_quota \<Rightarrow> gateway_error QUOTA_EXCEEDED ''QUOTA_EXCEEDED'' 429
   | Some Denied_rate \<Rightarrow> gateway_error RATE_LIMIT_EXCEEDED ''RATE_LIMIT_EXCEEDED'' 429
   | None \<Rightarrow> gateway_error FORBIDDEN ''GATEWAY_ACCESS_DENIED'' 403)"

definition opt_detail :: "int option \<Rightarrow> detail" where
  "opt_detail v = (case v of None \<Rightarrow> DNull | Some n \<Rightarrow> DNum n)"

definition map_burst_limit_failure :: "burst_decision \<Rightarrow> exn" where
  "map_burst_limit_failure b = AppError RATE_LIMIT_EXCEEDED ''RATE_LIMIT_EXCEEDED'' 429
     [(''policy'', DStr ''gateway-burst''), (''burstLimit'', opt_detail (bd_limit b)),
      (''remainingBurstRequests'', opt_detail (bd_remaining b)),
      (''burstWindowSeconds'', opt_detail (bd_window b)),
      (''retryAfterSeconds'', opt_detail (bd_retry_after b))]"

definition require_api_key :: "string option \<Rightarrow> exn + string" where
  "require_api_key provided = (case map_option js_trim provided of
     None \<Rightarrow> Inl (gateway_error UNAUTHORIZED ''API_KEY_REQUIRED'' 401)
   | Some k \<Rightarrow> if k = [] then Inl (gateway_error UNAUTHORIZED ''API_KEY_REQUIRED'' 401) else Inr k)"

text \<open>The newest published version of a published product.\<close>

definition gateway_version :: "db \<Rightarrow> string \<Rightarrow> exn + version_row" where
  "gateway_version d pid =
     (case find_unique (\<lambda>r. prod_id r = pid) (products d) of
        None \<Rightarrow> Inl (gateway_error PRODUCT_NOT_FOUND ''PRODUCT_NOT_FOUND'' 404)
      | Some r \<Rightarrow>
          if prod_status r \<noteq> PPublished then Inl (gateway_error PRODUCT_NOT_PUBLIC ''PRODUCT_NOT_PUBLIC'' 403)
          else (case find_first (\<lambda>v. - ver_created v)
                       (\<lambda>v. ver_product v = pid \<and> ver_status v = VPublished) (versions d) of
                  None \<Rightarrow> Inl (gateway_error VERSION_NOT_FOUND ''VERSION_NOT_FOUND'' 404)
                | Some v \<Rightarrow> Inr v))"

text \<open>\<open>occurredAt\<close> is the ISO text of the clock, parsed again by the usage service.\<close>

definition gateway_authorize_input :: "gateway_env \<Rightarrow> gateway_input \<Rightarrow> string \<Rightarrow> string \<Rightarrow> bool \<Rightarrow> authorize_input" where
  "gateway_authorize_input env inp key endpoint consume =
     \<lparr>ai_key = key, ai_product = gi_product inp, ai_endpoint = endpoint, ai_count = gi_count inp,
      ai_at = parse_iso (to_iso_string (ge_now env)), ai_consume = Some consume\<rparr>"

text \<open>An authorization that is not allowed, or has no subscription, throws; else the subscription's id.\<close>

definition gateway_authorize ::
  "platform \<Rightarrow> gateway_env \<Rightarrow> authorize_input \<Rightarrow> (db, auth_response \<times> string) prog" where
  "gateway_authorize pf env i =
     bnd (authorize_gateway_usage (pf_sha256 pf) (ge_usage env) (ge_now env) (ge_aggregated env) i) (\<lambda>a.
       if \<not> ar_allowed a then raise (map_authorization_failure (ar_reason a))
       else if \<not> js_truthy_str (ar_sub a)
       then raise (gateway_error SUBSCRIPTION_NOT_ACTIVE ''SUBSCRIPTION_NOT_ACTIVE'' 403)
       else ret (a, the (ar_sub a)))"

text \<open>Admission: everything before the request to the seller.\<close>

definition gateway_admit ::
  "platform \<Rightarrow> gateway_env \<Rightarrow> gateway_input \<Rightarrow> string option \<Rightarrow>
   (db, version_row \<times> auth_response \<times> string \<times> burst_decision) prog" where
  "gateway_admit pf env inp provided =
     bnd (from_result (require_api_key provided)) (\<lambda>key.
     bnd (\<lambda>d. (gateway_version d (gi_product inp), d)) (\<lambda>v.
     let path = normalize_path (gi_path inp) in
     bnd (gateway_authorize pf env (gateway_authorize_input env inp key path False)) (\<lambda>(a0, sid0).
     bnd (check_and_consume (ge_cfg env) sid0 (gi_count inp) (ar_rpm a0) (ge_burst_now env) (ge_faults env)) (\<lambda>b.
     if \<not> bd_allowed b then raise (map_burst_limit_failure b)
     else
       bnd (gateway_authorize pf env (gateway_authorize_input env inp key path True)) (\<lambda>(a, sid).
       ret (v, a, sid, b))))))"

definition usage_meta :: "gateway_input \<Rightarrow> auth_response \<Rightarrow> string \<Rightarrow> burst_decision \<Rightarrow> gateway_usage" where
  "usage_meta inp a sid b = \<lparr>gu_sub = sid, gu_count = gi_count inp, gu_remaining = ar_remaining a,
     gu_rpm = ar_rpm a, gu_rate_remaining = ar_rate_remaining a, gu_burst_limit = bd_limit b,
     gu_burst_remaining = bd_remaining b, gu_burst_window = bd_window b, gu_recorded = ar_recorded a,
     gu_period_end = map_option snd (ar_window a)\<rparr>"

definition forwarded_result ::
  "bool \<Rightarrow> gateway_input \<Rightarrow> string \<Rightarrow> upstream_response \<Rightarrow> parsed_body \<times> string option \<Rightarrow> chunks option \<Rightarrow>
   gateway_usage \<Rightarrow> gateway_result" where
  "forwarded_result proxy inp upstream r parsed stream meta = \<lparr>gr_ok = rs_ok r, gr_status = rs_status r,
     gr_method = gi_method inp, gr_url = upstream,
     gr_content_type = header_get ''content-type'' (rs_headers r),
     gr_headers = serialize_headers (rs_headers r), gr_body = fst parsed,
     gr_raw = (if proxy then snd parsed else None), gr_stream = stream, gr_usage = meta\<rparr>"

text \<open>Forwarding: no statement of it writes to the database.\<close>

definition gateway_forward ::
  "platform \<Rightarrow> gateway_env \<Rightarrow> bool \<Rightarrow> gateway_input \<Rightarrow> version_row \<Rightarrow> gateway_usage \<Rightarrow> exn + gateway_result" where
  "gateway_forward pf env proxy inp v meta =
     (case resolve_upstream_base_url pf env (ver_openapi_snapshot v) (ver_openapi_url v) of
        Inl e \<Rightarrow> Inl e
      | Inr base \<Rightarrow>
     (case build_upstream_url pf env base (normalize_path (gi_path inp)) (gi_query inp) of
        Inl e \<Rightarrow> Inl e
      | Inr upstream \<Rightarrow>
     (case fetch_upstream pf env upstream inp of
        Inl e \<Rightarrow> Inl e
      | Inr r \<Rightarrow>
          if proxy \<and> should_stream_proxy_response r
          then Inr (forwarded_result proxy inp upstream r (NoParsed, None) (rs_body r) meta)
          else (case parse_response_body pf env r of
                  Inl e \<Rightarrow> Inl e
                | Inr parsed \<Rightarrow> Inr (forwarded_result proxy inp upstream r parsed None meta)))))"

definition gateway_execute ::
  "platform \<Rightarrow> gateway_env \<Rightarrow> bool \<Rightarrow> gateway_input \<Rightarrow> string option \<Rightarrow> (db, gateway_result) prog" where
  "gateway_execute pf env proxy inp provided =
     bnd (gateway_admit pf env inp provided) (\<lambda>(v, a, sid, b).
       from_result (gateway_forward pf env proxy inp v (usage_meta inp a sid b)))"

text \<open>\<open>dispatch\<close> answers the same without the raw body and the stream.\<close>

definition gateway_dispatch ::
  "platform \<Rightarrow> gateway_env \<Rightarrow> gateway_input \<Rightarrow> string option \<Rightarrow> (db, gateway_result) prog" where
  "gateway_dispatch pf env inp provided =
     bnd (gateway_execute pf env False inp provided) (\<lambda>r. ret (r\<lparr>gr_raw := None, gr_stream := None\<rparr>))"

definition gateway_proxy ::
  "platform \<Rightarrow> gateway_env \<Rightarrow> gateway_input \<Rightarrow> string option \<Rightarrow> (db, gateway_result) prog" where
  "gateway_proxy pf env inp provided = gateway_execute pf env True inp provided"

section \<open>What is sent\<close>

text \<open>
  A request the gateway may send: its URL passed the check of external addresses, it carries no
  header that must not be passed on (the API key among them), a GET has no body and no body is
  larger than the limit.
\<close>

definition safe_request :: "platform \<Rightarrow> gateway_env \<Rightarrow> upstream_request \<Rightarrow> bool" where
  "safe_request pf env rq \<longleftrightarrow>
     (\<exists>u. assert_safe_upstream pf env (rq_url rq) = Inr u)
     \<and> fst ` set (rq_headers rq) \<inter> set blocked_request_headers = {}
     \<and> (rq_method rq = ''GET'' \<longrightarrow> rq_body rq = None)
     \<and> get_body_size_bytes (rq_body rq) \<le> request_limit (ge_cfg env)"

definition clean_headers :: "(string \<times> string) list \<Rightarrow> bool" where
  "clean_headers hs \<longleftrightarrow> fst ` set hs \<inter> set blocked_request_headers = {}"

lemma clean_header_set:
  assumes "clean_headers hs" "to_lower_case k \<notin> set blocked_request_headers"
  shows "clean_headers (header_set k v hs)"
proof -
  have "fst ` set (header_set k v hs) \<subseteq> insert (to_lower_case k) (fst ` set hs)"
  proof (cases "map_of hs (to_lower_case k) = None")
    case True
    then show ?thesis by (auto simp: header_set_def)
  next
    case False
    have "fst ` (\<lambda>(n, w). (n, if n = to_lower_case k then v else w)) ` set hs = fst ` set hs"
      unfolding image_image by (rule image_cong) auto
    then have "fst ` set (header_set k v hs) = fst ` set hs"
      using False by (simp add: header_set_def Let_def)
    then show ?thesis by (simp add: subset_insertI)
  qed
  then have "fst ` set (header_set k v hs) \<inter> set blocked_request_headers
      \<subseteq> insert (to_lower_case k) (fst ` set hs) \<inter> set blocked_request_headers" by (rule Int_mono) simp
  also have "\<dots> = {}" using assms by (simp add: clean_headers_def)
  finally show ?thesis by (simp add: clean_headers_def)
qed

lemma copy_headers_clean:
  assumes "foldl (copy_header pf) (Inr hs) headers = Inr hs'" "clean_headers hs"
  shows "clean_headers hs'"
  using assms
proof (induction headers arbitrary: hs)
  case Nil
  then show ?case by simp
next
  case (Cons kv headers)
  have stuck: "foldl (copy_header pf) (Inl e) headers = Inl e" for e
    by (induction headers) (simp_all add: copy_header_def)
  show ?case
  proof (cases "copy_header pf (Inr hs) kv")
    case (Inl e)
    then show ?thesis using Cons.prems(1) stuck by simp
  next
    case (Inr hs1)
    have "clean_headers hs1"
      using Inr Cons.prems(2) clean_header_set by (auto simp: copy_header_def split: if_splits)
    then show ?thesis using Cons.IH Cons.prems(1) Inr by simp
  qed
qed

lemma added_names:
  "to_lower_case ''accept'' \<notin> set blocked_request_headers"
  "to_lower_case ''content-type'' \<notin> set blocked_request_headers"
  by code_simp+

lemma request_headers_clean:
  assumes "build_request_headers pf headers = Inr hs"
  shows "clean_headers hs"
proof -
  obtain hs0 where f: "foldl (copy_header pf) (Inr []) headers = Inr hs0"
    using assms by (auto simp: build_request_headers_def split: sum.splits)
  have "clean_headers hs0" by (rule copy_headers_clean [OF f]) (simp add: clean_headers_def)
  then show ?thesis
    using assms f clean_header_set [OF _ added_names(1)]
    by (auto simp: build_request_headers_def split: if_splits)
qed

lemma request_body_clean:
  assumes "build_request_body pf meth body hs = (b, hs')" "clean_headers hs"
  shows "clean_headers hs'" "meth = ''GET'' \<Longrightarrow> b = None"
  using assms clean_header_set [OF _ added_names(2)]
  by (auto simp: build_request_body_def split: if_splits gateway_body.splits)

lemma fetch_upstream_cong:
  assumes "\<And>rq. safe_request pf env rq \<Longrightarrow> pf_fetch pf rq = g rq"
    and "assert_safe_upstream pf env upstream = Inr u"
  shows "fetch_upstream pf env upstream inp = fetch_upstream (pf\<lparr>pf_fetch := g\<rparr>) env upstream inp"
proof -
  have h: "pf_header_ok (pf\<lparr>pf_fetch := g\<rparr>) = pf_header_ok pf"
    "pf_stringify (pf\<lparr>pf_fetch := g\<rparr>) = pf_stringify pf" by simp_all
  have same: "build_request_headers (pf\<lparr>pf_fetch := g\<rparr>) = build_request_headers pf"
    "build_request_body (pf\<lparr>pf_fetch := g\<rparr>) = build_request_body pf"
    unfolding fun_eq_iff build_request_headers_def copy_header_def [abs_def] build_request_body_def h
    by (intro allI refl)+
  show ?thesis
  proof (cases "build_request_headers pf (gi_headers inp)")
    case (Inl e)
    then show ?thesis by (simp add: fetch_upstream_def same)
  next
    case (Inr hs0)
    obtain b hs where bd: "build_request_body pf (gi_method inp) (gi_body inp) hs0 = (b, hs)"
      by (cases "build_request_body pf (gi_method inp) (gi_body inp) hs0")
    note names = request_body_clean [OF bd request_headers_clean [OF Inr]]
    show ?thesis
    proof (cases "get_body_size_bytes b \<le> request_limit (ge_cfg env)")
      case True
      let ?rq = "\<lparr>rq_url = upstream, rq_method = gi_method inp, rq_headers = hs, rq_body = b\<rparr>"
      have "safe_request pf env ?rq" using assms(2) names True by (simp add: safe_request_def clean_headers_def)
      then have "pf_fetch pf ?rq = g ?rq" by (rule assms(1))
      then show ?thesis using True by (simp add: fetch_upstream_def same Inr bd assert_request_body_size_def)
    next
      case False
      then show ?thesis by (simp add: fetch_upstream_def same Inr bd assert_request_body_size_def)
    qed
  qed
qed

lemma build_upstream_checked:
  assumes "build_upstream_url pf env base path query = Inr upstream"
  shows "\<exists>u. assert_safe_upstream pf env upstream = Inr u"
  using assms by (auto simp: build_upstream_url_def Let_def split: option.splits sum.splits)

lemma forward_cong:
  assumes "\<And>rq. safe_request pf env rq \<Longrightarrow> pf_fetch pf rq = g rq"
  shows "gateway_forward pf env proxy inp v meta = gateway_forward (pf\<lparr>pf_fetch := g\<rparr>) env proxy inp v meta"
proof -
  let ?pg = "pf\<lparr>pf_fetch := g\<rparr>"
  have h: "pf_new_url ?pg = pf_new_url pf" "pf_resolve_url ?pg = pf_resolve_url pf" "pf_url_text ?pg = pf_url_text pf"
    "pf_set_pathname ?pg = pf_set_pathname pf" "pf_set_search ?pg = pf_set_search pf" "pf_dns ?pg = pf_dns pf"
    "pf_parse_query ?pg = pf_parse_query pf" "pf_query_text ?pg = pf_query_text pf"
    "pf_parse_json ?pg = pf_parse_json pf" "pf_utf8 ?pg = pf_utf8 pf" by simp_all
  have same: "resolve_upstream_base_url ?pg = resolve_upstream_base_url pf"
    "build_upstream_url ?pg = build_upstream_url pf" "parse_response_body ?pg = parse_response_body pf"
    unfolding fun_eq_iff resolve_upstream_base_url_def build_upstream_url_def parse_response_body_def
      assert_safe_upstream_def h by (intro allI refl)+
  have fetch: "fetch_upstream pf env upstream inp = fetch_upstream ?pg env upstream inp"
    if "build_upstream_url pf env base path query = Inr upstream" for base path query upstream
    using build_upstream_checked [OF that] fetch_upstream_cong [OF assms] by blast
  show ?thesis
    unfolding gateway_forward_def same
    by (auto split: sum.split dest!: fetch)
qed


section \<open>What is charged\<close>

definition only_buckets :: "db \<Rightarrow> db \<Rightarrow> bool" where
  "only_buckets d d' \<longleftrightarrow> (\<exists>bs. d' = d\<lparr>buckets := bs\<rparr>)"

lemma only_buckets_refl [simp]: "only_buckets d d"
  unfolding only_buckets_def by (rule exI [of _ "buckets d"]) simp

lemma only_buckets_rtranclp: "only_buckets\<^sup>*\<^sup>* d d' \<Longrightarrow> only_buckets d d'"
  by (induction rule: rtranclp_induct) (auto simp: only_buckets_def)

lemma only_buckets_update [simp]: "only_buckets d (d\<lparr>buckets := bs\<rparr>)"
  unfolding only_buckets_def by blast

lemma bucket_writes_steps [steps_intros]:
  "by_steps only_buckets (writes (create_bucket b))"
  "by_steps only_buckets (writes (update_bucket key tokens now))"
  by (rule by_steps_step, auto simp: writes_def create_bucket_def update_bucket_def split: sum.splits)+

lemma lock_bucket_steps [steps_intros]: "by_steps only_buckets (lock_bucket_row n key limit now)"
  by (induction n) (auto intro!: steps_intros)

lemma consume_loop_steps [steps_intros]: "by_steps only_buckets (consume_loop n cfg key m limit now faults)"
proof (induction n)
  case (Suc n)
  then show ?case
    by (auto simp: consume_body_def Let_def may_fail_def intro!: steps_intros)
qed (simp add: steps_intros)

lemma check_and_consume_buckets:
  assumes "check_and_consume cfg key n rpm now faults d = (r, d')"
  shows "only_buckets d d'"
proof -
  have "by_steps only_buckets (check_and_consume cfg key n rpm now faults)"
    by (cases "resolve_burst_limit cfg rpm") (simp_all add: check_and_consume_def steps_intros)
  from by_stepsD [where m = "check_and_consume cfg key n rpm now faults", OF this assms]
  show ?thesis by (rule only_buckets_rtranclp)
qed

lemma preview_writes_nothing:
  assumes "authorize_usage_internal sha cfg now ag i d = (res, d')" "ai_consume i = Some False"
  shows "d' = d"
  using assms(1)
proof (cases rule: internal_early)
  case (found r0 k t s p r w)
  obtain denied left where "usage_decision s p w t (sum_usage_for_window (sub_id s) (fst w) (snd w) d) (ai_count i) d
      = (denied, left)" by (rule prod.exhaust)
  then show ?thesis using internal_eq [OF found refl] assms by simp
qed auto

lemma consuming_cases:
  assumes "authorize_usage_internal sha cfg now ag i d = (res, d')" "ai_consume i = Some True" "ai_at i = Some t"
  obtains (unchanged) "d' = d" "\<And>a. res = Inr a \<Longrightarrow> \<not> ar_allowed a"
  | (charged) a s p r w k where "res = Inr a" "ar_allowed a" "ar_sub a = Some (sub_id s)" "ar_recorded a"
      "find_active_key (hash_incoming_api_key sha cfg (ai_key i)) d = Some k"
      "find_entitled (key_user k) (ai_product i) t d = Some (s, p, r)" "get_usage_window s t = Some w"
      "fst (usage_decision s p w t (sum_usage_for_window (sub_id s) (fst w) (snd w) d) (ai_count i) d) = None"
      "record_usage_in_transaction ag (consumption_input s t (ai_endpoint i) (ai_count i)) d = (Inr (), d')"
  using assms(1)
proof (cases rule: internal_early)
  case no_product
  show thesis by (rule unchanged) (simp_all add: no_product(2,3))
next
  case (refused q key pr)
  show thesis by (rule unchanged) (auto simp add: refused(1,2))
next
  case (found r0 k t0 s p r w)
  have t0: "t0 = t" using found(3) assms(3) by simp
  obtain denied left where dec: "usage_decision s p w t0 (sum_usage_for_window (sub_id s) (fst w) (snd w) d) (ai_count i) d
      = (denied, left)" by (rule prod.exhaust)
  have run: "authorize_usage_with_consumption ag (key_id k) (key_user k) (ai_product i) (ai_endpoint i) (ai_count i) t d
      = (res, d')"
    using internal_eq [OF found refl dec] assms t0 by simp
  then show thesis
  proof (cases rule: consumption_cases)
    case (error e)
    show thesis by (rule unchanged) (simp_all add: error(1,2))
  next
    case (denied a)
    show thesis by (rule unchanged) (use denied in auto)
  next
    case (allowed a s' p' r' w' left')
    then show thesis using charged [of a s' k p' r' w'] found(2) by simp
  qed
qed

lemma gateway_authorize_cases:
  assumes "gateway_authorize pf env i d = (res, d')"
  obtains a r where "authorize_usage_internal (pf_sha256 pf) (ge_usage env) (ge_now env) (ge_aggregated env) i d = (r, d')"
    "\<And>x. res = Inr x \<Longrightarrow> r = Inr (fst x) \<and> ar_allowed (fst x) \<and> ar_sub (fst x) = Some (snd x)"
    "\<And>e b. res = Inl e \<Longrightarrow> r = Inr b \<Longrightarrow> \<not> ar_allowed b \<or> ar_sub b = None \<or> ar_sub b = Some []"
proof -
  obtain r d1 where run: "authorize_usage_internal (pf_sha256 pf) (ge_usage env) (ge_now env) (ge_aggregated env) i d = (r, d1)"
    by (rule prod.exhaust)
  note u = assms [unfolded gateway_authorize_def authorize_gateway_usage_def bnd_def run]
  show thesis
  proof (cases r)
    case (Inl e)
    then show thesis using u run by (intro that [of r]) simp_all
  next
    case (Inr b)
    show thesis
    proof (cases "ar_allowed b \<and> js_truthy_str (ar_sub b)")
      case True
      then show thesis using u run Inr by (intro that [of r]) (auto simp: ret_def js_truthy_str_def)
    next
      case False
      then show thesis using u run Inr
        by (intro that [of r]) (auto simp: raise_def js_truthy_str_def split: if_splits)
    qed
  qed
qed

lemma frame_buckets [simp]:
  "usage_consistent (d\<lparr>buckets := bs\<rparr>) = usage_consistent d"
  "sum_usage_for_window sid a b (d\<lparr>buckets := bs\<rparr>) = sum_usage_for_window sid a b d"
  "plan_of (d\<lparr>buckets := bs\<rparr>) s = plan_of d s"
  "find_active_key h (d\<lparr>buckets := bs\<rparr>) = find_active_key h d"
  by (simp_all add: usage_consistent_def sum_usage_for_window_def sum_raw_usage_def
      sum_daily_aggregate_usage_def plan_of_def find_active_key_def)

text \<open>Admission writes nothing but the bucket of the subscription, or charges exactly the call.\<close>

lemma admit_cases:
  assumes "gateway_admit pf env inp provided d = (res, d')" "usage_consistent d"
    and "parse_iso (to_iso_string (ge_now env)) = Some (ge_now env)"
    and "list_all (\<lambda>s. sub_id s \<noteq> []) (subs d)"
  obtains (refused) e where "res = Inl e" "only_buckets d d'"
  | (charged) v a sid b s p w k key where "res = Inr (v, a, sid, b)"
      "require_api_key provided = Inr key"
      "find_active_key (hash_incoming_api_key (pf_sha256 pf) (ge_usage env) key) d = Some k"
      "s \<in> set (subs d)" "plan_of d s = Some p" "sub_user s = key_user k" "plan_product p = gi_product inp"
      "entitled_at (ge_now env) s" "get_usage_window s (ge_now env) = Some w" "sid = sub_id s" "ar_recorded a"
      "usage_consistent d'"
      "usages d' = usages d @ [usage_row_of (ge_aggregated env)
         (consumption_input s (ge_now env) (normalize_path (gi_path inp)) (gi_count inp))]"
      "sum_usage_for_window (sub_id s) (fst w) (snd w) d'
         = sum_usage_for_window (sub_id s) (fst w) (snd w) d + gi_count inp"
      "\<not> plan_allow_overage p \<Longrightarrow> sum_usage_for_window (sub_id s) (fst w) (snd w) d' \<le> plan_quota p"
proof -
  let ?path = "normalize_path (gi_path inp)"
  note run = assms(1) [unfolded gateway_admit_def Let_def]
  show thesis
  proof (cases "require_api_key provided")
    case (Inl e)
    then show thesis using run refused by (auto simp: bnd_def from_result_def)
  next
    case key: (Inr key)
    show thesis
    proof (cases "gateway_version d (gi_product inp)")
      case (Inl e)
      then show thesis using run key refused by (auto simp: bnd_def from_result_def)
    next
      case v: (Inr v)
      let ?i = "gateway_authorize_input env inp key ?path"
      obtain r0 d0 where a0: "gateway_authorize pf env (?i False) d = (r0, d0)" by (rule prod.exhaust)
      have d0: "d0 = d"
        by (rule gateway_authorize_cases [OF a0]) (use preview_writes_nothing in \<open>simp add: gateway_authorize_input_def\<close>)
      show thesis
      proof (cases r0)
        case (Inl e)
        then show thesis using run key v a0 d0 refused by (auto simp: bnd_def from_result_def)
      next
        case (Inr x0)
        obtain a0' sid0 where x0: "x0 = (a0', sid0)" by (cases x0)
        obtain rb d1 where cc: "check_and_consume (ge_cfg env) sid0 (gi_count inp) (ar_rpm a0') (ge_burst_now env)
            (ge_faults env) d = (rb, d1)" by (rule prod.exhaust)
        obtain bs where d1: "d1 = d\<lparr>buckets := bs\<rparr>"
          using check_and_consume_buckets [OF cc] by (auto simp: only_buckets_def)
        show thesis
        proof (cases "\<exists>b. rb = Inr b \<and> bd_allowed b")
          case False
          then show thesis using run key v a0 d0 Inr x0 cc d1 refused
            by (cases rb) (auto simp: bnd_def from_result_def raise_def)
        next
          case True
          then obtain b where b: "rb = Inr b" "bd_allowed b" by blast
          obtain r2 d2 where a2: "gateway_authorize pf env (?i True) d1 = (r2, d2)" by (rule prod.exhaust)
          have fin: "res = (case r2 of Inl e \<Rightarrow> Inl e | Inr (a, sid) \<Rightarrow> Inr (v, a, sid, b))" "d' = d2"
            using run key v a0 d0 Inr x0 cc b a2
            by (auto simp: bnd_def from_result_def ret_def split: sum.splits prod.splits)
          obtain r where ai: "authorize_usage_internal (pf_sha256 pf) (ge_usage env) (ge_now env)
              (ge_aggregated env) (?i True) d1 = (r, d2)"
            and ok: "\<And>x. r2 = Inr x \<Longrightarrow> r = Inr (fst x) \<and> ar_allowed (fst x) \<and> ar_sub (fst x) = Some (snd x)"
            and bad: "\<And>e b. r2 = Inl e \<Longrightarrow> r = Inr b \<Longrightarrow> \<not> ar_allowed b \<or> ar_sub b = None \<or> ar_sub b = Some []"
            by (rule gateway_authorize_cases [OF a2]) blast
          have at: "ai_consume (?i True) = Some True" "ai_at (?i True) = Some (ge_now env)"
            using assms(3) by (simp_all add: gateway_authorize_input_def)
          from ai at show thesis
          proof (cases rule: consuming_cases)
            case unchanged
            then have err: "\<exists>e. r2 = Inl e" using ok by (cases r2) auto
            have "only_buckets d d2" using unchanged(1) d1 by simp
            then show thesis using refused fin err by auto
          next
            case (charged a s p r' w k)
            have s: "s \<in> set (subs d)" "plan_of d s = Some p" "sub_user s = key_user k" "plan_product p = gi_product inp"
              "entitled_at (ge_now env) s"
              using find_entitled_Some [OF charged(6)] d1 by (auto simp: gateway_authorize_input_def)
            have r2: "r2 = Inr (a, sub_id s)"
            proof (cases r2)
              case (Inl e)
              then show ?thesis using bad [OF Inl charged(1)] charged(2,3) s(1) assms(4) by (auto simp: list_all_iff)
            next
              case (Inr x)
              then show ?thesis using ok [OF Inr] charged(1,3) by (cases x) simp
            qed
            obtain a1 b1 where w: "w = (a1, b1)" by (cases w)
            have in_w: "a1 \<le> ge_now env" "ge_now env < b1" using charged(7) w by (auto simp: get_usage_window_iff)
            have "usage_consistent d1" using assms(2) d1 by simp
            note grown = window_usage_record [OF charged(9) this, of "sub_id s" a1 b1]
            have quota: "\<not> plan_allow_overage p \<Longrightarrow> sum_usage_for_window (sub_id s) a1 b1 d2 \<le> plan_quota p"
              using decision_none [OF charged(8)] grown in_w w d1 by (simp add: gateway_authorize_input_def)
            show thesis
              by (rule that(2) [of v a "sub_id s" b key k s p w])
                (use fin r2 key charged s grown quota in_w w d1 record_usage_usages [OF charged(9)]
                  in \<open>simp_all add: gateway_authorize_input_def\<close>)
          qed
        qed
      qed
    qed
  qed
qed

section \<open>Properties\<close>

text \<open>The time of a call survives its transport as text: the usage service is asked about exactly the
  instant the gateway read from its clock (for the years 0 to 9999).\<close>

theorem occurred_at_roundtrip:
  assumes "0 \<le> get_utc_full_year (ge_now env)" "get_utc_full_year (ge_now env) \<le> 9999"
  shows "ai_at (gateway_authorize_input env inp key endpoint consume) = Some (ge_now env)"
  using parse_iso_to_iso [OF assms] by (simp add: gateway_authorize_input_def)

text \<open>C5: What a call costs. A call of the gateway either fails and changes nothing but a burst bucket,
  or is charged: then the key is an active key, exactly one usage record with the requested count is
  added, for a subscription of the key's user to the product that is entitled at the time of the call,
  the usage of its period grows by exactly the count and stays within the quota unless the plan allows
  overage. A call that returns a response was charged, to the subscription the response names.\<close>

theorem gateway_charges_calls:
  assumes "usage_consistent d" "list_all (\<lambda>s. sub_id s \<noteq> []) (subs d)"
    and "0 \<le> get_utc_full_year (ge_now env)" "get_utc_full_year (ge_now env) \<le> 9999"
    and "gateway_execute pf env proxy inp provided d = (res, d')"
  shows "usage_consistent d'
    \<and> ((\<exists>e bs. res = Inl e \<and> d' = d\<lparr>buckets := bs\<rparr>)
       \<or> (\<exists>key k s p a b. require_api_key provided = Inr key
            \<and> find_active_key (hash_incoming_api_key (pf_sha256 pf) (ge_usage env) key) d = Some k
            \<and> s \<in> set (subs d) \<and> plan_of d s = Some p \<and> sub_user s = key_user k
            \<and> plan_product p = gi_product inp \<and> entitled_at (ge_now env) s
            \<and> get_usage_window s (ge_now env) = Some (a, b)
            \<and> usages d' = usages d @ [usage_row_of (ge_aggregated env)
                (consumption_input s (ge_now env) (normalize_path (gi_path inp)) (gi_count inp))]
            \<and> sum_usage_for_window (sub_id s) a b d' = sum_usage_for_window (sub_id s) a b d + gi_count inp
            \<and> (\<not> plan_allow_overage p \<longrightarrow> sum_usage_for_window (sub_id s) a b d' \<le> plan_quota p)
            \<and> (\<forall>x. res = Inr x \<longrightarrow> gu_sub (gr_usage x) = sub_id s \<and> gu_recorded (gr_usage x)
                 \<and> gu_count (gr_usage x) = gi_count inp)))"
proof -
  obtain r d1 where admit: "gateway_admit pf env inp provided d = (r, d1)" by (rule prod.exhaust)
  from admit assms(1) parse_iso_to_iso [OF assms(3,4)] assms(2) show ?thesis
  proof (cases rule: admit_cases)
    case (refused e)
    then have "res = Inl e" "d' = d1" using assms(5) admit by (auto simp: gateway_execute_def bnd_def)
    then show ?thesis using refused(2) assms(1) by (auto simp: only_buckets_def)
  next
    case (charged v a sid b s p w k key)
    have fin: "d' = d1" "res = gateway_forward pf env proxy inp v (usage_meta inp a sid b)"
      using assms(5) admit charged(1) by (simp_all add: gateway_execute_def bnd_def from_result_def)
    have meta: "gr_usage x = usage_meta inp a sid b" if "res = Inr x" for x
      using that unfolding fin(2) gateway_forward_def
      by (auto simp: forwarded_result_def split: sum.splits if_splits)
    have "gu_sub (gr_usage x) = sub_id s \<and> gu_recorded (gr_usage x) \<and> gu_count (gr_usage x) = gi_count inp"
      if "res = Inr x" for x
      using meta [OF that] charged(10,11) by (simp add: usage_meta_def)
    moreover obtain a1 b1 where "w = (a1, b1)" by (cases w)
    ultimately show ?thesis using charged(2-9) charged(12-15) fin(1) by auto
  qed
qed

text \<open>No body larger than the limit is returned, unless it is streamed.\<close>

lemma read_chunks_limit:
  assumes "read_chunks env cs acc = Inr b" "int (length acc) \<le> response_limit (ge_cfg env)"
  shows "int (length b) \<le> response_limit (ge_cfg env)"
  using assms by (induction env cs acc rule: read_chunks.induct)
    (auto simp: assert_response_body_size_def split: if_splits sum.splits)

lemma gateway_response_limit:
  assumes "gateway_forward pf env proxy inp v meta = Inr x" "gr_raw x = Some b" "0 \<le> response_limit (ge_cfg env)"
  shows "int (length b) \<le> response_limit (ge_cfg env)"
proof -
  obtain r parsed where r: "parse_response_body pf env r = Inr parsed" "snd parsed = Some b"
    using assms(1,2) by (auto simp: gateway_forward_def forwarded_result_def split: sum.splits if_splits)
  then have "read_response_body env r = Inr (Some b)"
    by (auto simp: parse_response_body_def Let_def split: sum.splits option.splits)
  then show ?thesis using read_chunks_limit [of env _ "[]" b] assms(3)
    by (auto simp: read_response_body_def assert_response_body_size_def split: option.splits sum.splits if_splits)
qed

section \<open>A concrete gateway\<close>

definition sample_platform :: platform where
  "sample_platform = \<lparr>pf_new_url = (\<lambda>s. Some (sample_url ''api.example.org'')),
     pf_resolve_url = (\<lambda>s b. Some (sample_url ''api.example.org'')),
     pf_url_text = (\<lambda>u. url_protocol u @ ''//'' @ url_hostname u @ url_pathname u),
     pf_set_pathname = (\<lambda>p u. u\<lparr>url_pathname := p\<rparr>), pf_set_search = (\<lambda>q u. u\<lparr>url_search := q\<rparr>),
     pf_parse_query = (\<lambda>q. []), pf_query_text = (\<lambda>ps. []), pf_dns = (\<lambda>h. Some [''93.184.216.34'']),
     pf_parse_json = (\<lambda>s. if s = ''doc'' then Some (JObj [(''host'', JStr ''api.example.org'')]) else None),
     pf_stringify = (\<lambda>j. ''{}''), pf_utf8 = (\<lambda>b. b), pf_header_ok = (\<lambda>k v. True),
     pf_fetch = (\<lambda>rq. Some \<lparr>rs_ok = True, rs_status = 200, rs_headers = [(''content-type'', ''text/plain'')],
        rs_body = Some [Inr (Some ''hello'')], rs_buffer = []\<rparr>),
     pf_sha256 = (\<lambda>s. s)\<rparr>"

definition sample_gateway_env :: gateway_env where
  "sample_gateway_env = \<lparr>ge_usage = sample_usage_config,
     ge_cfg = sample_gateway_config\<lparr>burst_enabled := False\<rparr>, ge_allow_private = False, ge_now = 100000,
     ge_aggregated = 100001, ge_burst_now = 100000, ge_faults = (\<lambda>_. None)\<rparr>"

definition gateway_market :: "string option \<Rightarrow> db" where
  "gateway_market snapshot = sample_market\<lparr>versions := [\<lparr>ver_id = ''v1'', ver_product = ''p1'', ver_version = ''1'',
     ver_status = VPublished, ver_openapi_url = ''https://api.example.org/doc'',
     ver_openapi_snapshot = snapshot, ver_created = 0, ver_fetched = None\<rparr>]\<rparr>"

definition sample_gateway_input :: gateway_input where
  "sample_gateway_input = \<lparr>gi_product = ''p1'', gi_path = ''weather'', gi_method = ''GET'',
     gi_headers = [(''X-Api-Key'', ''raw''), (''Accept'', ''*/*'')], gi_query = [], gi_body = NoBody, gi_count = 1\<rparr>"

theorem occurred_at_roundtrip_witness:
  "ai_at (gateway_authorize_input sample_gateway_env sample_gateway_input ''raw'' ''/weather'' True) = Some 100000"
proof -
  have "0 \<le> get_utc_full_year (ge_now sample_gateway_env)" "get_utc_full_year (ge_now sample_gateway_env) \<le> 9999"
    by code_simp+
  from occurred_at_roundtrip [OF this] show ?thesis by (simp add: sample_gateway_env_def)
qed


theorem gateway_charges_calls_witness:
  "usage_consistent (snd (gateway_execute sample_platform sample_gateway_env True sample_gateway_input
     (Some '' raw '') (gateway_market (Some ''doc''))))"
proof -
  let ?d = "gateway_market (Some ''doc'')"
  have ok: "usage_consistent ?d" "list_all (\<lambda>s. sub_id s \<noteq> []) (subs ?d)"
    "0 \<le> get_utc_full_year (ge_now sample_gateway_env)" "get_utc_full_year (ge_now sample_gateway_env) \<le> 9999"
    by code_simp+
  obtain res d' where run: "gateway_execute sample_platform sample_gateway_env True sample_gateway_input
     (Some '' raw '') ?d = (res, d')" by (rule prod.exhaust)
  show ?thesis using gateway_charges_calls [OF ok run] run by simp
qed

text \<open>A call of a product without a usable API description fails, and is charged all the same.\<close>

lemma charged_without_request:
  "let (res, d') = gateway_execute sample_platform sample_gateway_env True sample_gateway_input (Some ''raw'')
        (gateway_market None)
   in res = Inl target_not_configured \<and> map ur_count (usages d') = [1]"
  by code_simp

text \<open>Everything after a second question mark of the path is lost.\<close>

lemma second_question_mark_truncates:
  "take 2 (js_split (CHR ''?'') ''/find?q=what?&page=2'') = [''/find'', ''q=what'']"
  by code_simp

end
