(* ===== verification/CatalogRows.thy ===== *)
theory CatalogRows
  imports Payments BillingRows Crypto ExternalUrl
begin

text \<open>
  The tables of the catalog and of the accounts as stored: users, refresh tokens, products,
  versions, plans, API keys, product views and the audit log, with the unique columns and the
  foreign keys of \<open>prisma/schema.prisma\<close>. Every \<open>create\<close> is an instance of \<open>insert_row\<close> and every
  \<open>update\<close> of \<open>update_row\<close>, so that one case rule serves all of them.
\<close>

section \<open>Writes with a foreign key\<close>

definition insert_row ::
  "('r \<Rightarrow> 'r \<Rightarrow> exn option) \<Rightarrow> (db \<Rightarrow> 'r list) \<Rightarrow> ('r list \<Rightarrow> db \<Rightarrow> db) \<Rightarrow> (db \<Rightarrow> bool) \<Rightarrow> 'r \<Rightarrow> (db, unit) prog" where
  "insert_row viol table put refs r = writes (\<lambda>d.
     if \<not> refs d then Inl foreign_key_violation
     else (case insert_unique viol r (table d) of Inl e \<Rightarrow> Inl e | Inr rows \<Rightarrow> Inr (put rows d)))"

definition update_row ::
  "('r \<Rightarrow> 'r \<Rightarrow> exn option) \<Rightarrow> (db \<Rightarrow> 'r list) \<Rightarrow> ('r list \<Rightarrow> db \<Rightarrow> db) \<Rightarrow> ('r \<Rightarrow> string) \<Rightarrow> string \<Rightarrow> ('r \<Rightarrow> 'r) \<Rightarrow> (db, unit) prog" where
  "update_row viol table put key k g = writes (\<lambda>d.
     case update_unique viol (\<lambda>r. Some (key r) = Some k) g (table d) of
       Inl e \<Rightarrow> Inl e | Inr rows \<Rightarrow> Inr (put rows d))"

lemma insert_row_cases:
  assumes "insert_row viol table put refs r d = (res, d')"
  obtains e where "res = Inl e" "d' = d"
  | "res = Inr ()" "d' = put (table d @ [r]) d" "refs d" "insert_unique viol r (table d) = Inr (table d @ [r])"
  using assms unfolding insert_row_def
proof (cases rule: writes_cases)
  case (1 e)
  then show ?thesis by (intro that(1))
next
  case 2
  then obtain rows where ins: "insert_unique viol r (table d) = Inr rows" "refs d" "d' = put rows d"
    by (simp split: if_splits sum.splits)
  have "rows = table d @ [r]" using ins(1) by (simp add: insert_unique_Inr)
  then show ?thesis using ins 2(2) that(2) by simp
qed

lemma update_row_cases:
  assumes "update_row viol table put key k g d = (res, d')"
  obtains e where "res = Inl e" "d' = d"
  | "res = Inr ()" "d' = put (map (\<lambda>r. if key r = k then g r else r) (table d)) d"
    "update_unique viol (\<lambda>r. Some (key r) = Some k) g (table d)
       = Inr (map (\<lambda>r. if key r = k then g r else r) (table d))"
  using assms unfolding update_row_def
proof (cases rule: writes_cases)
  case (1 e)
  then show ?thesis by (intro that(1))
next
  case 2
  then obtain rows where upd: "update_unique viol (\<lambda>r. Some (key r) = Some k) g (table d) = Inr rows" "d' = put rows d"
    by (simp split: sum.splits)
  have "rows = map (\<lambda>r. if key r = k then g r else r) (table d)" using upd(1) by (simp add: update_unique_Inr)
  then show ?thesis using upd 2(2) that(2) by simp
qed

section \<open>Unique columns\<close>

definition product_viol :: "product_row \<Rightarrow> product_row \<Rightarrow> exn option" where
  "product_viol r r' = (if prod_id r = prod_id r' then Some (unique_violation ''id'') else None)"

definition version_viol :: "version_row \<Rightarrow> version_row \<Rightarrow> exn option" where
  "version_viol r r' =
     (if ver_id r = ver_id r' then Some (unique_violation ''id'')
      else if (ver_product r, ver_version r) = (ver_product r', ver_version r')
      then Some (unique_violation ''productId_version'') else None)"

definition plan_viol :: "plan_row \<Rightarrow> plan_row \<Rightarrow> exn option" where
  "plan_viol r r' = (if plan_id r = plan_id r' then Some (unique_violation ''id'') else None)"

definition key_viol :: "api_key_row \<Rightarrow> api_key_row \<Rightarrow> exn option" where
  "key_viol r r' = (if key_id r = key_id r' then Some (unique_violation ''id'') else None)"

definition token_viol :: "refresh_token_row \<Rightarrow> refresh_token_row \<Rightarrow> exn option" where
  "token_viol r r' = (if rt_id r = rt_id r' then Some (unique_violation ''id'') else None)"

interpretation product_ids: unique_column "\<lambda>r. Some (prod_id r)" product_viol
  by unfold_locales (auto simp: product_viol_def split: if_splits)

interpretation version_ids: unique_column "\<lambda>r. Some (ver_id r)" version_viol
  by unfold_locales (auto simp: version_viol_def split: if_splits)

interpretation version_names: unique_column "\<lambda>r. Some (ver_product r, ver_version r)" version_viol
  by unfold_locales (auto simp: version_viol_def split: if_splits)

interpretation plan_ids: unique_column "\<lambda>r. Some (plan_id r)" plan_viol
  by unfold_locales (auto simp: plan_viol_def split: if_splits)

interpretation key_ids: unique_column "\<lambda>r. Some (key_id r)" key_viol
  by unfold_locales (auto simp: key_viol_def split: if_splits)

interpretation token_ids: unique_column "\<lambda>r. Some (rt_id r)" token_viol
  by unfold_locales (auto simp: token_viol_def split: if_splits)

section \<open>The writes of the tables\<close>

definition user_exists :: "db \<Rightarrow> string \<Rightarrow> bool" where
  "user_exists d uid \<longleftrightarrow> find_unique (\<lambda>u. usr_id u = uid) (users d) \<noteq> None"

definition product_exists :: "db \<Rightarrow> string \<Rightarrow> bool" where
  "product_exists d pid \<longleftrightarrow> find_unique (\<lambda>r. prod_id r = pid) (products d) \<noteq> None"

definition create_user :: "user_row \<Rightarrow> (db, unit) prog" where
  "create_user r = insert_row user_viol users (\<lambda>rows d. d\<lparr>users := rows\<rparr>) (\<lambda>d. True) r"

definition update_user :: "string \<Rightarrow> (user_row \<Rightarrow> user_row) \<Rightarrow> (db, unit) prog" where
  "update_user uid g = update_row user_viol users (\<lambda>rows d. d\<lparr>users := rows\<rparr>) usr_id uid g"

definition create_refresh_token :: "refresh_token_row \<Rightarrow> (db, unit) prog" where
  "create_refresh_token r = insert_row token_viol refresh_tokens (\<lambda>rows d. d\<lparr>refresh_tokens := rows\<rparr>)
     (\<lambda>d. user_exists d (rt_user r)) r"

text \<open>\<open>refreshToken.deleteMany\<close>.\<close>

definition delete_refresh_tokens :: "(refresh_token_row \<Rightarrow> bool) \<Rightarrow> (db, unit) prog" where
  "delete_refresh_tokens p = writes (\<lambda>d. Inr (d\<lparr>refresh_tokens := filter (\<lambda>r. \<not> p r) (refresh_tokens d)\<rparr>))"

definition insert_product :: "product_row \<Rightarrow> (db, unit) prog" where
  "insert_product r = insert_row product_viol products (\<lambda>rows d. d\<lparr>products := rows\<rparr>)
     (\<lambda>d. user_exists d (prod_owner r)) r"

definition modify_product :: "date \<Rightarrow> string \<Rightarrow> (product_row \<Rightarrow> product_row) \<Rightarrow> (db, unit) prog" where
  "modify_product now pid g = update_row product_viol products (\<lambda>rows d. d\<lparr>products := rows\<rparr>) prod_id pid
     (\<lambda>r. (g r)\<lparr>prod_updated := now\<rparr>)"

definition insert_version :: "version_row \<Rightarrow> (db, unit) prog" where
  "insert_version r = insert_row version_viol versions (\<lambda>rows d. d\<lparr>versions := rows\<rparr>)
     (\<lambda>d. product_exists d (ver_product r)) r"

definition modify_version :: "string \<Rightarrow> (version_row \<Rightarrow> version_row) \<Rightarrow> (db, unit) prog" where
  "modify_version vid g = update_row version_viol versions (\<lambda>rows d. d\<lparr>versions := rows\<rparr>) ver_id vid g"

definition plan_int4 :: "plan_row \<Rightarrow> bool" where
  "plan_int4 r \<longleftrightarrow> int4_ok (plan_price_cents r) \<and> int4_ok (plan_quota r) \<and> opt_int4_ok (plan_rpm r)
     \<and> opt_int4_ok (plan_overage_unit r) \<and> opt_int4_ok (plan_overage_price r)"

definition insert_plan :: "plan_row \<Rightarrow> (db, unit) prog" where
  "insert_plan r = (if \<not> plan_int4 r then raise int4_overflow
     else insert_row plan_viol plans (\<lambda>rows d. d\<lparr>plans := rows\<rparr>) (\<lambda>d. product_exists d (plan_product r)) r)"

definition insert_key :: "api_key_row \<Rightarrow> (db, unit) prog" where
  "insert_key r = insert_row key_viol api_keys (\<lambda>rows d. d\<lparr>api_keys := rows\<rparr>)
     (\<lambda>d. user_exists d (key_user r)) r"

definition modify_key :: "string \<Rightarrow> (api_key_row \<Rightarrow> api_key_row) \<Rightarrow> (db, unit) prog" where
  "modify_key kid g = update_row key_viol api_keys (\<lambda>rows d. d\<lparr>api_keys := rows\<rparr>) key_id kid g"

definition insert_view :: "view_row \<Rightarrow> (db, unit) prog" where
  "insert_view r = writes (\<lambda>d.
     if \<not> product_exists d (pv_product r) then Inl foreign_key_violation
     else (case pv_viewer r of
        None \<Rightarrow> Inr (d\<lparr>product_views := product_views d @ [r]\<rparr>)
      | Some u \<Rightarrow> if user_exists d u then Inr (d\<lparr>product_views := product_views d @ [r]\<rparr>)
                  else Inl foreign_key_violation))"

definition insert_audit :: "audit_row \<Rightarrow> (db, unit) prog" where
  "insert_audit r = writes (\<lambda>d. Inr (d\<lparr>audit_logs := audit_logs d @ [r]\<rparr>))"

lemmas row_writes = create_user_def update_user_def create_refresh_token_def insert_product_def
  modify_product_def insert_version_def modify_version_def insert_key_def modify_key_def

lemma bnd_gets [simp]: "bnd (gets f) g d = g (f d) d"
  by (simp add: bnd_def gets_def)

lemma user_exists_iff: "user_exists d uid \<longleftrightarrow> uid \<in> usr_id ` set (users d)"
  by (auto simp: user_exists_def find_unique_None)

lemma product_exists_iff: "product_exists d pid \<longleftrightarrow> pid \<in> prod_id ` set (products d)"
  by (auto simp: product_exists_def find_unique_None)

end
