(* ===== verification/Requests.thy ===== *)
theory Requests
  imports Schema ExternalUrl
begin

text \<open>
  What stands before every service: the guards (\<open>jwt.guard.ts\<close>, \<open>optional-jwt.guard.ts\<close>,
  \<open>roles.guard.ts\<close>) and the validation pipe (\<open>zod-validation.pipe.ts\<close>) with the string and number
  rules of the schemas. The verification of a token (\<open>jsonwebtoken\<close>) is a parameter: \<open>None\<close> when it
  throws or the payload is a text.
\<close>

section \<open>Access tokens\<close>

record access_payload =
  ap_sub :: "string option"
  ap_email :: "string option"
  ap_role :: "role option"

definition unauthorized :: exn where
  "unauthorized = AppError UNAUTHORIZED ''UNAUTHORIZED'' 401 []"

text \<open>From the \<open>Bearer\<close> token to \<open>request.user\<close>, in both guards.\<close>

definition bearer_user :: "(string \<Rightarrow> access_payload option) \<Rightarrow> string \<Rightarrow> exn + auth_user" where
  "bearer_user verify header =
     (if \<not> starts_with ''Bearer '' header then Inl unauthorized
      else let token = js_trim (replace_first ''Bearer '' '''' header) in
        if token = [] then Inl unauthorized
        else case verify token of
          None \<Rightarrow> Inl unauthorized
        | Some p \<Rightarrow>
            if \<not> js_truthy_str (ap_sub p) \<or> \<not> js_truthy_str (ap_email p) \<or> ap_role p = None
            then Inl unauthorized
            else Inr \<lparr>au_id = the (ap_sub p), au_email = the (ap_email p), au_role = the (ap_role p)\<rparr>)"

definition jwt_guard :: "(string \<Rightarrow> access_payload option) \<Rightarrow> string option \<Rightarrow> exn + auth_user" where
  "jwt_guard verify header =
     (if \<not> js_truthy_str header then Inl unauthorized else bearer_user verify (the header))"

definition optional_jwt_guard ::
  "(string \<Rightarrow> access_payload option) \<Rightarrow> string option \<Rightarrow> exn + auth_user option" where
  "optional_jwt_guard verify header =
     (if \<not> js_truthy_str header then Inr None
      else case bearer_user verify (the header) of Inl e \<Rightarrow> Inl e | Inr u \<Rightarrow> Inr (Some u))"

definition roles_guard :: "role list \<Rightarrow> auth_user option \<Rightarrow> exn + unit" where
  "roles_guard required user =
     (if required = [] then Inr ()
      else case user of
        None \<Rightarrow> Inl unauthorized
      | Some u \<Rightarrow> if au_role u \<in> set required then Inr ()
                  else Inl (AppError FORBIDDEN ''FORBIDDEN'' 403 []))"

section \<open>Validation\<close>

text \<open>The error of the pipe; the list of the issues is not modelled.\<close>

definition validation_error :: exn where
  "validation_error = AppError VALIDATION_ERROR ''VALIDATION_ERROR'' 400 []"

definition zod_pipe :: "('a \<Rightarrow> 'b option) \<Rightarrow> 'a \<Rightarrow> exn + 'b" where
  "zod_pipe schema v = (case schema v of None \<Rightarrow> Inl validation_error | Some x \<Rightarrow> Inr x)"

text \<open>\<open>z.string().trim().min(lo).max(hi)\<close>.\<close>

definition zod_text :: "nat \<Rightarrow> nat \<Rightarrow> string \<Rightarrow> string option" where
  "zod_text lo hi s = (let t = js_trim s in if lo \<le> length t \<and> length t \<le> hi then Some t else None)"

definition zod_optional :: "('a \<Rightarrow> 'b option) \<Rightarrow> 'a option \<Rightarrow> 'b option option" where
  "zod_optional schema v = (case v of None \<Rightarrow> Some None
     | Some x \<Rightarrow> (case schema x of None \<Rightarrow> None | Some y \<Rightarrow> Some (Some y)))"

fun zod_array :: "('a \<Rightarrow> 'b option) \<Rightarrow> 'a list \<Rightarrow> 'b list option" where
  "zod_array schema [] = Some []"
| "zod_array schema (x # xs) =
     (case schema x of None \<Rightarrow> None
      | Some y \<Rightarrow> (case zod_array schema xs of None \<Rightarrow> None | Some ys \<Rightarrow> Some (y # ys)))"

text \<open>\<open>z.number().int().min(lo)\<close>: integers up to \<open>Number.MAX_SAFE_INTEGER\<close>.\<close>

definition zod_int :: "int \<Rightarrow> int \<Rightarrow> int option" where
  "zod_int lo n = (if lo \<le> n \<and> n < 2 ^ 53 then Some n else None)"

lemma zod_text_Some: "zod_text lo hi s = Some t \<longleftrightarrow> t = js_trim s \<and> lo \<le> length t \<and> length t \<le> hi"
  by (auto simp: zod_text_def Let_def)

lemma zod_optional_Some:
  "zod_optional schema v = Some w \<longleftrightarrow> (v = None \<and> w = None \<or> (\<exists>x y. v = Some x \<and> schema x = Some y \<and> w = Some y))"
  by (auto simp: zod_optional_def split: option.splits)

lemma zod_array_all: "zod_array schema xs = Some ys \<Longrightarrow> list_all2 (\<lambda>x y. schema x = Some y) xs ys"
  by (induction xs arbitrary: ys) (auto split: option.splits)

lemma zod_pipe_Inr: "zod_pipe schema v = Inr x \<longleftrightarrow> schema v = Some x"
  by (simp add: zod_pipe_def split: option.split)

section \<open>What the guards let through\<close>

lemma bearer_user_cases:
  assumes "bearer_user verify header = Inr u"
  obtains token p where "starts_with ''Bearer '' header" "verify token = Some p"
    "ap_sub p = Some (au_id u)" "ap_email p = Some (au_email u)" "ap_role p = Some (au_role u)"
    "au_id u \<noteq> []" "au_email u \<noteq> []"
  using assms
  by (auto simp: bearer_user_def Let_def js_truthy_str_def split: if_splits option.splits)

lemma bearer_user_error: "bearer_user verify header = Inl e \<Longrightarrow> e = unauthorized"
  by (auto simp: bearer_user_def Let_def split: if_splits option.splits)

end
