(* ===== verification/Products.thy ===== *)
theory Products
  imports CatalogRows Requests
begin

text \<open>
  \<open>src/modules/catalog/products.service.ts\<close> and its schemas: listing, reading, creating and
  updating products. The database's case-insensitive \<open>contains\<close> is a parameter; \<open>findMany\<close> and
  \<open>count\<close> of a listing read one state.
\<close>

section \<open>Schemas\<close>

record product_query =
  pq_search :: "string option"
  pq_category :: "string option"
  pq_tag :: "string option"
  pq_limit :: "int option"
  pq_offset :: "int option"

record create_product_input =
  np_title :: string
  np_description :: string
  np_category :: string
  np_tags :: "string list"

record update_product_input =
  up_title :: "string option"
  up_description :: "string option"
  up_category :: "string option"
  up_tags :: "string list option"
  up_status :: "product_status option"

definition tag_schema :: "string \<Rightarrow> string option" where
  "tag_schema = zod_text 1 30"

definition tags_schema :: "string list \<Rightarrow> string list option" where
  "tags_schema ts = (if length ts \<le> 20 then zod_array tag_schema ts else None)"

definition create_product_schema :: "create_product_input \<Rightarrow> create_product_input option" where
  "create_product_schema i =
     (case (zod_text 3 120 (np_title i), zod_text 10 2000 (np_description i),
            zod_text 2 60 (np_category i), tags_schema (np_tags i)) of
        (Some t, Some d, Some c, Some ts) \<Rightarrow>
          Some \<lparr>np_title = t, np_description = d, np_category = c, np_tags = ts\<rparr>
      | _ \<Rightarrow> None)"

definition update_product_schema :: "update_product_input \<Rightarrow> update_product_input option" where
  "update_product_schema i =
     (case (zod_optional (zod_text 3 120) (up_title i), zod_optional (zod_text 10 2000) (up_description i),
            zod_optional (zod_text 2 60) (up_category i), zod_optional tags_schema (up_tags i)) of
        (Some t, Some d, Some c, Some ts) \<Rightarrow>
          Some \<lparr>up_title = t, up_description = d, up_category = c, up_tags = ts, up_status = up_status i\<rparr>
      | _ \<Rightarrow> None)"

definition list_products_query_schema :: "product_query \<Rightarrow> product_query option" where
  "list_products_query_schema q =
     (case (zod_optional (\<lambda>s. let t = js_trim s in if t = [] then None else Some t) (pq_search q),
            zod_optional (zod_text 2 60) (pq_category q), zod_optional tag_schema (pq_tag q),
            zod_optional (zod_int 1) (pq_limit q), zod_optional (zod_int 0) (pq_offset q)) of
        (Some s, Some c, Some t, Some l, Some off) \<Rightarrow>
          Some \<lparr>pq_search = s, pq_category = c, pq_tag = t, pq_limit = l, pq_offset = off\<rparr>
      | _ \<Rightarrow> None)"

section \<open>Listing\<close>

definition search_matches :: "(string \<Rightarrow> string \<Rightarrow> bool) \<Rightarrow> product_query \<Rightarrow> product_row \<Rightarrow> bool" where
  "search_matches contains q r \<longleftrightarrow>
     (js_truthy_str (pq_search q) \<longrightarrow>
        contains (the (pq_search q)) (prod_title r) \<or> contains (the (pq_search q)) (prod_description r)
        \<or> contains (the (pq_search q)) (prod_category r) \<or> the (pq_search q) \<in> set (prod_tags r))
     \<and> (js_truthy_str (pq_category q) \<longrightarrow> prod_category r = the (pq_category q))
     \<and> (js_truthy_str (pq_tag q) \<longrightarrow> the (pq_tag q) \<in> set (prod_tags r))"

record 'a page =
  pg_items :: "'a list"
  pg_total :: int
  pg_limit :: int
  pg_offset :: int

definition product_page :: "(product_row \<Rightarrow> bool) \<Rightarrow> int \<Rightarrow> int \<Rightarrow> db \<Rightarrow> product_row page" where
  "product_page selected limit offset d =
     \<lparr>pg_items = take (nat limit) (drop (nat offset) (find_many (\<lambda>r. - prod_created r) selected (products d))),
      pg_total = int (length (filter selected (products d))), pg_limit = limit, pg_offset = offset\<rparr>"

definition list_public_products ::
  "(string \<Rightarrow> string \<Rightarrow> bool) \<Rightarrow> product_query \<Rightarrow> int \<Rightarrow> int \<Rightarrow> db \<Rightarrow> product_row page" where
  "list_public_products contains q limit offset d =
     product_page (\<lambda>r. prod_status r = PPublished \<and> search_matches contains q r) limit offset d"

definition list_managed_products ::
  "(string \<Rightarrow> string \<Rightarrow> bool) \<Rightarrow> product_query \<Rightarrow> string option \<Rightarrow> int \<Rightarrow> int \<Rightarrow> db \<Rightarrow> product_row page" where
  "list_managed_products contains q owner limit offset d =
     product_page (\<lambda>r. (js_truthy_str owner \<longrightarrow> Some (prod_owner r) = owner) \<and> search_matches contains q r)
       limit offset d"

text \<open>\<open>listProducts\<close> and \<open>listMyProducts\<close> of the controller.\<close>

definition page_limit :: "product_query \<Rightarrow> int" where
  "page_limit q = min (case pq_limit q of None \<Rightarrow> 20 | Some n \<Rightarrow> n) 100"

definition page_offset :: "product_query \<Rightarrow> int" where
  "page_offset q = (case pq_offset q of None \<Rightarrow> 0 | Some n \<Rightarrow> n)"

definition list_products :: "(string \<Rightarrow> string \<Rightarrow> bool) \<Rightarrow> product_query \<Rightarrow> db \<Rightarrow> exn + product_row page" where
  "list_products contains query d = (case zod_pipe list_products_query_schema query of Inl e \<Rightarrow> Inl e
     | Inr q \<Rightarrow> Inr (list_public_products contains q (page_limit q) (page_offset q) d))"

definition list_my_products ::
  "(string \<Rightarrow> string \<Rightarrow> bool) \<Rightarrow> product_query \<Rightarrow> auth_user \<Rightarrow> db \<Rightarrow> exn + product_row page" where
  "list_my_products contains query user d = (case zod_pipe list_products_query_schema query of Inl e \<Rightarrow> Inl e
     | Inr q \<Rightarrow> Inr (list_managed_products contains q
         (if au_role user = ADMIN then None else Some (au_id user)) (page_limit q) (page_offset q) d))"

section \<open>Reading and writing\<close>

definition is_owner_or_admin :: "string \<Rightarrow> auth_user option \<Rightarrow> bool" where
  "is_owner_or_admin owner user =
     (case user of None \<Rightarrow> False | Some u \<Rightarrow> au_role u = ADMIN \<or> au_id u = owner)"

definition product_not_found :: exn where
  "product_not_found = AppError PRODUCT_NOT_FOUND ''PRODUCT_NOT_FOUND'' 404 []"

definition product_not_public :: exn where
  "product_not_public = AppError PRODUCT_NOT_PUBLIC ''PRODUCT_NOT_PUBLIC'' 403 []"

definition not_owner :: exn where
  "not_owner = AppError NOT_OWNER ''NOT_OWNER'' 403 []"

definition invalid_status_transition :: exn where
  "invalid_status_transition = AppError VALIDATION_ERROR ''INVALID_STATUS_TRANSITION'' 400 []"

definition find_product :: "string \<Rightarrow> db \<Rightarrow> product_row option" where
  "find_product pid d = find_unique (\<lambda>r. prod_id r = pid) (products d)"

definition record_product_view :: "date \<Rightarrow> product_row \<Rightarrow> auth_user option \<Rightarrow> (db, unit) prog" where
  "record_product_view now r user =
     (if prod_status r \<noteq> PPublished then ret ()
      else if user \<noteq> None \<and> is_owner_or_admin (prod_owner r) user then ret ()
      else insert_view \<lparr>pv_product = prod_id r, pv_viewer = map_option au_id user, pv_at = now\<rparr>)"

definition get_product_by_id :: "date \<Rightarrow> string \<Rightarrow> auth_user option \<Rightarrow> (db, product_row) prog" where
  "get_product_by_id now pid user =
     bnd (gets (find_product pid)) (\<lambda>found.
     case found of
       None \<Rightarrow> raise product_not_found
     | Some r \<Rightarrow>
         if prod_status r \<noteq> PPublished \<and> user = None then raise product_not_public
         else if prod_status r \<noteq> PPublished \<and> \<not> is_owner_or_admin (prod_owner r) user then raise not_owner
         else bnd (record_product_view now r user) (\<lambda>_. ret r))"

definition new_product :: "date \<Rightarrow> string \<Rightarrow> create_product_input \<Rightarrow> auth_user \<Rightarrow> product_row" where
  "new_product now pid i user = \<lparr>prod_id = pid, prod_owner = au_id user, prod_title = np_title i,
     prod_status = PDraft, prod_created = now, prod_description = np_description i,
     prod_category = np_category i, prod_tags = np_tags i, prod_updated = now\<rparr>"

definition create_product ::
  "date \<Rightarrow> string \<Rightarrow> create_product_input \<Rightarrow> auth_user \<Rightarrow> (db, product_row) prog" where
  "create_product now pid i user =
     bnd (insert_product (new_product now pid i user)) (\<lambda>_. ret (new_product now pid i user))"

fun is_product_status_transition_allowed :: "product_status \<Rightarrow> product_status \<Rightarrow> bool" where
  "is_product_status_transition_allowed PDraft PPublished = True"
| "is_product_status_transition_allowed PPublished PHidden = True"
| "is_product_status_transition_allowed PHidden PPublished = True"
| "is_product_status_transition_allowed current next = (current = next)"

definition set_if :: "'a option \<Rightarrow> ('a \<Rightarrow> 'r \<Rightarrow> 'r) \<Rightarrow> 'r \<Rightarrow> 'r" where
  "set_if v f r = (case v of None \<Rightarrow> r | Some x \<Rightarrow> f x r)"

definition product_update :: "update_product_input \<Rightarrow> product_row \<Rightarrow> product_row" where
  "product_update i =
     set_if (up_status i) (\<lambda>x r. r\<lparr>prod_status := x\<rparr>) \<circ> set_if (up_tags i) (\<lambda>x r. r\<lparr>prod_tags := x\<rparr>)
     \<circ> set_if (up_category i) (\<lambda>x r. r\<lparr>prod_category := x\<rparr>)
     \<circ> set_if (up_description i) (\<lambda>x r. r\<lparr>prod_description := x\<rparr>)
     \<circ> set_if (up_title i) (\<lambda>x r. r\<lparr>prod_title := x\<rparr>)"

definition update_product ::
  "date \<Rightarrow> string \<Rightarrow> update_product_input \<Rightarrow> auth_user \<Rightarrow> (db, product_row) prog" where
  "update_product now pid i user =
     bnd (gets (find_product pid)) (\<lambda>found.
     case found of
       None \<Rightarrow> raise product_not_found
     | Some r \<Rightarrow>
         if \<not> is_owner_or_admin (prod_owner r) (Some user) then raise not_owner
         else if (case up_status i of None \<Rightarrow> False
                  | Some s \<Rightarrow> \<not> is_product_status_transition_allowed (prod_status r) s)
         then raise invalid_status_transition
         else bnd (modify_product now pid (product_update i)) (\<lambda>_.
              ret ((product_update i r)\<lparr>prod_updated := now\<rparr>)))"

lemma product_update_frame [simp]:
  "prod_id (product_update i r) = prod_id r" "prod_owner (product_update i r) = prod_owner r"
  "prod_created (product_update i r) = prod_created r"
  by (simp_all add: product_update_def set_if_def split: option.splits)

lemma product_update_status:
  "prod_status (product_update i r) = (case up_status i of None \<Rightarrow> prod_status r | Some s \<Rightarrow> s)"
  by (simp add: product_update_def set_if_def split: option.splits)

lemma find_product_Some: "find_product pid d = Some r \<Longrightarrow> r \<in> set (products d) \<and> prod_id r = pid"
  using find_unique_Some by (fastforce simp: find_product_def)

end
