(* ===== verification/Versions.thy ===== *)
theory Versions
  imports Products
begin

text \<open>
  \<open>src/modules/catalog/versions.service.ts\<close> and its schemas: the versions of a product with the
  snapshot of their API description. \<open>fetch\<close>, the DNS and the URL parser are parameters; a failed or
  aborted \<open>fetch\<close> is \<open>None\<close>, a failed \<open>text()\<close> is a body \<open>None\<close>.
\<close>

section \<open>Schemas and environment\<close>

record create_version_input =
  cv_version :: string
  cv_openapi_url :: string

record update_version_input =
  uv_status :: "version_status option"
  uv_openapi_url :: "string option"

record openapi_response =
  or_ok :: bool
  or_status :: int
  or_body :: "string option"

record version_env =
  ve_new_url :: "string \<Rightarrow> url option"
  ve_dns :: "string \<Rightarrow> string list option"
  ve_fetch :: "string \<Rightarrow> openapi_response option"
  ve_allow_private :: bool
  ve_now :: date

definition openapi_url_schema :: "version_env \<Rightarrow> string \<Rightarrow> string option" where
  "openapi_url_schema env s = (case zod_text 5 2048 s of None \<Rightarrow> None
     | Some t \<Rightarrow> if ve_new_url env t = None then None else Some t)"

definition create_version_schema :: "version_env \<Rightarrow> create_version_input \<Rightarrow> create_version_input option" where
  "create_version_schema env i =
     (case (zod_text 1 20 (cv_version i), openapi_url_schema env (cv_openapi_url i)) of
        (Some v, Some u) \<Rightarrow> Some \<lparr>cv_version = v, cv_openapi_url = u\<rparr>
      | _ \<Rightarrow> None)"

definition update_version_schema :: "version_env \<Rightarrow> update_version_input \<Rightarrow> update_version_input option" where
  "update_version_schema env i =
     (case zod_optional (openapi_url_schema env) (uv_openapi_url i) of
        None \<Rightarrow> None
      | Some u \<Rightarrow> Some \<lparr>uv_status = uv_status i, uv_openapi_url = u\<rparr>)"

section \<open>The snapshot of the API description\<close>

definition openapi_max_size_bytes :: int where
  "openapi_max_size_bytes = 2000000"

definition openapi_fetch_failed :: "(string \<times> detail) list \<Rightarrow> exn" where
  "openapi_fetch_failed details = AppError VALIDATION_ERROR ''OPENAPI_FETCH_FAILED'' 400 details"

definition fetch_openapi_snapshot :: "version_env \<Rightarrow> string \<Rightarrow> exn + string" where
  "fetch_openapi_snapshot env u =
     (case assert_safe_external_http_url (ve_new_url env) (ve_dns env) u
             \<lparr>so_allow_private = ve_allow_private env, so_message = ''OPENAPI_URL_NOT_ALLOWED'', so_status = 400\<rparr> of
        Inl e \<Rightarrow> Inl e
      | Inr _ \<Rightarrow>
          (case ve_fetch env u of
             None \<Rightarrow> Inl (openapi_fetch_failed [(''reason'', DStr ''NETWORK_ERROR''), (''url'', DStr u)])
           | Some r \<Rightarrow>
               if \<not> or_ok r
               then Inl (openapi_fetch_failed [(''reason'', DStr ''HTTP_ERROR''), (''status'', DNum (or_status r)), (''url'', DStr u)])
               else case or_body r of
                 None \<Rightarrow> Inl (openapi_fetch_failed [(''reason'', DStr ''NETWORK_ERROR''), (''url'', DStr u)])
               | Some body \<Rightarrow>
                   if js_trim body = []
                   then Inl (openapi_fetch_failed [(''reason'', DStr ''EMPTY_BODY''), (''url'', DStr u)])
                   else if openapi_max_size_bytes < utf8_length body
                   then Inl (openapi_fetch_failed [(''reason'', DStr ''TOO_LARGE''), (''limitBytes'', DNum openapi_max_size_bytes),
                          (''actualBytes'', DNum (utf8_length body)), (''url'', DStr u)])
                   else Inr body))"

section \<open>Operations\<close>

definition version_not_found :: exn where
  "version_not_found = AppError VERSION_NOT_FOUND ''VERSION_NOT_FOUND'' 404 []"

definition version_already_exists :: exn where
  "version_already_exists = AppError VERSION_ALREADY_EXISTS ''VERSION_ALREADY_EXISTS'' 409 []"

text \<open>A reader who is neither the owner nor an administrator is refused.\<close>

definition refuse_reader :: "auth_user option \<Rightarrow> exn" where
  "refuse_reader user = (if user = None then product_not_public else not_owner)"

text \<open>The selected columns: the row without the snapshot.\<close>

record version_dto =
  vd_id :: string
  vd_product :: string
  vd_version :: string
  vd_status :: version_status
  vd_openapi_url :: string
  vd_created :: date

definition version_dto_of :: "version_row \<Rightarrow> version_dto" where
  "version_dto_of v = \<lparr>vd_id = ver_id v, vd_product = ver_product v, vd_version = ver_version v,
     vd_status = ver_status v, vd_openapi_url = ver_openapi_url v, vd_created = ver_created v\<rparr>"

definition list_product_versions :: "string \<Rightarrow> auth_user option \<Rightarrow> db \<Rightarrow> exn + version_dto list" where
  "list_product_versions pid user d =
     (case find_product pid d of
        None \<Rightarrow> Inl product_not_found
      | Some r \<Rightarrow>
          if prod_status r \<noteq> PPublished \<and> \<not> is_owner_or_admin (prod_owner r) user then Inl (refuse_reader user)
          else Inr (map version_dto_of (find_many (\<lambda>v. - ver_created v)
                 (\<lambda>v. ver_product v = pid \<and> (is_owner_or_admin (prod_owner r) user \<or> ver_status v = VPublished))
                 (versions d))))"

definition new_version :: "version_env \<Rightarrow> date \<Rightarrow> string \<Rightarrow> string \<Rightarrow> create_version_input \<Rightarrow> string \<Rightarrow> version_row" where
  "new_version env now vid pid i snapshot = \<lparr>ver_id = vid, ver_product = pid, ver_version = cv_version i,
     ver_status = VDraft, ver_openapi_url = cv_openapi_url i, ver_openapi_snapshot = Some snapshot,
     ver_created = now, ver_fetched = Some (ve_now env)\<rparr>"

definition create_version ::
  "version_env \<Rightarrow> date \<Rightarrow> string \<Rightarrow> string \<Rightarrow> create_version_input \<Rightarrow> auth_user \<Rightarrow> (db, version_dto) prog" where
  "create_version env now vid pid i user =
     bnd (gets (find_product pid)) (\<lambda>found.
     case found of
       None \<Rightarrow> raise product_not_found
     | Some r \<Rightarrow>
         if \<not> is_owner_or_admin (prod_owner r) (Some user) then raise not_owner
         else
           bnd (gets (\<lambda>d. List.find (\<lambda>v. ver_product v = pid \<and> ver_version v = cv_version i) (versions d))) (\<lambda>existing.
           if existing \<noteq> None then raise version_already_exists
           else
             bnd (from_result (fetch_openapi_snapshot env (cv_openapi_url i))) (\<lambda>snapshot.
             try_catch
               (bnd (insert_version (new_version env now vid pid i snapshot)) (\<lambda>_.
                ret (version_dto_of (new_version env now vid pid i snapshot))))
               (\<lambda>e. if exn_prisma_code e = Some ''P2002'' then raise version_already_exists else raise e))))"

fun is_version_status_transition_allowed :: "version_status \<Rightarrow> version_status \<Rightarrow> bool" where
  "is_version_status_transition_allowed VDraft VPublished = True"
| "is_version_status_transition_allowed VPublished VDraft = True"
| "is_version_status_transition_allowed current next = (current = next)"

text \<open>A version with its product (a required relation).\<close>

definition find_version :: "string \<Rightarrow> db \<Rightarrow> (version_row \<times> product_row) option" where
  "find_version vid d = (case find_unique (\<lambda>v. ver_id v = vid) (versions d) of None \<Rightarrow> None
     | Some v \<Rightarrow> (case find_product (ver_product v) d of None \<Rightarrow> None | Some r \<Rightarrow> Some (v, r)))"

definition version_update ::
  "version_env \<Rightarrow> version_status option \<Rightarrow> (string \<times> string) option \<Rightarrow> version_row \<Rightarrow> version_row" where
  "version_update env status fetched =
     set_if fetched (\<lambda>(u, body) v. v\<lparr>ver_openapi_url := u, ver_openapi_snapshot := Some body, ver_fetched := Some (ve_now env)\<rparr>)
     \<circ> set_if status (\<lambda>s v. v\<lparr>ver_status := s\<rparr>)"

definition update_version ::
  "version_env \<Rightarrow> string \<Rightarrow> update_version_input \<Rightarrow> auth_user \<Rightarrow> (db, version_dto) prog" where
  "update_version env vid i user =
     bnd (gets (find_version vid)) (\<lambda>found.
     case found of
       None \<Rightarrow> raise version_not_found
     | Some (v, r) \<Rightarrow>
         if \<not> is_owner_or_admin (prod_owner r) (Some user) then raise not_owner
         else if (case uv_status i of None \<Rightarrow> False
                  | Some s \<Rightarrow> \<not> is_version_status_transition_allowed (ver_status v) s)
         then raise invalid_status_transition
         else
           bnd (from_result (case uv_openapi_url i of None \<Rightarrow> Inr None
                 | Some u \<Rightarrow> (case fetch_openapi_snapshot env u of Inl e \<Rightarrow> Inl e | Inr body \<Rightarrow> Inr (Some (u, body))))) (\<lambda>fetched.
           bnd (modify_version vid (version_update env (uv_status i) fetched)) (\<lambda>_.
           ret (version_dto_of (version_update env (uv_status i) fetched v)))))"

record version_schema =
  vs_version_id :: string
  vs_product_id :: string
  vs_version :: string
  vs_openapi_url :: string
  vs_fetched_at :: "date option"
  vs_schema :: string

definition get_version_schema :: "string \<Rightarrow> auth_user option \<Rightarrow> db \<Rightarrow> exn + version_schema" where
  "get_version_schema vid user d =
     (case find_version vid d of
        None \<Rightarrow> Inl version_not_found
      | Some (v, r) \<Rightarrow>
          if \<not> (prod_status r = PPublished \<and> ver_status v = VPublished) \<and> \<not> is_owner_or_admin (prod_owner r) user
          then Inl (refuse_reader user)
          else if \<not> js_truthy_str (ver_openapi_snapshot v)
          then Inl (AppError NOT_FOUND ''OPENAPI_SCHEMA_NOT_AVAILABLE'' 404 [])
          else Inr \<lparr>vs_version_id = ver_id v, vs_product_id = ver_product v, vs_version = ver_version v,
                 vs_openapi_url = ver_openapi_url v, vs_fetched_at = ver_fetched v,
                 vs_schema = the (ver_openapi_snapshot v)\<rparr>)"

section \<open>What a snapshot is\<close>

text \<open>A stored snapshot came from a checked address, is not blank and is within the size limit.\<close>

lemma fetch_openapi_snapshot_Inr:
  assumes "fetch_openapi_snapshot env u = Inr body"
  obtains r w where "ve_fetch env u = Some r" "or_ok r" "or_body r = Some body" "js_trim body \<noteq> []"
    "utf8_length body \<le> 2000000"
    "assert_safe_external_http_url (ve_new_url env) (ve_dns env) u
       \<lparr>so_allow_private = ve_allow_private env, so_message = ''OPENAPI_URL_NOT_ALLOWED'', so_status = 400\<rparr> = Inr w"
  using assms unfolding fetch_openapi_snapshot_def
  by (auto simp: openapi_max_size_bytes_def not_less split: sum.splits option.splits if_splits)

lemma version_update_frame [simp]:
  "ver_id (version_update env s f v) = ver_id v" "ver_product (version_update env s f v) = ver_product v"
  "ver_version (version_update env s f v) = ver_version v" "ver_created (version_update env s f v) = ver_created v"
  by (simp_all add: version_update_def set_if_def split: option.splits prod.splits)

lemma find_version_Some:
  "find_version vid d = Some (v, r) \<Longrightarrow>
   v \<in> set (versions d) \<and> ver_id v = vid \<and> r \<in> set (products d) \<and> prod_id r = ver_product v"
  using find_unique_Some find_product_Some
  by (fastforce simp: find_version_def split: option.splits)

end
