(* ===== verification/Plans.thy ===== *)
theory Plans
  imports Versions
begin

text \<open>
  \<open>src/modules/billing/plans.service.ts\<close> and \<open>createPlanSchema\<close>: the plans of a product.
\<close>

record create_plan_input =
  pi_product :: string
  pi_name :: string
  pi_price :: int
  pi_currency :: "string option"
  pi_period :: "plan_period option"
  pi_quota :: int
  pi_rpm :: "int option"
  pi_allow_overage :: "bool option"
  pi_overage_unit :: "int option"
  pi_overage_price :: "int option"
  pi_active :: "bool option"

text \<open>\<open>superRefine\<close>: the overage fields are given exactly when overage is allowed.\<close>

definition overage_refinement :: "create_plan_input \<Rightarrow> bool" where
  "overage_refinement i =
     (if pi_allow_overage i = Some True then pi_overage_unit i \<noteq> None \<and> pi_overage_price i \<noteq> None
      else pi_overage_unit i = None \<and> pi_overage_price i = None)"

definition zod_nonempty :: "string \<Rightarrow> string option" where
  "zod_nonempty s = (let t = js_trim s in if t = [] then None else Some t)"

definition create_plan_schema :: "create_plan_input \<Rightarrow> create_plan_input option" where
  "create_plan_schema i =
     (case (zod_nonempty (pi_product i), zod_text 2 60 (pi_name i), zod_int 0 (pi_price i),
            zod_optional (zod_text 1 10) (pi_currency i), zod_int 1 (pi_quota i)) of
        (Some p, Some n, Some c, Some cur, Some q) \<Rightarrow>
          (case (zod_optional (zod_int 1) (pi_rpm i), zod_optional (zod_int 1) (pi_overage_unit i),
                 zod_optional (zod_int 1) (pi_overage_price i)) of
             (Some rpm, Some unit, Some price) \<Rightarrow>
               if overage_refinement i
               then Some (i\<lparr>pi_product := p, pi_name := n, pi_price := c, pi_currency := cur, pi_quota := q,
                            pi_rpm := rpm, pi_overage_unit := unit, pi_overage_price := price\<rparr>)
               else None
           | _ \<Rightarrow> None)
      | _ \<Rightarrow> None)"

definition list_active_plans :: "string \<Rightarrow> auth_user option \<Rightarrow> db \<Rightarrow> exn + plan_row list" where
  "list_active_plans pid user d =
     (case find_product pid d of
        None \<Rightarrow> Inl product_not_found
      | Some r \<Rightarrow>
          let owner = is_owner_or_admin (prod_owner r) user in
          if \<not> owner \<and> prod_status r \<noteq> PPublished then Inl product_not_public
          else if \<not> owner \<and> \<not> list_ex (\<lambda>v. ver_product v = pid \<and> ver_status v = VPublished) (versions d)
          then Inr []
          else Inr (find_many (\<lambda>p. - plan_created p) (\<lambda>p. plan_product p = pid \<and> plan_active p) (plans d)))"

definition bad_overage :: "string \<Rightarrow> exn" where
  "bad_overage m = AppError BAD_REQUEST m 400 []"

definition resolve_overage_config :: "create_plan_input \<Rightarrow> exn + (bool \<times> int option \<times> int option)" where
  "resolve_overage_config i =
     (if pi_allow_overage i \<noteq> Some True then
        (if pi_overage_unit i \<noteq> None \<or> pi_overage_price i \<noteq> None
         then Inl (bad_overage ''OVERAGE_FIELDS_REQUIRE_ALLOW_OVERAGE'') else Inr (False, None, None))
      else if pi_overage_unit i = None \<or> pi_overage_price i = None
      then Inl (bad_overage ''OVERAGE_UNIT_REQUESTS_AND_OVERAGE_PRICE_CENTS_REQUIRED'')
      else Inr (True, pi_overage_unit i, pi_overage_price i))"

definition new_plan :: "date \<Rightarrow> string \<Rightarrow> create_plan_input \<Rightarrow> bool \<times> int option \<times> int option \<Rightarrow> plan_row" where
  "new_plan now plid i ov = \<lparr>plan_id = plid, plan_product = pi_product i, plan_name = pi_name i,
     plan_price_cents = pi_price i, plan_currency = (case pi_currency i of None \<Rightarrow> ''EUR'' | Some c \<Rightarrow> c),
     plan_per = (case pi_period i of None \<Rightarrow> MONTH | Some p \<Rightarrow> p), plan_quota = pi_quota i, plan_rpm = pi_rpm i,
     plan_allow_overage = fst ov, plan_overage_unit = fst (snd ov), plan_overage_price = snd (snd ov),
     plan_active = (case pi_active i of None \<Rightarrow> True | Some b \<Rightarrow> b), plan_created = now\<rparr>"

definition forbidden_role :: exn where
  "forbidden_role = AppError FORBIDDEN_ROLE ''FORBIDDEN_ROLE'' 403 []"

definition create_plan :: "date \<Rightarrow> string \<Rightarrow> create_plan_input \<Rightarrow> auth_user \<Rightarrow> (db, plan_row) prog" where
  "create_plan now plid i user =
     (if au_role user \<noteq> SELLER \<and> au_role user \<noteq> ADMIN then raise forbidden_role
      else bnd (gets (find_product (pi_product i))) (\<lambda>found.
        case found of
          None \<Rightarrow> raise product_not_found
        | Some r \<Rightarrow>
            if au_role user = SELLER \<and> prod_owner r \<noteq> au_id user then raise not_owner
            else bnd (from_result (resolve_overage_config i)) (\<lambda>ov.
                 bnd (insert_plan (new_plan now plid i ov)) (\<lambda>_. ret (new_plan now plid i ov)))))"

text \<open>What the schema lets through passes the check of the service: its two errors are not reachable
  through the controller.\<close>

lemma overage_refinement_resolves: "overage_refinement i \<Longrightarrow> \<exists>ov. resolve_overage_config i = Inr ov"
  by (auto simp: overage_refinement_def resolve_overage_config_def split: if_splits)

lemma zod_int_Some: "zod_int lo n = Some m \<longleftrightarrow> m = n \<and> lo \<le> n \<and> n < 2 ^ 53"
  by (auto simp: zod_int_def)

lemma create_plan_schema_Some:
  assumes "create_plan_schema i = Some j"
  shows "2 \<le> length (pi_name j)" "length (pi_name j) \<le> 60" "0 \<le> pi_price j" "1 \<le> pi_quota j"
    "case_option True (\<lambda>c. c \<noteq> [] \<and> length c \<le> 10) (pi_currency j)" "case_option True (\<lambda>n. 1 \<le> n) (pi_rpm j)"
    "case_option True (\<lambda>n. 1 \<le> n) (pi_overage_unit j)" "case_option True (\<lambda>n. 1 \<le> n) (pi_overage_price j)"
    "pi_product j \<noteq> []" "overage_refinement j"
proof -
  obtain p n c cur q rpm unit price where *:
    "zod_nonempty (pi_product i) = Some p" "zod_text 2 60 (pi_name i) = Some n" "zod_int 0 (pi_price i) = Some c"
    "zod_optional (zod_text 1 10) (pi_currency i) = Some cur" "zod_int 1 (pi_quota i) = Some q"
    "zod_optional (zod_int 1) (pi_rpm i) = Some rpm" "zod_optional (zod_int 1) (pi_overage_unit i) = Some unit"
    "zod_optional (zod_int 1) (pi_overage_price i) = Some price" "overage_refinement i"
    "j = i\<lparr>pi_product := p, pi_name := n, pi_price := c, pi_currency := cur, pi_quota := q,
             pi_rpm := rpm, pi_overage_unit := unit, pi_overage_price := price\<rparr>"
    using assms by (auto simp: create_plan_schema_def split: option.splits if_splits)
  note facts = * [unfolded zod_text_Some zod_int_Some zod_optional_Some]
  show "2 \<le> length (pi_name j)" "length (pi_name j) \<le> 60" "0 \<le> pi_price j" "1 \<le> pi_quota j"
    "case_option True (\<lambda>c. c \<noteq> [] \<and> length c \<le> 10) (pi_currency j)" "case_option True (\<lambda>n. 1 \<le> n) (pi_rpm j)"
    "case_option True (\<lambda>n. 1 \<le> n) (pi_overage_unit j)" "case_option True (\<lambda>n. 1 \<le> n) (pi_overage_price j)"
    using facts by auto
  show "pi_product j \<noteq> []" using *(1,10) by (auto simp: zod_nonempty_def Let_def split: if_splits)
  show "overage_refinement j"
    using facts by (auto simp: overage_refinement_def split: if_splits)
qed

end
