(* ===== verification/Keys.thy ===== *)
theory Keys
  imports Products Usage
begin

text \<open>
  \<open>src/modules/keys/keys.service.ts\<close>: the API keys of a user. Only the salted hash of a key is
  stored; the random bytes and SHA-256 are parameters.
\<close>

definition create_key_schema :: "string \<Rightarrow> string option" where
  "create_key_schema = zod_text 1 60"

record created_key =
  ck_id :: string
  ck_label :: string
  ck_raw :: string
  ck_created :: date

definition new_key :: "(string \<Rightarrow> string) \<Rightarrow> usage_config \<Rightarrow> date \<Rightarrow> string \<Rightarrow> string \<Rightarrow> string \<Rightarrow> auth_user \<Rightarrow> api_key_row" where
  "new_key sha cfg now kid raw label user = \<lparr>key_id = kid, key_user = au_id user,
     key_hash = hash_api_key sha raw (api_key_salt cfg), key_active = True, key_revoked = None,
     key_label = label, key_created = now\<rparr>"

definition create_key ::
  "(string \<Rightarrow> string) \<Rightarrow> usage_config \<Rightarrow> date \<Rightarrow> string \<Rightarrow> string \<Rightarrow> string \<Rightarrow> auth_user \<Rightarrow> (db, created_key) prog" where
  "create_key sha cfg now kid random_bytes label user =
     (let raw = generate_raw_api_key random_bytes in
      bnd (insert_key (new_key sha cfg now kid raw label user)) (\<lambda>_.
      ret \<lparr>ck_id = kid, ck_label = label, ck_raw = raw, ck_created = now\<rparr>))"

text \<open>An item of the list: id, label, active, created, revoked.\<close>

definition list_keys :: "auth_user \<Rightarrow> db \<Rightarrow> (string \<times> string \<times> bool \<times> date \<times> date option) list" where
  "list_keys user d = map (\<lambda>k. (key_id k, key_label k, key_active k, key_created k, key_revoked k))
     (find_many (\<lambda>k. - key_created k) (\<lambda>k. key_user k = au_id user) (api_keys d))"

definition key_not_found :: exn where
  "key_not_found = AppError KEY_NOT_FOUND ''KEY_NOT_FOUND'' 404 []"

definition revoked :: "date \<Rightarrow> api_key_row \<Rightarrow> api_key_row" where
  "revoked now k = k\<lparr>key_active := False, key_revoked := Some now\<rparr>"

definition find_key :: "string \<Rightarrow> db \<Rightarrow> api_key_row option" where
  "find_key kid d = find_unique (\<lambda>k. key_id k = kid) (api_keys d)"

definition revoke_key :: "date \<Rightarrow> string \<Rightarrow> auth_user \<Rightarrow> (db, string) prog" where
  "revoke_key now kid user =
     bnd (gets (find_key kid)) (\<lambda>found.
     case found of
       None \<Rightarrow> raise key_not_found
     | Some k \<Rightarrow>
         if au_role user \<noteq> ADMIN \<and> key_user k \<noteq> au_id user then raise not_owner
         else if \<not> key_active k \<or> key_revoked k \<noteq> None then ret (key_id k)
         else bnd (modify_key kid (revoked now)) (\<lambda>_. ret (key_id k)))"

lemma find_key_Some: "find_key kid d = Some k \<Longrightarrow> k \<in> set (api_keys d) \<and> key_id k = kid"
  using find_unique_Some by (fastforce simp: find_key_def)

text \<open>A user of the database is given a key whenever the drawn id is new.\<close>

lemma create_key_succeeds:
  assumes "user_exists d (au_id user)" "kid \<notin> key_id ` set (api_keys d)"
  obtains c d1 where "create_key sha cfg now kid random label user d = (Inr c, d1)"
proof -
  let ?k = "new_key sha cfg now kid (generate_raw_api_key random) label user"
  have "insert_unique key_viol ?k (api_keys d) = Inr (api_keys d @ [?k])"
    unfolding insert_unique_Inr using assms(2) by (auto simp: key_viol_def new_key_def)
  moreover have "user_exists d (key_user ?k)" using assms(1) by (simp add: new_key_def)
  ultimately have "insert_key ?k d = (Inr (), d\<lparr>api_keys := api_keys d @ [?k]\<rparr>)"
    by (simp add: insert_key_def insert_row_def writes_def)
  then show ?thesis by (intro that) (simp add: create_key_def Let_def bnd_def ret_def)
qed

lemma revoked_frame [simp]:
  "key_id (revoked now k) = key_id k" "key_user (revoked now k) = key_user k"
  "key_hash (revoked now k) = key_hash k" "key_label (revoked now k) = key_label k"
  "\<not> key_active (revoked now k)" "key_revoked (revoked now k) = Some now"
  by (simp_all add: revoked_def)

end
