(* ===== verification/Accounts.thy ===== *)
theory Accounts
  imports CatalogRows Requests
begin

text \<open>
  \<open>src/modules/auth/auth.service.ts\<close> and \<open>src/modules/users/users.service.ts\<close>: registration,
  sessions (one refresh token row per session, rotated at every use), roles and passwords.
  \<open>bcrypt\<close> and \<open>jsonwebtoken\<close> are the parameter record \<open>auth_platform\<close>: a hash takes the salt it draws;
  verifying a token gives \<open>None\<close> when it throws (bad signature, expired) or has a text payload. The
  laws the proofs use of them are \<open>sound_platform\<close>.
\<close>

record refresh_payload =
  rp_rtid :: "string option"
  rp_sub :: "string option"

record auth_platform =
  au_hash :: "string \<Rightarrow> string \<Rightarrow> string"
  au_compare :: "string \<Rightarrow> string \<Rightarrow> bool"
  au_sign_access :: "access_payload \<Rightarrow> date \<Rightarrow> string"
  au_sign_refresh :: "refresh_payload \<Rightarrow> date \<Rightarrow> string"
  au_verify_refresh :: "string \<Rightarrow> date \<Rightarrow> refresh_payload option"
  au_valid_email :: "string \<Rightarrow> bool"
  au_refresh_ttl :: int

text \<open>What one request draws: clock, token id, user id and salt.\<close>

record auth_env =
  ae_now :: date
  ae_token_id :: string
  ae_user_id :: string
  ae_salt :: string

definition unauthorized_error :: "string \<Rightarrow> exn" where
  "unauthorized_error m = AppError UNAUTHORIZED m 401 []"

section \<open>Schemas\<close>

record register_input =
  rg_email :: string
  rg_password :: string
  rg_role :: "role option"

record login_input =
  lg_email :: string
  lg_password :: string

definition email_schema :: "auth_platform \<Rightarrow> string \<Rightarrow> string option" where
  "email_schema pf s = (let e = to_lower_case (js_trim s) in if au_valid_email pf e then Some e else None)"

definition register_schema :: "auth_platform \<Rightarrow> register_input \<Rightarrow> register_input option" where
  "register_schema pf i = (case email_schema pf (rg_email i) of None \<Rightarrow> None
     | Some e \<Rightarrow>
         if length (rg_password i) < 8 \<or> rg_role i = Some ADMIN then None
         else Some \<lparr>rg_email = e, rg_password = rg_password i,
                    rg_role = Some (case rg_role i of None \<Rightarrow> BUYER | Some r \<Rightarrow> r)\<rparr>)"

definition login_schema :: "auth_platform \<Rightarrow> login_input \<Rightarrow> login_input option" where
  "login_schema pf i = (case email_schema pf (lg_email i) of None \<Rightarrow> None
     | Some e \<Rightarrow> if lg_password i = [] then None else Some \<lparr>lg_email = e, lg_password = lg_password i\<rparr>)"

section \<open>Registration and sessions\<close>

definition find_user_by_email :: "string \<Rightarrow> db \<Rightarrow> user_row option" where
  "find_user_by_email e d = find_unique (\<lambda>u. usr_email u = e) (users d)"

definition find_user :: "string \<Rightarrow> db \<Rightarrow> user_row option" where
  "find_user uid d = find_unique (\<lambda>u. usr_id u = uid) (users d)"

definition new_user :: "auth_platform \<Rightarrow> auth_env \<Rightarrow> register_input \<Rightarrow> user_row" where
  "new_user pf env i = \<lparr>usr_id = ae_user_id env, usr_email = rg_email i, usr_role = the (rg_role i),
     usr_stripe_customer = None, usr_password = au_hash pf (ae_salt env) (rg_password i), usr_created = ae_now env\<rparr>"

definition register :: "auth_platform \<Rightarrow> auth_env \<Rightarrow> register_input \<Rightarrow> (db, auth_user) prog" where
  "register pf env input =
     bnd (from_result (zod_pipe (register_schema pf) input)) (\<lambda>i.
     bnd (gets (find_user_by_email (rg_email i))) (\<lambda>existing.
     if existing \<noteq> None then raise (AppError CONFLICT ''EMAIL_ALREADY_EXISTS'' 409 [])
     else
       bnd (create_user (new_user pf env i)) (\<lambda>_.
       ret \<lparr>au_id = ae_user_id env, au_email = rg_email i, au_role = the (rg_role i)\<rparr>)))"

definition create_access_token :: "auth_platform \<Rightarrow> auth_env \<Rightarrow> user_row \<Rightarrow> string" where
  "create_access_token pf env u = au_sign_access pf
     \<lparr>ap_sub = Some (usr_id u), ap_email = Some (usr_email u), ap_role = Some (usr_role u)\<rparr> (ae_now env)"

definition refresh_token_text :: "auth_platform \<Rightarrow> auth_env \<Rightarrow> user_row \<Rightarrow> string" where
  "refresh_token_text pf env u = au_sign_refresh pf
     \<lparr>rp_rtid = Some (ae_token_id env), rp_sub = Some (usr_id u)\<rparr> (ae_now env)"

text \<open>The end of \<open>login\<close> and of \<open>refresh\<close>: \<open>createRefreshToken\<close> and the row with the hash of the token.
  The pair is the access token and the refresh token.\<close>

definition open_session :: "auth_platform \<Rightarrow> auth_env \<Rightarrow> user_row \<Rightarrow> (db, string \<times> string) prog" where
  "open_session pf env u =
     bnd (delete_refresh_tokens (\<lambda>t. rt_user t = usr_id u)) (\<lambda>_.
     let token = refresh_token_text pf env u in
     bnd (create_refresh_token \<lparr>rt_id = ae_token_id env, rt_user = usr_id u,
            rt_hash = au_hash pf (ae_salt env) token, rt_expires = ae_now env + au_refresh_ttl pf * 1000\<rparr>) (\<lambda>_.
     ret (create_access_token pf env u, token)))"

definition login :: "auth_platform \<Rightarrow> auth_env \<Rightarrow> login_input \<Rightarrow> (db, string \<times> string) prog" where
  "login pf env input =
     bnd (from_result (zod_pipe (login_schema pf) input)) (\<lambda>i.
     bnd (gets (find_user_by_email (lg_email i))) (\<lambda>found.
     case found of
       None \<Rightarrow> raise (unauthorized_error ''INVALID_CREDENTIALS'')
     | Some u \<Rightarrow>
         if \<not> au_compare pf (lg_password i) (usr_password u)
         then raise (unauthorized_error ''INVALID_CREDENTIALS'')
         else open_session pf env u))"

text \<open>A refresh token row with its user.\<close>

definition find_refresh_token :: "string \<Rightarrow> db \<Rightarrow> (refresh_token_row \<times> user_row) option" where
  "find_refresh_token tid d = (case find_unique (\<lambda>t. rt_id t = tid) (refresh_tokens d) of None \<Rightarrow> None
     | Some t \<Rightarrow> (case find_user (rt_user t) d of None \<Rightarrow> None | Some u \<Rightarrow> Some (t, u)))"

definition verify_refresh_token :: "auth_platform \<Rightarrow> auth_env \<Rightarrow> string \<Rightarrow> exn + refresh_payload" where
  "verify_refresh_token pf env token = (case au_verify_refresh pf token (ae_now env) of
     None \<Rightarrow> Inl (unauthorized_error ''UNAUTHORIZED'') | Some p \<Rightarrow> Inr p)"

definition refresh :: "auth_platform \<Rightarrow> auth_env \<Rightarrow> string \<Rightarrow> (db, string \<times> string) prog" where
  "refresh pf env token =
     (if token = [] then raise (unauthorized_error ''UNAUTHORIZED'')
      else bnd (from_result (verify_refresh_token pf env token)) (\<lambda>payload.
        if \<not> js_truthy_str (rp_rtid payload) then raise (unauthorized_error ''UNAUTHORIZED'')
        else bnd (gets (find_refresh_token (the (rp_rtid payload)))) (\<lambda>stored.
          case stored of
            None \<Rightarrow> raise (unauthorized_error ''UNAUTHORIZED'')
          | Some (t, u) \<Rightarrow>
              if rt_expires t \<le> ae_now env
              then bnd (delete_refresh_tokens (\<lambda>t'. rt_id t' = rt_id t)) (\<lambda>_.
                   raise (unauthorized_error ''UNAUTHORIZED''))
              else if \<not> au_compare pf token (rt_hash t)
              then bnd (delete_refresh_tokens (\<lambda>t'. rt_user t' = rt_user t)) (\<lambda>_.
                   raise (unauthorized_error ''UNAUTHORIZED''))
              else open_session pf env u)))"

definition logout :: "auth_platform \<Rightarrow> auth_env \<Rightarrow> string option \<Rightarrow> (db, unit) prog" where
  "logout pf env token =
     (if \<not> js_truthy_str token then ret ()
      else try_catch
        (bnd (from_result (verify_refresh_token pf env (the token))) (\<lambda>payload.
          if \<not> js_truthy_str (rp_rtid payload) then ret ()
          else delete_refresh_tokens (\<lambda>t. rt_id t = the (rp_rtid payload))))
        (\<lambda>e. ret ()))"

section \<open>The profile of a user\<close>

definition user_not_found :: exn where
  "user_not_found = AppError NOT_FOUND ''USER_NOT_FOUND'' 404 []"

definition user_me :: "user_row \<Rightarrow> auth_user" where
  "user_me u = \<lparr>au_id = usr_id u, au_email = usr_email u, au_role = usr_role u\<rparr>"

definition get_me :: "string \<Rightarrow> db \<Rightarrow> exn + auth_user" where
  "get_me uid d = (case find_user uid d of None \<Rightarrow> Inl user_not_found | Some u \<Rightarrow> Inr (user_me u))"

definition update_my_role :: "string \<Rightarrow> role \<Rightarrow> (db, auth_user) prog" where
  "update_my_role uid target =
     bnd (gets (find_user uid)) (\<lambda>found.
     case found of
       None \<Rightarrow> raise user_not_found
     | Some u \<Rightarrow>
         if target \<noteq> SELLER then raise (AppError FORBIDDEN_ROLE ''FORBIDDEN_ROLE'' 403 [])
         else if usr_role u = SELLER then ret (user_me u)
         else if usr_role u \<noteq> BUYER then raise (AppError FORBIDDEN_ROLE ''FORBIDDEN_ROLE'' 403 [])
         else bnd (update_user uid (\<lambda>u. u\<lparr>usr_role := SELLER\<rparr>)) (\<lambda>_.
              ret (user_me (u\<lparr>usr_role := SELLER\<rparr>))))"

record profile_summary =
  ps_subscriptions_total :: int
  ps_subscriptions_active :: int
  ps_api_keys_active :: int
  ps_products_total :: int
  ps_products_published :: int
  ps_can_upgrade :: bool

definition count_where :: "('r \<Rightarrow> bool) \<Rightarrow> 'r list \<Rightarrow> int" where
  "count_where p rows = int (length (filter p rows))"

definition get_profile_summary :: "string \<Rightarrow> db \<Rightarrow> exn + profile_summary" where
  "get_profile_summary uid d = (case find_user uid d of None \<Rightarrow> Inl user_not_found
     | Some u \<Rightarrow>
         let count_products = (usr_role u = SELLER \<or> usr_role u = ADMIN) in
         Inr \<lparr>ps_subscriptions_total = count_where (\<lambda>s. sub_user s = usr_id u) (subs d),
              ps_subscriptions_active = count_where (\<lambda>s. sub_user s = usr_id u \<and> sub_status s = ACTIVE) (subs d),
              ps_api_keys_active = count_where (\<lambda>k. key_user k = usr_id u \<and> key_active k) (api_keys d),
              ps_products_total = (if count_products then count_where (\<lambda>r. prod_owner r = usr_id u) (products d) else 0),
              ps_products_published = (if count_products
                then count_where (\<lambda>r. prod_owner r = usr_id u \<and> prod_status r = PPublished) (products d) else 0),
              ps_can_upgrade = (usr_role u = BUYER)\<rparr>)"

record change_password_input =
  cw_current :: string
  cw_new :: string

definition change_password_schema :: "change_password_input \<Rightarrow> change_password_input option" where
  "change_password_schema i =
     (if cw_current i = [] \<or> length (cw_new i) < 8 \<or> cw_current i = cw_new i then None else Some i)"

definition change_password :: "auth_platform \<Rightarrow> auth_env \<Rightarrow> string \<Rightarrow> change_password_input \<Rightarrow> (db, unit) prog" where
  "change_password pf env uid i =
     bnd (gets (find_user uid)) (\<lambda>found.
     case found of
       None \<Rightarrow> raise user_not_found
     | Some u \<Rightarrow>
         if \<not> au_compare pf (cw_current i) (usr_password u)
         then raise (unauthorized_error ''INVALID_CURRENT_PASSWORD'')
         else tx (bnd (update_user uid (\<lambda>u. u\<lparr>usr_password := au_hash pf (ae_salt env) (cw_new i)\<rparr>)) (\<lambda>_.
                  delete_refresh_tokens (\<lambda>t. rt_user t = uid))))"

section \<open>Sessions\<close>

text \<open>The laws of \<open>bcrypt\<close> and \<open>jsonwebtoken\<close>: a hash verifies what was hashed, and a signed refresh
  token verifies to its payload until its lifetime ends.\<close>

definition sound_platform :: "auth_platform \<Rightarrow> bool" where
  "sound_platform pf \<longleftrightarrow> (\<forall>salt p. au_compare pf p (au_hash pf salt p))
     \<and> (\<forall>p t t'. t' < t + au_refresh_ttl pf * 1000 \<longrightarrow>
          au_sign_refresh pf p t \<noteq> [] \<and> au_verify_refresh pf (au_sign_refresh pf p t) t' = Some p)"

lemma delete_refresh_tokens_run:
  "delete_refresh_tokens p d = (Inr (), d\<lparr>refresh_tokens := filter (\<lambda>r. \<not> p r) (refresh_tokens d)\<rparr>)"
  by (simp add: delete_refresh_tokens_def writes_def)

lemma find_user_Some: "find_user uid d = Some u \<Longrightarrow> u \<in> set (users d) \<and> usr_id u = uid"
  using find_unique_Some by (fastforce simp: find_user_def)

lemma find_refresh_token_Some:
  "find_refresh_token tid d = Some (t, u) \<Longrightarrow>
   t \<in> set (refresh_tokens d) \<and> rt_id t = tid \<and> find_user (rt_user t) d = Some u \<and> usr_id u = rt_user t"
  using find_unique_Some find_user_Some by (fastforce simp: find_refresh_token_def split: option.splits)

text \<open>Opening a session leaves the user exactly one row, or none when the row is refused.\<close>

lemma open_session_cases:
  assumes "open_session pf env u d = (res, d')"
  defines "others \<equiv> filter (\<lambda>t. rt_user t \<noteq> usr_id u) (refresh_tokens d)"
  defines "row \<equiv> \<lparr>rt_id = ae_token_id env, rt_user = usr_id u,
    rt_hash = au_hash pf (ae_salt env) (refresh_token_text pf env u),
    rt_expires = ae_now env + au_refresh_ttl pf * 1000\<rparr>"
  obtains e where "res = Inl e" "d' = d\<lparr>refresh_tokens := others\<rparr>"
  | "res = Inr (create_access_token pf env u, refresh_token_text pf env u)"
    "d' = d\<lparr>refresh_tokens := others @ [row]\<rparr>" "\<forall>t \<in> set others. rt_id t \<noteq> ae_token_id env"
    "usr_id u \<in> usr_id ` set (users d)"
proof -
  obtain r d1 where c: "create_refresh_token row (d\<lparr>refresh_tokens := others\<rparr>) = (r, d1)" by (rule prod.exhaust)
  have run: "(res, d') = (case r of Inl e \<Rightarrow> (Inl e, d1)
      | Inr _ \<Rightarrow> (Inr (create_access_token pf env u, refresh_token_text pf env u), d1))"
    using assms(1) c unfolding others_def row_def
    by (simp add: open_session_def bnd_def delete_refresh_tokens_run Let_def ret_def split: sum.splits)
  from c [unfolded create_refresh_token_def] show ?thesis
  proof (cases rule: insert_row_cases)
    case (1 e)
    then show ?thesis using run that(1) by simp
  next
    case 2
    have "\<forall>t \<in> set others. token_viol row t = None" using 2(4) unfolding insert_unique_Inr by simp
    then have "\<forall>t \<in> set others. rt_id t \<noteq> ae_token_id env"
      by (auto simp: token_viol_def row_def split: if_splits)
    moreover have "usr_id u \<in> usr_id ` set (users d)"
      using 2(3) unfolding user_exists_iff row_def by simp
    ultimately show ?thesis using 2(1,2) run that(2) by simp
  qed
qed

end
