(* ===== verification/Admin.thy ===== *)
theory Admin
  imports Versions Keys
begin

text \<open>
  \<open>src/common/observability/audit-log.service.ts\<close> and the operations of
  \<open>src/modules/admin/admin.service.ts\<close> that change the catalog: hiding a product or a version and
  revoking a key, each with its audit record in one transaction.
\<close>

section \<open>Audit log\<close>

record audit_input =
  ri_actor :: "auth_user option"
  ri_action :: string
  ri_resource :: string
  ri_resource_id :: string
  ri_details :: "(string \<times> scalar) list"

definition audit_row_of :: "date \<Rightarrow> string option \<Rightarrow> audit_input \<Rightarrow> audit_row" where
  "audit_row_of now request_id i = \<lparr>log_request = request_id,
     log_actor = map_option (\<lambda>u. (au_id u, au_email u, au_role u)) (ri_actor i),
     log_action = ri_action i, log_resource = ri_resource i, log_resource_id = ri_resource_id i,
     log_details = ri_details i, log_created = now\<rparr>"

definition record_with_client :: "date \<Rightarrow> string option \<Rightarrow> audit_input \<Rightarrow> (db, unit) prog" where
  "record_with_client now request_id i = insert_audit (audit_row_of now request_id i)"

definition list_recent :: "nat \<Rightarrow> db \<Rightarrow> audit_row list" where
  "list_recent limit d = take limit (find_many (\<lambda>r. - log_created r) (\<lambda>r. True) (audit_logs d))"

definition list_audit_logs :: "int \<Rightarrow> db \<Rightarrow> audit_row list" where
  "list_audit_logs limit d = list_recent (nat limit) d"

section \<open>Operations of the administrator\<close>

fun product_status_text :: "product_status \<Rightarrow> string" where
  "product_status_text PDraft = ''DRAFT''"
| "product_status_text PPublished = ''PUBLISHED''"
| "product_status_text PHidden = ''HIDDEN''"

fun version_status_text :: "version_status \<Rightarrow> string" where
  "version_status_text VDraft = ''DRAFT''"
| "version_status_text VPublished = ''PUBLISHED''"

definition admin_audit ::
  "date \<Rightarrow> string option \<Rightarrow> auth_user \<Rightarrow> string \<Rightarrow> string \<Rightarrow> string \<Rightarrow> (string \<times> scalar) list \<Rightarrow> (db, unit) prog" where
  "admin_audit now request_id actor action resource rid details = record_with_client now request_id
     \<lparr>ri_actor = Some actor, ri_action = action, ri_resource = resource, ri_resource_id = rid, ri_details = details\<rparr>"

definition hide_product :: "date \<Rightarrow> string option \<Rightarrow> auth_user \<Rightarrow> string \<Rightarrow> (db, string) prog" where
  "hide_product now request_id actor pid =
     bnd (gets (find_product pid)) (\<lambda>found.
     case found of
       None \<Rightarrow> raise product_not_found
     | Some r \<Rightarrow>
         let changed = (prod_status r \<noteq> PHidden) in
         bnd (tx (bnd (if changed then modify_product now (prod_id r) (\<lambda>r. r\<lparr>prod_status := PHidden\<rparr>) else ret ()) (\<lambda>_.
                  admin_audit now request_id actor ''ADMIN_HIDE_PRODUCT'' ''API_PRODUCT'' (prod_id r)
                    [(''changed'', SBool changed), (''previousStatus'', SStr (product_status_text (prod_status r))),
                     (''nextStatus'', SStr ''HIDDEN'')]))) (\<lambda>_.
         ret (prod_id r)))"

definition find_version_row :: "string \<Rightarrow> db \<Rightarrow> version_row option" where
  "find_version_row vid d = find_unique (\<lambda>v. ver_id v = vid) (versions d)"

definition hide_version :: "date \<Rightarrow> string option \<Rightarrow> auth_user \<Rightarrow> string \<Rightarrow> (db, string) prog" where
  "hide_version now request_id actor vid =
     bnd (gets (find_version_row vid)) (\<lambda>found.
     case found of
       None \<Rightarrow> raise version_not_found
     | Some v \<Rightarrow>
         let changed = (ver_status v \<noteq> VDraft) in
         bnd (tx (bnd (if changed then modify_version (ver_id v) (\<lambda>v. v\<lparr>ver_status := VDraft\<rparr>) else ret ()) (\<lambda>_.
                  admin_audit now request_id actor ''ADMIN_HIDE_VERSION'' ''API_VERSION'' (ver_id v)
                    [(''changed'', SBool changed), (''previousStatus'', SStr (version_status_text (ver_status v))),
                     (''nextStatus'', SStr ''DRAFT'')]))) (\<lambda>_.
         ret (ver_id v)))"

definition admin_revoke_key :: "date \<Rightarrow> string option \<Rightarrow> auth_user \<Rightarrow> string \<Rightarrow> (db, string) prog" where
  "admin_revoke_key now request_id actor kid =
     bnd (gets (find_key kid)) (\<lambda>found.
     case found of
       None \<Rightarrow> raise key_not_found
     | Some k \<Rightarrow>
         let changed = (key_active k \<and> key_revoked k = None) in
         bnd (tx (bnd (if changed then modify_key (key_id k) (revoked now) else ret ()) (\<lambda>_.
                  admin_audit now request_id actor ''ADMIN_REVOKE_KEY'' ''API_KEY'' (key_id k)
                    [(''changed'', SBool changed), (''wasActive'', SBool (key_active k)),
                     (''previousRevokedAt'', case key_revoked k of None \<Rightarrow> SNull | Some t \<Rightarrow> SStr (to_iso_string t))]))) (\<lambda>_.
         ret (key_id k)))"

end
