(* ===== verification/Controllers.thy ===== *)
theory Controllers
  imports Plans Keys Accounts Admin
begin

text \<open>
  The handlers of the catalog, plan, key, user, authentication and administration controllers: guards,
  validation and service in the order the decorators apply them. \<open>serve\<close> dispatches a request to its
  handler and drops the answer.
\<close>

section \<open>Guards and pipes around a handler\<close>

text \<open>What one request reads from outside: token verification, authentication platform, hashing,
  the database's case-insensitive search, configuration, clocks, the id and the random bytes it draws.\<close>

record http_env =
  he_verify :: "string \<Rightarrow> access_payload option"
  he_auth :: auth_platform
  he_auth_env :: auth_env
  he_version :: version_env
  he_sha256 :: "string \<Rightarrow> string"
  he_contains :: "string \<Rightarrow> string \<Rightarrow> bool"
  he_usage :: usage_config
  he_now :: date
  he_id :: string
  he_random :: string
  he_request_id :: "string option"
  he_cookie_secure :: bool
  he_cookie_domain :: "string option"

definition as_user ::
  "http_env \<Rightarrow> string option \<Rightarrow> role list \<Rightarrow> (auth_user \<Rightarrow> (db, 'a) prog) \<Rightarrow> (db, 'a) prog" where
  "as_user env header roles f =
     bnd (from_result (jwt_guard (he_verify env) header)) (\<lambda>u.
     bnd (from_result (roles_guard roles (Some u))) (\<lambda>_. f u))"

definition as_guest ::
  "http_env \<Rightarrow> string option \<Rightarrow> (auth_user option \<Rightarrow> (db, 'a) prog) \<Rightarrow> (db, 'a) prog" where
  "as_guest env header f = bnd (from_result (optional_jwt_guard (he_verify env) header)) f"

definition validated :: "('a \<Rightarrow> 'b option) \<Rightarrow> 'a \<Rightarrow> ('b \<Rightarrow> (db, 'c) prog) \<Rightarrow> (db, 'c) prog" where
  "validated schema body f = bnd (from_result (zod_pipe schema body)) f"

definition reading :: "(db \<Rightarrow> exn + 'a) \<Rightarrow> (db, 'a) prog" where
  "reading f = (\<lambda>d. (f d, d))"

definition no_answer :: "(db, 'a) prog \<Rightarrow> (db, unit) prog" where
  "no_answer m = bnd m (\<lambda>_. ret ())"

section \<open>Catalog\<close>

definition get_products :: "http_env \<Rightarrow> product_query \<Rightarrow> (db, product_row page) prog" where
  "get_products env query = reading (list_products (he_contains env) query)"

definition get_my_products :: "http_env \<Rightarrow> string option \<Rightarrow> product_query \<Rightarrow> (db, product_row page) prog" where
  "get_my_products env h query = as_user env h [SELLER, ADMIN] (\<lambda>u.
     reading (list_my_products (he_contains env) query u))"

definition get_product :: "http_env \<Rightarrow> string option \<Rightarrow> string \<Rightarrow> (db, product_row) prog" where
  "get_product env h pid = as_guest env h (\<lambda>u. get_product_by_id (he_now env) pid u)"

definition get_product_versions :: "http_env \<Rightarrow> string option \<Rightarrow> string \<Rightarrow> (db, version_dto list) prog" where
  "get_product_versions env h pid = as_guest env h (\<lambda>u. reading (list_product_versions pid u))"

definition post_product :: "http_env \<Rightarrow> string option \<Rightarrow> create_product_input \<Rightarrow> (db, product_row) prog" where
  "post_product env h body = as_user env h [SELLER, ADMIN] (\<lambda>u.
     validated create_product_schema body (\<lambda>i. create_product (he_now env) (he_id env) i u))"

definition patch_product ::
  "http_env \<Rightarrow> string option \<Rightarrow> string \<Rightarrow> update_product_input \<Rightarrow> (db, product_row) prog" where
  "patch_product env h pid body = as_user env h [SELLER, ADMIN] (\<lambda>u.
     validated update_product_schema body (\<lambda>i. update_product (he_now env) pid i u))"

definition post_version ::
  "http_env \<Rightarrow> string option \<Rightarrow> string \<Rightarrow> create_version_input \<Rightarrow> (db, version_dto) prog" where
  "post_version env h pid body = as_user env h [SELLER, ADMIN] (\<lambda>u.
     validated (create_version_schema (he_version env)) body (\<lambda>i.
       create_version (he_version env) (he_now env) (he_id env) pid i u))"

definition get_schema :: "http_env \<Rightarrow> string option \<Rightarrow> string \<Rightarrow> (db, version_schema) prog" where
  "get_schema env h vid = as_guest env h (\<lambda>u. reading (get_version_schema vid u))"

definition patch_version ::
  "http_env \<Rightarrow> string option \<Rightarrow> string \<Rightarrow> update_version_input \<Rightarrow> (db, version_dto) prog" where
  "patch_version env h vid body = as_user env h [SELLER, ADMIN] (\<lambda>u.
     validated (update_version_schema (he_version env)) body (\<lambda>i. update_version (he_version env) vid i u))"

definition get_plans :: "http_env \<Rightarrow> string option \<Rightarrow> string \<Rightarrow> (db, plan_row list) prog" where
  "get_plans env h product = as_guest env h (\<lambda>u.
     validated zod_nonempty product (\<lambda>pid. reading (list_active_plans pid u)))"

definition post_plan :: "http_env \<Rightarrow> string option \<Rightarrow> create_plan_input \<Rightarrow> (db, plan_row) prog" where
  "post_plan env h body = as_user env h [SELLER, ADMIN] (\<lambda>u.
     validated create_plan_schema body (\<lambda>i. create_plan (he_now env) (he_id env) i u))"

section \<open>Keys and users\<close>

definition post_key :: "http_env \<Rightarrow> string option \<Rightarrow> string \<Rightarrow> (db, created_key) prog" where
  "post_key env h label = as_user env h [] (\<lambda>u. validated create_key_schema label (\<lambda>l.
     create_key (he_sha256 env) (he_usage env) (he_now env) (he_id env) (he_random env) l u))"

definition get_keys ::
  "http_env \<Rightarrow> string option \<Rightarrow> (db, (string \<times> string \<times> bool \<times> date \<times> date option) list) prog" where
  "get_keys env h = as_user env h [] (\<lambda>u. reading (\<lambda>d. Inr (list_keys u d)))"

definition post_key_revoke :: "http_env \<Rightarrow> string option \<Rightarrow> string \<Rightarrow> (db, string) prog" where
  "post_key_revoke env h kid = as_user env h [] (\<lambda>u. revoke_key (he_now env) kid u)"

definition get_users_me :: "http_env \<Rightarrow> string option \<Rightarrow> (db, auth_user) prog" where
  "get_users_me env h = as_user env h [] (\<lambda>u. reading (get_me (au_id u)))"

definition get_users_profile :: "http_env \<Rightarrow> string option \<Rightarrow> (db, profile_summary) prog" where
  "get_users_profile env h = as_user env h [] (\<lambda>u. reading (get_profile_summary (au_id u)))"

definition post_users_role :: "http_env \<Rightarrow> string option \<Rightarrow> role \<Rightarrow> (db, auth_user) prog" where
  "post_users_role env h r = as_user env h [] (\<lambda>u.
     validated (\<lambda>r. if r = SELLER then Some r else None) r (\<lambda>r. update_my_role (au_id u) r))"

definition post_users_password :: "http_env \<Rightarrow> string option \<Rightarrow> change_password_input \<Rightarrow> (db, unit) prog" where
  "post_users_password env h body = as_user env h [] (\<lambda>u.
     validated change_password_schema body (\<lambda>i. change_password (he_auth env) (he_auth_env env) (au_id u) i))"

section \<open>Authentication\<close>

text \<open>The refresh token travels in a cookie: an answer is the access token and what happens to the cookie.\<close>

record cookie_options =
  co_http_only :: bool
  co_same_site :: string
  co_secure :: bool
  co_domain :: "string option"
  co_path :: string
  co_max_age :: int

datatype cookie_change = SetCookie string string cookie_options | ClearCookie string cookie_options

definition refresh_cookie_options :: "http_env \<Rightarrow> cookie_options" where
  "refresh_cookie_options env = \<lparr>co_http_only = True, co_same_site = ''lax'', co_secure = he_cookie_secure env,
     co_domain = (if js_truthy_str (he_cookie_domain env) then he_cookie_domain env else None),
     co_path = ''/'', co_max_age = au_refresh_ttl (he_auth env) * 1000\<rparr>"

definition set_refresh_cookie :: "http_env \<Rightarrow> string \<Rightarrow> cookie_change" where
  "set_refresh_cookie env token = SetCookie ''refreshToken'' token (refresh_cookie_options env)"

definition post_register :: "http_env \<Rightarrow> register_input \<Rightarrow> (db, auth_user) prog" where
  "post_register env body =
     validated (register_schema (he_auth env)) body (\<lambda>i. register (he_auth env) (he_auth_env env) i)"

definition post_login :: "http_env \<Rightarrow> login_input \<Rightarrow> (db, string \<times> cookie_change) prog" where
  "post_login env body =
     validated (login_schema (he_auth env)) body (\<lambda>i.
       bnd (login (he_auth env) (he_auth_env env) i) (\<lambda>tokens.
       ret (fst tokens, set_refresh_cookie env (snd tokens))))"

definition post_refresh :: "http_env \<Rightarrow> string option \<Rightarrow> (db, string \<times> cookie_change) prog" where
  "post_refresh env cookie =
     bnd (refresh (he_auth env) (he_auth_env env) (case cookie of None \<Rightarrow> [] | Some t \<Rightarrow> t)) (\<lambda>tokens.
     ret (fst tokens, set_refresh_cookie env (snd tokens)))"

definition post_logout :: "http_env \<Rightarrow> string option \<Rightarrow> (db, cookie_change) prog" where
  "post_logout env cookie =
     bnd (logout (he_auth env) (he_auth_env env) cookie) (\<lambda>_.
     ret (ClearCookie ''refreshToken'' (refresh_cookie_options env)))"

section \<open>Administration\<close>

definition get_audit_logs :: "http_env \<Rightarrow> string option \<Rightarrow> int option \<Rightarrow> (db, audit_row list) prog" where
  "get_audit_logs env h limit = as_user env h [ADMIN] (\<lambda>_. reading (\<lambda>d.
     Inr (list_audit_logs (min (max (case limit of None \<Rightarrow> 50 | Some n \<Rightarrow> n) 1) 100) d)))"

definition post_hide_product :: "http_env \<Rightarrow> string option \<Rightarrow> string \<Rightarrow> (db, string) prog" where
  "post_hide_product env h pid = as_user env h [ADMIN] (\<lambda>u. hide_product (he_now env) (he_request_id env) u pid)"

definition post_hide_version :: "http_env \<Rightarrow> string option \<Rightarrow> string \<Rightarrow> (db, string) prog" where
  "post_hide_version env h vid = as_user env h [ADMIN] (\<lambda>u. hide_version (he_now env) (he_request_id env) u vid)"

definition post_admin_revoke :: "http_env \<Rightarrow> string option \<Rightarrow> string \<Rightarrow> (db, string) prog" where
  "post_admin_revoke env h kid = as_user env h [ADMIN] (\<lambda>u. admin_revoke_key (he_now env) (he_request_id env) u kid)"

section \<open>Requests\<close>

datatype catalog_request =
    ListProducts product_query
  | MyProducts product_query
  | ReadProduct string
  | ReadVersions string
  | ReadSchema string
  | ReadPlans string
  | ReadKeys
  | ReadMe
  | ReadProfile
  | ReadAuditLogs "int option"
  | CreateProduct create_product_input
  | UpdateProduct string update_product_input
  | CreateVersion string create_version_input
  | UpdateVersion string update_version_input
  | CreatePlan create_plan_input
  | CreateKey string
  | RevokeKey string
  | UpdateRole role
  | ChangePassword change_password_input
  | HideProduct string
  | HideVersion string
  | AdminRevokeKey string
  | Register register_input
  | Login login_input
  | Refresh "string option"
  | Logout "string option"

fun serve :: "http_env \<Rightarrow> string option \<Rightarrow> catalog_request \<Rightarrow> (db, unit) prog" where
  "serve env h (ListProducts q) = no_answer (get_products env q)"
| "serve env h (MyProducts q) = no_answer (get_my_products env h q)"
| "serve env h (ReadProduct pid) = no_answer (get_product env h pid)"
| "serve env h (ReadVersions pid) = no_answer (get_product_versions env h pid)"
| "serve env h (ReadSchema vid) = no_answer (get_schema env h vid)"
| "serve env h (ReadPlans pid) = no_answer (get_plans env h pid)"
| "serve env h ReadKeys = no_answer (get_keys env h)"
| "serve env h ReadMe = no_answer (get_users_me env h)"
| "serve env h ReadProfile = no_answer (get_users_profile env h)"
| "serve env h (ReadAuditLogs limit) = no_answer (get_audit_logs env h limit)"
| "serve env h (CreateProduct body) = no_answer (post_product env h body)"
| "serve env h (UpdateProduct pid body) = no_answer (patch_product env h pid body)"
| "serve env h (CreateVersion pid body) = no_answer (post_version env h pid body)"
| "serve env h (UpdateVersion vid body) = no_answer (patch_version env h vid body)"
| "serve env h (CreatePlan body) = no_answer (post_plan env h body)"
| "serve env h (CreateKey label) = no_answer (post_key env h label)"
| "serve env h (RevokeKey kid) = no_answer (post_key_revoke env h kid)"
| "serve env h (UpdateRole r) = no_answer (post_users_role env h r)"
| "serve env h (ChangePassword body) = no_answer (post_users_password env h body)"
| "serve env h (HideProduct pid) = no_answer (post_hide_product env h pid)"
| "serve env h (HideVersion vid) = no_answer (post_hide_version env h vid)"
| "serve env h (AdminRevokeKey kid) = no_answer (post_admin_revoke env h kid)"
| "serve env h (Register body) = no_answer (post_register env body)"
| "serve env h (Login body) = no_answer (post_login env body)"
| "serve env h (Refresh cookie) = no_answer (post_refresh env cookie)"
| "serve env h (Logout cookie) = no_answer (post_logout env cookie)"

section \<open>The services behind the guards\<close>

lemma no_answer_as_user: "no_answer (as_user env h roles f) = as_user env h roles (\<lambda>u. no_answer (f u))"
  by (simp add: no_answer_def as_user_def bnd_def fun_eq_iff split: prod.split sum.split)

lemma no_answer_as_guest: "no_answer (as_guest env h f) = as_guest env h (\<lambda>u. no_answer (f u))"
  by (simp add: no_answer_def as_guest_def bnd_def fun_eq_iff split: prod.split sum.split)

lemma no_answer_validated: "no_answer (validated schema body f) = validated schema body (\<lambda>i. no_answer (f i))"
  by (simp add: no_answer_def validated_def bnd_def fun_eq_iff split: prod.split sum.split)

lemma no_answer_ret: "no_answer (bnd m (\<lambda>x. ret (f x))) = no_answer m"
  by (simp add: no_answer_def bnd_def ret_def fun_eq_iff split: prod.split sum.split)

lemma no_answer_unit: "no_answer m = m" for m :: "(db, unit) prog"
  by (simp add: no_answer_def bnd_def ret_def fun_eq_iff split: prod.split sum.split)

lemmas handlers = get_products_def get_my_products_def get_product_def get_product_versions_def get_schema_def
  get_plans_def get_keys_def get_users_me_def get_users_profile_def get_audit_logs_def post_product_def
  patch_product_def post_version_def patch_version_def post_plan_def post_key_def post_key_revoke_def
  post_users_role_def post_users_password_def post_hide_product_def post_hide_version_def
  post_admin_revoke_def post_register_def post_login_def post_refresh_def post_logout_def

lemmas served = serve.simps [unfolded handlers no_answer_as_user no_answer_as_guest no_answer_validated
  no_answer_ret no_answer_unit]

declare serve.simps [simp del] served [simp]

end
