(* ===== verification/Catalog.thy ===== *)
theory Catalog
  imports Controllers
begin

text \<open>
  What every request of the controllers keeps of the tables: the catalog, the keys and the accounts
  stay well typed.
\<close>

section \<open>Well-typed rows\<close>

definition text_ok :: "nat \<Rightarrow> nat \<Rightarrow> string \<Rightarrow> bool" where
  "text_ok lo hi s \<longleftrightarrow> lo \<le> length s \<and> length s \<le> hi"

definition user_typed :: "user_row \<Rightarrow> bool" where
  "user_typed u \<longleftrightarrow> to_lower_case (usr_email u) = usr_email u"

definition product_typed :: "product_row \<Rightarrow> bool" where
  "product_typed r \<longleftrightarrow> text_ok 3 120 (prod_title r) \<and> text_ok 10 2000 (prod_description r)
     \<and> text_ok 2 60 (prod_category r) \<and> length (prod_tags r) \<le> 20 \<and> list_all (text_ok 1 30) (prod_tags r)"

text \<open>A version has its snapshot and the time of the snapshot together; a snapshot is within the limit.\<close>

definition version_typed :: "version_row \<Rightarrow> bool" where
  "version_typed v \<longleftrightarrow> text_ok 1 20 (ver_version v) \<and> text_ok 5 2048 (ver_openapi_url v)
     \<and> (ver_fetched v = None \<longleftrightarrow> ver_openapi_snapshot v = None)
     \<and> (case ver_openapi_snapshot v of None \<Rightarrow> True
        | Some s \<Rightarrow> js_trim s \<noteq> [] \<and> utf8_length s \<le> openapi_max_size_bytes)"

text \<open>The overage columns are null exactly when overage is not allowed, every count is positive and
  every number fits its column.\<close>

definition plan_typed :: "plan_row \<Rightarrow> bool" where
  "plan_typed p \<longleftrightarrow> text_ok 2 60 (plan_name p) \<and> text_ok 1 10 (plan_currency p) \<and> 0 \<le> plan_price_cents p
     \<and> 1 \<le> plan_quota p \<and> case_option True (\<lambda>n. 1 \<le> n) (plan_rpm p)
     \<and> (case (plan_overage_unit p, plan_overage_price p) of
          (None, None) \<Rightarrow> \<not> plan_allow_overage p
        | (Some n, Some c) \<Rightarrow> plan_allow_overage p \<and> 1 \<le> n \<and> 1 \<le> c
        | _ \<Rightarrow> False)
     \<and> plan_int4 p"

definition key_typed :: "api_key_row \<Rightarrow> bool" where
  "key_typed k \<longleftrightarrow> text_ok 1 60 (key_label k) \<and> (key_active k \<longleftrightarrow> key_revoked k = None)"

definition catalog_typed :: "db \<Rightarrow> bool" where
  "catalog_typed d \<longleftrightarrow>
     col_unique (\<lambda>u. Some (usr_id u)) (users d) \<and> col_unique (\<lambda>u. Some (usr_email u)) (users d)
     \<and> list_all user_typed (users d)
     \<and> col_unique (\<lambda>r. Some (prod_id r)) (products d) \<and> list_all (\<lambda>r. user_exists d (prod_owner r)) (products d)
     \<and> list_all product_typed (products d)
     \<and> col_unique (\<lambda>v. Some (ver_id v)) (versions d) \<and> col_unique (\<lambda>v. Some (ver_product v, ver_version v)) (versions d)
     \<and> list_all (\<lambda>v. product_exists d (ver_product v)) (versions d) \<and> list_all version_typed (versions d)
     \<and> col_unique (\<lambda>p. Some (plan_id p)) (plans d) \<and> list_all (\<lambda>p. product_exists d (plan_product p)) (plans d)
     \<and> list_all plan_typed (plans d)
     \<and> col_unique (\<lambda>k. Some (key_id k)) (api_keys d) \<and> list_all (\<lambda>k. user_exists d (key_user k)) (api_keys d)
     \<and> list_all key_typed (api_keys d)
     \<and> col_unique (\<lambda>t. Some (rt_id t)) (refresh_tokens d) \<and> col_unique (\<lambda>t. Some (rt_user t)) (refresh_tokens d)
     \<and> list_all (\<lambda>t. user_exists d (rt_user t)) (refresh_tokens d)"

section \<open>Every write keeps the types\<close>

definition typed_step :: "db \<Rightarrow> db \<Rightarrow> bool" where
  "typed_step d d' \<longleftrightarrow> (catalog_typed d \<longrightarrow> catalog_typed d')"

lemma typed_steps: "typed_step\<^sup>*\<^sup>* d d' \<Longrightarrow> catalog_typed d \<Longrightarrow> catalog_typed d'"
  by (induction rule: rtranclp_induct) (auto simp: typed_step_def)

lemmas typed_simps = typed_step_def catalog_typed_def list_all_iff user_exists_iff product_exists_iff

lemma keep_create_user [steps_intros]:
  assumes "user_typed r"
  shows "by_steps typed_step (create_user r)"
proof (rule by_steps_step)
  fix d res d' assume "create_user r d = (res, d')"
  then show "typed_step d d'" unfolding create_user_def
  proof (cases rule: insert_row_cases)
    case 2
    then show ?thesis using assms user_ids.insert_keeps_unique [OF 2(4)] user_emails.insert_keeps_unique [OF 2(4)]
      by (auto simp: typed_simps)
  qed (simp add: typed_step_def)
qed

lemma keep_update_user [steps_intros]:
  assumes "\<And>u. usr_id (g u) = usr_id u" "\<And>u. usr_email (g u) = usr_email u"
  shows "by_steps typed_step (update_user uid g)"
proof (rule by_steps_step)
  fix d res d' assume "update_user uid g d = (res, d')"
  then show "typed_step d d'" unfolding update_user_def
  proof (cases rule: update_row_cases)
    case 2
    let ?us = "map (\<lambda>r. if usr_id r = uid then g r else r) (users d)"
    have ids: "usr_id ` set ?us = usr_id ` set (users d)"
      unfolding set_map [symmetric] by (subst map_key_update) (simp_all add: assms)
    have "col_unique (\<lambda>u. Some (usr_id u)) ?us = col_unique (\<lambda>u. Some (usr_id u)) (users d)"
      "col_unique (\<lambda>u. Some (usr_email u)) ?us = col_unique (\<lambda>u. Some (usr_email u)) (users d)"
      by (rule col_unique_map, simp add: assms)+
    moreover have "list_all user_typed (users d) \<Longrightarrow> list_all user_typed ?us"
      using assms(2) by (auto simp: list_all_iff user_typed_def)
    ultimately show ?thesis using ids unfolding 2(2) by (simp add: typed_step_def catalog_typed_def user_exists_iff product_exists_iff)
  qed (simp add: typed_step_def)
qed

lemma keep_insert_product [steps_intros]:
  assumes "product_typed r"
  shows "by_steps typed_step (insert_product r)"
proof (rule by_steps_step)
  fix d res d' assume "insert_product r d = (res, d')"
  then show "typed_step d d'" unfolding insert_product_def
  proof (cases rule: insert_row_cases)
    case 2
    then show ?thesis using assms product_ids.insert_keeps_unique [OF 2(4)] by (auto simp: typed_simps)
  qed (simp add: typed_step_def)
qed

lemma keep_modify_product [steps_intros]:
  assumes "\<And>r. prod_id (g r) = prod_id r" "\<And>r. prod_owner (g r) = prod_owner r"
    and "\<And>r. product_typed r \<Longrightarrow> product_typed (g r)"
  shows "by_steps typed_step (modify_product now pid g)"
proof (rule by_steps_step)
  fix d res d' assume "modify_product now pid g d = (res, d')"
  then show "typed_step d d'" unfolding modify_product_def
  proof (cases rule: update_row_cases)
    case 2
    let ?ps = "map (\<lambda>r. if prod_id r = pid then (g r)\<lparr>prod_updated := now\<rparr> else r) (products d)"
    have ids: "prod_id ` set ?ps = prod_id ` set (products d)"
      unfolding set_map [symmetric] by (subst map_key_update) (simp_all add: assms)
    have "col_unique (\<lambda>r. Some (prod_id r)) ?ps = col_unique (\<lambda>r. Some (prod_id r)) (products d)"
      by (rule col_unique_map) (simp add: assms)
    moreover have "list_all (\<lambda>r. user_exists d (prod_owner r)) (products d)
        \<Longrightarrow> list_all (\<lambda>r. user_exists d (prod_owner r)) ?ps"
      using assms(2) by (auto simp: list_all_iff)
    moreover have "list_all product_typed (products d) \<Longrightarrow> list_all product_typed ?ps"
      using assms(3) by (auto simp: list_all_iff product_typed_def)
    ultimately show ?thesis using ids unfolding 2(2) by (simp add: typed_step_def catalog_typed_def user_exists_iff product_exists_iff)
  qed (simp add: typed_step_def)
qed

lemma keep_insert_version [steps_intros]:
  assumes "version_typed v"
  shows "by_steps typed_step (insert_version v)"
proof (rule by_steps_step)
  fix d res d' assume "insert_version v d = (res, d')"
  then show "typed_step d d'" unfolding insert_version_def
  proof (cases rule: insert_row_cases)
    case 2
    then show ?thesis using assms version_ids.insert_keeps_unique [OF 2(4)] version_names.insert_keeps_unique [OF 2(4)]
      by (auto simp: typed_simps)
  qed (simp add: typed_step_def)
qed

lemma keep_modify_version [steps_intros]:
  assumes "\<And>v. ver_id (g v) = ver_id v" "\<And>v. ver_product (g v) = ver_product v"
    and "\<And>v. ver_version (g v) = ver_version v" "\<And>v. version_typed v \<Longrightarrow> version_typed (g v)"
  shows "by_steps typed_step (modify_version vid g)"
proof (rule by_steps_step)
  fix d res d' assume "modify_version vid g d = (res, d')"
  then show "typed_step d d'" unfolding modify_version_def
  proof (cases rule: update_row_cases)
    case 2
    let ?vs = "map (\<lambda>r. if ver_id r = vid then g r else r) (versions d)"
    have "col_unique (\<lambda>v. Some (ver_id v)) ?vs = col_unique (\<lambda>v. Some (ver_id v)) (versions d)"
      "col_unique (\<lambda>v. Some (ver_product v, ver_version v)) ?vs = col_unique (\<lambda>v. Some (ver_product v, ver_version v)) (versions d)"
      by (rule col_unique_map, simp add: assms)+
    then show ?thesis using assms(2,4) unfolding 2(2) by (auto simp: typed_simps)
  qed (simp add: typed_step_def)
qed

lemma keep_insert_plan [steps_intros]:
  assumes "plan_int4 p \<Longrightarrow> plan_typed p"
  shows "by_steps typed_step (insert_plan p)"
proof (cases "plan_int4 p")
  case True
  have "by_steps typed_step (insert_row plan_viol plans (\<lambda>rows d. d\<lparr>plans := rows\<rparr>) (\<lambda>d. product_exists d (plan_product p)) p)"
  proof (rule by_steps_step)
    fix d res d'
    assume "insert_row plan_viol plans (\<lambda>rows d. d\<lparr>plans := rows\<rparr>) (\<lambda>d. product_exists d (plan_product p)) p d = (res, d')"
    then show "typed_step d d'"
    proof (cases rule: insert_row_cases)
      case 2
      then show ?thesis using assms [OF True] plan_ids.insert_keeps_unique [OF 2(4)] by (auto simp: typed_simps)
    qed (simp add: typed_step_def)
  qed
  then show ?thesis using True by (simp add: insert_plan_def)
qed (simp add: insert_plan_def by_steps_raise)

lemma keep_insert_key [steps_intros]:
  assumes "key_typed k"
  shows "by_steps typed_step (insert_key k)"
proof (rule by_steps_step)
  fix d res d' assume "insert_key k d = (res, d')"
  then show "typed_step d d'" unfolding insert_key_def
  proof (cases rule: insert_row_cases)
    case 2
    then show ?thesis using assms key_ids.insert_keeps_unique [OF 2(4)] by (auto simp: typed_simps)
  qed (simp add: typed_step_def)
qed

lemma keep_revoke_key [steps_intros]: "by_steps typed_step (modify_key kid (revoked now))"
proof (rule by_steps_step)
  fix d res d' assume "modify_key kid (revoked now) d = (res, d')"
  then show "typed_step d d'" unfolding modify_key_def
  proof (cases rule: update_row_cases)
    case 2
    let ?ks = "map (\<lambda>r. if key_id r = kid then revoked now r else r) (api_keys d)"
    have "col_unique (\<lambda>k. Some (key_id k)) ?ks = col_unique (\<lambda>k. Some (key_id k)) (api_keys d)"
      by (rule col_unique_map) simp
    then show ?thesis unfolding 2(2) by (auto simp: typed_simps key_typed_def)
  qed (simp add: typed_step_def)
qed

lemma keep_delete_tokens [steps_intros]: "by_steps typed_step (delete_refresh_tokens p)"
proof (rule by_steps_step)
  fix d res d' assume "delete_refresh_tokens p d = (res, d')"
  then have "d' = d\<lparr>refresh_tokens := filter (\<lambda>r. \<not> p r) (refresh_tokens d)\<rparr>"
    by (simp add: delete_refresh_tokens_run)
  then show "typed_step d d'"
    by (auto simp: typed_simps col_unique_def sorted_wrt_filter)
qed

lemma keep_insert_view [steps_intros]: "by_steps typed_step (insert_view r)"
proof (rule by_steps_step)
  fix d res d' assume "insert_view r d = (res, d')"
  then have "d' = d \<or> d' = d\<lparr>product_views := product_views d @ [r]\<rparr>"
    by (auto simp: insert_view_def writes_def split: option.splits if_splits)
  then show "typed_step d d'" by (auto simp: typed_step_def catalog_typed_def user_exists_def product_exists_def)
qed

lemma keep_audit [steps_intros]: "by_steps typed_step (admin_audit now rid u a res i details)"
proof (rule by_steps_step)
  fix d r d' assume "admin_audit now rid u a res i details d = (r, d')"
  then have "\<exists>x. d' = d\<lparr>audit_logs := x\<rparr>"
    by (auto simp: admin_audit_def record_with_client_def insert_audit_def writes_def)
  then show "typed_step d d'" by (auto simp: typed_step_def catalog_typed_def user_exists_def product_exists_def)
qed

lemma keep_open_session [steps_intros]: "by_steps typed_step (open_session pf env u)"
proof (rule by_steps_step)
  fix d res d' assume "open_session pf env u d = (res, d')"
  then show "typed_step d d'"
  proof (cases rule: open_session_cases)
    case (1 e)
    then show ?thesis by (auto simp: typed_simps col_unique_def sorted_wrt_filter)
  next
    case 2
    then show ?thesis by (auto simp: typed_simps col_unique_def sorted_wrt_append sorted_wrt_filter)
  qed
qed

section \<open>Every request keeps the types\<close>

lemma by_steps_pair [steps_intros]: "(\<And>x y. by_steps R (f x y)) \<Longrightarrow> by_steps R (case p of (x, y) \<Rightarrow> f x y)"
  by (cases p) simp

lemma by_steps_result:
  assumes "\<And>x. r = Inr x \<Longrightarrow> by_steps R (f x)"
  shows "by_steps R (bnd (from_result r) f)"
  using assms by (cases r) (simp_all add: by_steps_def bnd_def from_result_def)

lemma zod_text_ok: "zod_text lo hi s = Some t \<Longrightarrow> text_ok lo hi t"
  by (auto simp: zod_text_Some text_ok_def)

lemma tags_schema_Some:
  assumes "tags_schema ts = Some us"
  shows "length us \<le> 20" "list_all (text_ok 1 30) us"
proof -
  have all: "list_all2 (\<lambda>x y. tag_schema x = Some y) ts us" and len: "length ts \<le> 20"
    using assms zod_array_all by (auto simp: tags_schema_def split: if_splits)
  then show "length us \<le> 20" using list_all2_lengthD by fastforce
  show "list_all (text_ok 1 30) us"
    using all by (auto simp: list_all2_conv_all_nth list_all_length tag_schema_def zod_text_Some text_ok_def)
qed

lemma create_product_schema_Some:
  assumes "create_product_schema i = Some j"
  shows "text_ok 3 120 (np_title j)" "text_ok 10 2000 (np_description j)" "text_ok 2 60 (np_category j)"
    "length (np_tags j) \<le> 20" "list_all (text_ok 1 30) (np_tags j)"
proof -
  obtain t dsc c ts where *: "zod_text 3 120 (np_title i) = Some t" "zod_text 10 2000 (np_description i) = Some dsc"
    "zod_text 2 60 (np_category i) = Some c" "tags_schema (np_tags i) = Some ts"
    "j = \<lparr>np_title = t, np_description = dsc, np_category = c, np_tags = ts\<rparr>"
    using assms by (auto simp: create_product_schema_def split: option.splits)
  then show "text_ok 3 120 (np_title j)" "text_ok 10 2000 (np_description j)" "text_ok 2 60 (np_category j)"
    using zod_text_ok by simp_all
  show "length (np_tags j) \<le> 20" "list_all (text_ok 1 30) (np_tags j)"
    using tags_schema_Some [OF *(4)] *(5) by simp_all
qed

lemma update_product_schema_typed:
  assumes "update_product_schema i = Some j" "product_typed r"
  shows "product_typed (product_update j r)"
proof -
  obtain t dsc c ts where *: "zod_optional (zod_text 3 120) (up_title i) = Some t"
    "zod_optional (zod_text 10 2000) (up_description i) = Some dsc"
    "zod_optional (zod_text 2 60) (up_category i) = Some c" "zod_optional tags_schema (up_tags i) = Some ts"
    "j = \<lparr>up_title = t, up_description = dsc, up_category = c, up_tags = ts, up_status = up_status i\<rparr>"
    using assms(1) by (auto simp: update_product_schema_def split: option.splits)
  have "case_option True (text_ok 3 120) t" "case_option True (text_ok 10 2000) dsc"
    "case_option True (text_ok 2 60) c" "case_option True (\<lambda>ts. length ts \<le> 20 \<and> list_all (text_ok 1 30) ts) ts"
    using *(1-4) zod_text_ok tags_schema_Some unfolding zod_optional_Some by (auto split: option.split)
  then show ?thesis using assms(2) unfolding *(5)
    by (auto simp: product_typed_def product_update_def set_if_def split: option.splits)
qed

lemma create_version_schema_Some:
  assumes "create_version_schema env i = Some j"
  shows "text_ok 1 20 (cv_version j)" "text_ok 5 2048 (cv_openapi_url j)"
proof -
  obtain v u where *: "zod_text 1 20 (cv_version i) = Some v" "zod_text 5 2048 (cv_openapi_url i) = Some u"
    "j = \<lparr>cv_version = v, cv_openapi_url = u\<rparr>"
    using assms by (auto simp: create_version_schema_def openapi_url_schema_def split: option.splits if_splits)
  show "text_ok 1 20 (cv_version j)" "text_ok 5 2048 (cv_openapi_url j)"
    using zod_text_ok [OF *(1)] zod_text_ok [OF *(2)] *(3) by simp_all
qed

lemma new_version_typed:
  assumes "create_version_schema env i = Some j" "fetch_openapi_snapshot env u = Inr body"
  shows "version_typed (new_version env now vid pid j body)"
  using create_version_schema_Some [OF assms(1)] assms(2)
  by (auto simp: new_version_def version_typed_def openapi_max_size_bytes_def elim: fetch_openapi_snapshot_Inr)

lemma version_update_typed:
  assumes "update_version_schema env i = Some j" "version_typed v"
    and "(case uv_openapi_url j of None \<Rightarrow> Inr None
          | Some u \<Rightarrow> (case fetch_openapi_snapshot env u of Inl e \<Rightarrow> Inl e | Inr body \<Rightarrow> Inr (Some (u, body)))) = Inr fetched"
  shows "version_typed (version_update env (uv_status j) fetched v)"
proof (cases fetched)
  case None
  then show ?thesis using assms(2) by (simp add: version_update_def set_if_def version_typed_def split: option.splits)
next
  case (Some ub)
  then obtain u body where f: "fetched = Some (u, body)" "uv_openapi_url j = Some u" "fetch_openapi_snapshot env u = Inr body"
    using assms(3) by (auto split: option.splits sum.splits)
  have "text_ok 5 2048 u"
    using assms(1) f(2) zod_text_ok
    by (auto simp: update_version_schema_def openapi_url_schema_def zod_optional_Some split: option.splits if_splits)
  then show ?thesis using assms(2) fetch_openapi_snapshot_Inr [OF f(3)] unfolding f(1)
    by (auto simp: version_update_def set_if_def version_typed_def openapi_max_size_bytes_def split: option.splits)
qed

lemma new_plan_typed:
  assumes "create_plan_schema i = Some j" "resolve_overage_config j = Inr ov" "plan_int4 (new_plan now plid j ov)"
  shows "plan_typed (new_plan now plid j ov)"
proof -
  note facts = create_plan_schema_Some [OF assms(1)]
  have "text_ok 2 60 (pi_name j)" using facts(1,2) by (simp add: text_ok_def)
  moreover have "text_ok 1 10 (case pi_currency j of None \<Rightarrow> ''EUR'' | Some c \<Rightarrow> c)"
    using facts(5) by (auto simp: text_ok_def Suc_le_eq split: option.splits)
  moreover have "ov = (False, None, None)
      \<or> (\<exists>n c. pi_overage_unit j = Some n \<and> pi_overage_price j = Some c \<and> ov = (True, Some n, Some c))"
    using assms(2) unfolding resolve_overage_config_def
    by (cases "pi_overage_unit j"; cases "pi_overage_price j") (simp_all split: if_splits)
  ultimately show ?thesis using facts(3,4,6,7,8) assms(3)
    by (elim disjE exE conjE) (simp_all add: plan_typed_def new_plan_def)
qed

lemma keep_as_user [steps_intros]:
  "(\<And>u. by_steps R (f u)) \<Longrightarrow> by_steps R (as_user env h roles f)"
  unfolding as_user_def by (intro steps_intros)

lemma keep_as_guest [steps_intros]:
  "(\<And>u. by_steps R (f u)) \<Longrightarrow> by_steps R (as_guest env h f)"
  unfolding as_guest_def by (intro steps_intros)

lemma keep_reading [steps_intros]: "by_steps R (reading f)"
  unfolding by_steps_def reading_def by simp

lemma keep_no_answer [steps_intros]: "by_steps R m \<Longrightarrow> by_steps R (no_answer m)"
  unfolding no_answer_def by (intro steps_intros)

lemma keep_validated:
  assumes "\<And>i. schema body = Some i \<Longrightarrow> by_steps R (f i)"
  shows "by_steps R (validated schema body f)"
  unfolding validated_def using assms by (intro by_steps_result) (simp add: zod_pipe_Inr)

lemma keep_create_product:
  assumes "create_product_schema body = Some i"
  shows "by_steps typed_step (create_product now pid i u)"
  unfolding create_product_def
  by (intro steps_intros) (use create_product_schema_Some [OF assms] in \<open>simp add: product_typed_def new_product_def\<close>)

lemma keep_update_product:
  assumes "update_product_schema body = Some i"
  shows "by_steps typed_step (update_product now pid i u)"
  unfolding update_product_def
  by (intro steps_intros keep_modify_product) (use update_product_schema_typed [OF assms] in simp_all)

lemma keep_get_product: "by_steps typed_step (get_product_by_id now pid u)"
  unfolding get_product_by_id_def record_product_view_def by (intro steps_intros)

lemma keep_create_version:
  assumes "create_version_schema env body = Some i"
  shows "by_steps typed_step (create_version env now vid pid i u)"
  unfolding create_version_def
  by (intro steps_intros by_steps_result new_version_typed [OF assms])

lemma keep_update_version:
  assumes "update_version_schema env body = Some i"
  shows "by_steps typed_step (update_version env vid i u)"
  unfolding update_version_def
  by (intro steps_intros by_steps_result keep_modify_version) (use version_update_typed [OF assms] in simp_all)

lemma keep_create_plan:
  assumes "create_plan_schema body = Some i"
  shows "by_steps typed_step (create_plan now plid i u)"
  unfolding create_plan_def
  by (intro steps_intros by_steps_result new_plan_typed [OF assms])

lemma keep_create_key:
  assumes "create_key_schema label = Some l"
  shows "by_steps typed_step (create_key sha cfg now kid rnd l u)"
  unfolding create_key_def Let_def
  by (intro steps_intros)
    (use assms zod_text_ok in \<open>auto simp: create_key_schema_def key_typed_def new_key_def\<close>)

lemma keep_revoke: "by_steps typed_step (revoke_key now kid u)"
  unfolding revoke_key_def by (intro steps_intros)

lemma keep_admin:
  "by_steps typed_step (hide_product now rid u pid)" "by_steps typed_step (hide_version now rid u vid)"
  "by_steps typed_step (admin_revoke_key now rid u kid)"
  unfolding hide_product_def hide_version_def admin_revoke_key_def Let_def
  by (intro steps_intros; simp add: product_typed_def version_typed_def)+

lemma to_lower_case_twice: "to_lower_case (to_lower_case s) = to_lower_case s"
proof -
  have "js_char_lower (js_char_lower c) = js_char_lower c" for c
    by (simp add: js_char_lower_def Let_def)
  then show ?thesis by (simp add: to_lower_case_def)
qed

lemma keep_accounts:
  "by_steps typed_step (update_my_role uid r)" "by_steps typed_step (change_password pf ae uid cw)"
  "by_steps typed_step (login pf ae li)" "by_steps typed_step (refresh pf ae tok)"
  "by_steps typed_step (logout pf ae t)"
  unfolding update_my_role_def change_password_def login_def refresh_def logout_def
  by (intro steps_intros keep_update_user; simp)+

lemma keep_register: "by_steps typed_step (register pf ae ri)"
  unfolding register_def
  by (intro steps_intros by_steps_result)
    (auto simp: user_typed_def new_user_def zod_pipe_Inr register_schema_def email_schema_def Let_def
       to_lower_case_twice split: option.splits if_splits)

lemma serve_keeps_types: "by_steps typed_step (serve env h req)"
  by (cases req) (auto intro!: steps_intros keep_validated keep_create_product keep_update_product keep_get_product
      keep_create_version keep_update_version keep_create_plan keep_create_key keep_revoke keep_admin
      keep_accounts keep_register)

text \<open>A run of requests, each with its own environment and credentials.\<close>

fun serve_all :: "(http_env \<times> string option \<times> catalog_request) list \<Rightarrow> db \<Rightarrow> db" where
  "serve_all [] d = d"
| "serve_all ((env, h, req) # rs) d = serve_all rs (snd (serve env h req d))"

lemma serve_typed: "catalog_typed d \<Longrightarrow> serve env h req d = (r, d') \<Longrightarrow> catalog_typed d'"
  using by_stepsD [OF serve_keeps_types] typed_steps by blast

lemma serve_all_typed: "catalog_typed d \<Longrightarrow> catalog_typed (serve_all rs d)"
  by (induction rs d rule: serve_all.induct) (simp_all add: serve_typed [OF _ prod.collapse [symmetric]])

text \<open>C18: The catalog stays well typed. Whatever requests are served, by whom and with what answers from
  outside: ids, e-mail addresses and the version names of a product stay unique, references point to
  stored rows, texts and numbers stay within their schemas and columns, the overage columns of a plan
  are set exactly when it allows overage, a snapshot is never blank nor too large, a key is active
  exactly until it is revoked, and a user has at most one session.\<close>

theorem catalog_stays_typed:
  assumes "catalog_typed d"
  shows "catalog_typed (serve_all rs d)"
  using assms by (rule serve_all_typed)

end
