(* ===== verification/Visibility.thy ===== *)
theory Visibility
  imports Catalog
begin

text \<open>
  What a stranger sees of the catalog: the answers of the reading operations to somebody who owns no
  product and is not an administrator depend on the published part of the catalog only.
\<close>

section \<open>The published part\<close>

definition published_product :: "db \<Rightarrow> string \<Rightarrow> bool" where
  "published_product d pid \<longleftrightarrow> list_ex (\<lambda>r. prod_id r = pid \<and> prod_status r = PPublished) (products d)"

definition public_versions :: "db \<Rightarrow> version_row list" where
  "public_versions d = filter (\<lambda>v. ver_status v = VPublished \<and> published_product d (ver_product v)) (versions d)"

definition public_plans :: "db \<Rightarrow> plan_row list" where
  "public_plans d = filter (\<lambda>p. plan_active p \<and> published_product d (plan_product p)) (plans d)"

definition public_products :: "db \<Rightarrow> product_row list" where
  "public_products d = filter (\<lambda>r. prod_status r = PPublished) (products d)"

definition same_public :: "db \<Rightarrow> db \<Rightarrow> bool" where
  "same_public d d' \<longleftrightarrow> public_products d = public_products d' \<and> public_versions d = public_versions d'
     \<and> public_plans d = public_plans d' \<and> users d = users d'"

definition stranger :: "auth_user option \<Rightarrow> db \<Rightarrow> bool" where
  "stranger c d \<longleftrightarrow> (case c of None \<Rightarrow> True
     | Some u \<Rightarrow> au_role u \<noteq> ADMIN \<and> list_all (\<lambda>r. prod_owner r \<noteq> au_id u) (products d))"

definition answer :: "exn + 'a \<Rightarrow> 'a option" where
  "answer r = (case r of Inl e \<Rightarrow> None | Inr x \<Rightarrow> Some x)"

section \<open>Reading through the published part\<close>

lemma find_filter:
  assumes "col_unique (\<lambda>r. Some (key r)) rows"
  shows "find_unique (\<lambda>r. key r = k) (filter P rows)
    = (case find_unique (\<lambda>r. key r = k) rows of None \<Rightarrow> None | Some r \<Rightarrow> if P r then Some r else None)"
  using assms
proof (induction rows)
  case (Cons r rows)
  then have "key r = k \<Longrightarrow> find_unique (\<lambda>r. key r = k) rows = None"
    by (auto simp: find_unique_None col_unique_def)
  moreover have "key r = k \<Longrightarrow> find_unique (\<lambda>r. key r = k) (filter P rows) = None"
    using Cons.prems by (auto simp: find_unique_None col_unique_def)
  ultimately show ?case using Cons by (auto simp: find_unique_def col_unique_def)
qed (simp add: find_unique_def)

lemma find_many_filter: "(\<And>r. P r \<Longrightarrow> Q r) \<Longrightarrow> find_many k P rows = find_many k P (filter Q rows)"
  unfolding find_many_def filter_filter by (rule arg_cong [of _ _ "sort_key k"], rule filter_cong) auto

definition public_product :: "string \<Rightarrow> db \<Rightarrow> product_row option" where
  "public_product pid d = find_unique (\<lambda>r. prod_id r = pid) (public_products d)"

lemma public_product_found:
  assumes "catalog_typed d"
  shows "public_product pid d
    = (case find_product pid d of None \<Rightarrow> None | Some r \<Rightarrow> if prod_status r = PPublished then Some r else None)"
  unfolding public_product_def public_products_def find_product_def
  by (rule find_filter) (use assms in \<open>simp add: catalog_typed_def\<close>)

lemma published_product_iff: "published_product d pid \<longleftrightarrow> public_product pid d \<noteq> None"
  unfolding published_product_def public_product_def public_products_def
  by (auto simp: list_ex_iff find_unique_None)

lemma stranger_not_owner: "stranger c d \<Longrightarrow> r \<in> set (products d) \<Longrightarrow> \<not> is_owner_or_admin (prod_owner r) c"
  by (auto simp: stranger_def is_owner_or_admin_def list_all_iff split: option.splits)

text \<open>The answers of a stranger, as functions of the published part.\<close>

lemma stranger_versions:
  assumes "catalog_typed d" "stranger c d"
  shows "answer (list_product_versions pid c d) = (case public_product pid d of None \<Rightarrow> None
    | Some r \<Rightarrow> Some (map version_dto_of (find_many (\<lambda>v. - ver_created v) (\<lambda>v. ver_product v = pid) (public_versions d))))"
proof (cases "find_product pid d")
  case (Some r)
  note found = find_product_Some [OF Some]
  have "find_many (\<lambda>v. - ver_created v) (\<lambda>v. ver_product v = pid \<and> ver_status v = VPublished) (versions d)
      = find_many (\<lambda>v. - ver_created v) (\<lambda>v. ver_product v = pid) (public_versions d)" if "prod_status r = PPublished"
  proof -
    have "published_product d pid" using that found by (auto simp: published_product_def list_ex_iff)
    then show ?thesis unfolding find_many_def public_versions_def filter_filter
      by (intro arg_cong [of _ _ "sort_key _"] filter_cong) auto
  qed
  then show ?thesis using Some stranger_not_owner [OF assms(2)] found
    by (simp add: list_product_versions_def answer_def public_product_found [OF assms(1)])
qed (simp add: list_product_versions_def answer_def public_product_found [OF assms(1)])

lemma stranger_schema:
  assumes "catalog_typed d" "stranger c d"
  shows "answer (get_version_schema vid c d) = (case find_unique (\<lambda>v. ver_id v = vid) (public_versions d) of None \<Rightarrow> None
    | Some v \<Rightarrow> if js_truthy_str (ver_openapi_snapshot v)
        then Some \<lparr>vs_version_id = ver_id v, vs_product_id = ver_product v, vs_version = ver_version v,
                 vs_openapi_url = ver_openapi_url v, vs_fetched_at = ver_fetched v,
                 vs_schema = the (ver_openapi_snapshot v)\<rparr> else None)"
proof -
  have pub: "find_unique (\<lambda>v. ver_id v = vid) (public_versions d)
      = (case find_unique (\<lambda>v. ver_id v = vid) (versions d) of None \<Rightarrow> None
         | Some v \<Rightarrow> if ver_status v = VPublished \<and> published_product d (ver_product v) then Some v else None)"
    unfolding public_versions_def by (rule find_filter) (use assms(1) in \<open>simp add: catalog_typed_def\<close>)
  show ?thesis
  proof (cases "find_version vid d")
    case None
    then show ?thesis unfolding pub
      by (auto simp: get_version_schema_def answer_def find_version_def published_product_iff
          public_product_found [OF assms(1)] split: option.splits)
  next
    case (Some vr)
    then obtain v r where vr: "find_version vid d = Some (v, r)" "find_unique (\<lambda>v. ver_id v = vid) (versions d) = Some v"
      "find_product (ver_product v) d = Some r"
      by (auto simp: find_version_def split: option.splits)
    have "published_product d (ver_product v) \<longleftrightarrow> prod_status r = PPublished"
      using vr(3) by (simp add: published_product_iff public_product_found [OF assms(1)])
    then show ?thesis using vr stranger_not_owner [OF assms(2)] find_product_Some [OF vr(3)] unfolding pub
      by (auto simp: get_version_schema_def answer_def)
  qed
qed

lemma stranger_plans:
  assumes "catalog_typed d" "stranger c d"
  shows "answer (list_active_plans pid c d) = (case public_product pid d of None \<Rightarrow> None
    | Some r \<Rightarrow> Some (if list_ex (\<lambda>v. ver_product v = pid) (public_versions d)
        then find_many (\<lambda>p. - plan_created p) (\<lambda>p. plan_product p = pid) (public_plans d) else []))"
proof (cases "find_product pid d")
  case (Some r)
  note found = find_product_Some [OF Some]
  have "list_ex (\<lambda>v. ver_product v = pid \<and> ver_status v = VPublished) (versions d)
        = list_ex (\<lambda>v. ver_product v = pid) (public_versions d)
      \<and> find_many (\<lambda>p. - plan_created p) (\<lambda>p. plan_product p = pid \<and> plan_active p) (plans d)
        = find_many (\<lambda>p. - plan_created p) (\<lambda>p. plan_product p = pid) (public_plans d)"
    if "prod_status r = PPublished"
  proof -
    have "published_product d pid" using that found by (auto simp: published_product_def list_ex_iff)
    then show ?thesis unfolding find_many_def public_plans_def public_versions_def filter_filter
      by (auto simp: list_ex_iff intro!: arg_cong [of _ _ "sort_key _"] filter_cong)
  qed
  then show ?thesis using Some stranger_not_owner [OF assms(2)] found
    by (auto simp: list_active_plans_def Let_def answer_def public_product_found [OF assms(1)])
qed (simp add: list_active_plans_def answer_def public_product_found [OF assms(1)])

lemma public_list:
  "list_public_products contains q limit offset d
   = product_page (search_matches contains q) limit offset (d\<lparr>products := public_products d\<rparr>)"
  unfolding list_public_products_def product_page_def public_products_def find_many_def by (simp add: conj_commute)


end
