(* ===== verification/Ownership.thy ===== *)
theory Ownership
  imports Catalog
begin

text \<open>
  Who may change what: a request of a user who is not an administrator leaves the products,
  versions, plans and keys of everybody else as they are.
\<close>

section \<open>Rows of others\<close>

definition caller :: "http_env \<Rightarrow> string option \<Rightarrow> auth_user option" where
  "caller env h = (case jwt_guard (he_verify env) h of Inl _ \<Rightarrow> None | Inr u \<Rightarrow> Some u)"

definition owns :: "auth_user option \<Rightarrow> string \<Rightarrow> bool" where
  "owns c uid \<longleftrightarrow> map_option au_id c = Some uid"

definition owns_product :: "db \<Rightarrow> auth_user option \<Rightarrow> string \<Rightarrow> bool" where
  "owns_product d c pid \<longleftrightarrow> list_ex (\<lambda>r. prod_id r = pid \<and> owns c (prod_owner r)) (products d)"

text \<open>The rows that are not the caller's are the same, in the same order.\<close>

definition others_kept :: "auth_user option \<Rightarrow> db \<Rightarrow> db \<Rightarrow> bool" where
  "others_kept c d d' \<longleftrightarrow>
     filter (\<lambda>r. \<not> owns c (prod_owner r)) (products d') = filter (\<lambda>r. \<not> owns c (prod_owner r)) (products d)
     \<and> filter (\<lambda>v. \<not> owns_product d c (ver_product v)) (versions d') = filter (\<lambda>v. \<not> owns_product d c (ver_product v)) (versions d)
     \<and> filter (\<lambda>p. \<not> owns_product d c (plan_product p)) (plans d') = filter (\<lambda>p. \<not> owns_product d c (plan_product p)) (plans d)
     \<and> filter (\<lambda>k. \<not> owns c (key_user k)) (api_keys d') = filter (\<lambda>k. \<not> owns c (key_user k)) (api_keys d)"

lemma others_kept_refl [simp]: "others_kept c d d"
  by (simp add: others_kept_def)

lemma filter_update:
  assumes "\<And>r. r \<in> set rows \<Longrightarrow> key r = k \<Longrightarrow> \<not> P r \<and> \<not> P (g r)"
  shows "filter P (map (\<lambda>r. if key r = k then g r else r) rows) = filter P rows"
  using assms by (induction rows) auto

lemma keep_others:
  "insert_product r d = (res, d') \<Longrightarrow> owns c (prod_owner r) \<Longrightarrow> others_kept c d d'"
  "insert_version v d = (res, d') \<Longrightarrow> owns_product d c (ver_product v) \<Longrightarrow> others_kept c d d'"
  "insert_key k d = (res, d') \<Longrightarrow> owns c (key_user k) \<Longrightarrow> others_kept c d d'"
  unfolding insert_product_def insert_version_def insert_key_def
  by (erule insert_row_cases; simp add: others_kept_def)+

lemma keep_others_plan:
  "insert_plan p d = (res, d') \<Longrightarrow> owns_product d c (plan_product p) \<Longrightarrow> others_kept c d d'"
  unfolding insert_plan_def
  by (auto simp: others_kept_def raise_def elim: insert_row_cases split: if_splits)

lemma keep_others_modify_product:
  assumes "modify_product now pid g d = (res, d')" "\<And>r. prod_owner (g r) = prod_owner r"
    and "\<And>r. r \<in> set (products d) \<Longrightarrow> prod_id r = pid \<Longrightarrow> owns c (prod_owner r)"
  shows "others_kept c d d'"
  using assms(1) unfolding modify_product_def
proof (cases rule: update_row_cases)
  case 2
  then show ?thesis using assms(2,3) by (simp add: others_kept_def filter_update)
qed simp

lemma keep_others_modify_version:
  assumes "modify_version vid g d = (res, d')" "\<And>v. ver_product (g v) = ver_product v"
    and "\<And>v. v \<in> set (versions d) \<Longrightarrow> ver_id v = vid \<Longrightarrow> owns_product d c (ver_product v)"
  shows "others_kept c d d'"
  using assms(1) unfolding modify_version_def
proof (cases rule: update_row_cases)
  case 2
  then show ?thesis using assms(2,3) by (simp add: others_kept_def filter_update)
qed simp

lemma keep_others_modify_key:
  assumes "modify_key kid g d = (res, d')" "\<And>k. key_user (g k) = key_user k"
    and "\<And>k. k \<in> set (api_keys d) \<Longrightarrow> key_id k = kid \<Longrightarrow> owns c (key_user k)"
  shows "others_kept c d d'"
  using assms(1) unfolding modify_key_def
proof (cases rule: update_row_cases)
  case 2
  then show ?thesis using assms(2,3) by (simp add: others_kept_def filter_update)
qed simp

section \<open>The services\<close>

lemma bnd_ret_state:
  assumes "bnd m (\<lambda>x. ret (f x)) d = (res, d')"
  obtains r where "m d = (r, d')"
  using assms by (auto simp: bnd_def ret_def split: prod.splits sum.splits)

lemma owner_not_admin:
  "is_owner_or_admin owner (Some u) \<Longrightarrow> au_role u \<noteq> ADMIN \<Longrightarrow> owns (Some u) owner"
  by (simp add: is_owner_or_admin_def owns_def)

lemma create_product_others: "create_product now pid i u d = (res, d') \<Longrightarrow> others_kept (Some u) d d'"
  unfolding create_product_def
  by (erule bnd_ret_state, erule keep_others) (simp add: new_product_def owns_def)

lemma update_product_others:
  assumes "update_product now pid i u d = (res, d')" "au_role u \<noteq> ADMIN" "catalog_typed d"
  shows "others_kept (Some u) d d'"
proof (cases "find_product pid d")
  case None
  then show ?thesis using assms(1) by (simp add: update_product_def raise_def)
next
  case (Some r)
  note found = find_product_Some [OF Some]
  have same: "r' = r" if "r' \<in> set (products d)" "prod_id r' = pid" for r'
    using col_unique_row [of "\<lambda>r. Some (prod_id r)" "products d" r' r] assms(3) found that by (auto simp: catalog_typed_def)
  show ?thesis
  proof (cases "is_owner_or_admin (prod_owner r) (Some u)")
    case False
    then show ?thesis using assms(1) Some by (simp add: update_product_def raise_def)
  next
    case True
    have own: "owns (Some u) (prod_owner r)" by (rule owner_not_admin [OF True assms(2)])
    show ?thesis
    proof (cases "d' = d")
      case False
      then obtain x where "bnd (modify_product now pid (product_update i)) (\<lambda>_. ret x) d = (res, d')"
        using assms(1) Some True by (auto simp: update_product_def raise_def split: if_splits option.splits)
      then obtain r0 where "modify_product now pid (product_update i) d = (r0, d')" by (rule bnd_ret_state)
      then show ?thesis by (rule keep_others_modify_product) (use same own in auto)
    qed simp
  qed
qed

lemma create_version_others:
  assumes "create_version env now vid pid i u d = (res, d')" "au_role u \<noteq> ADMIN"
  shows "others_kept (Some u) d d'"
proof (cases "d' = d")
  case False
  then obtain r where r: "find_product pid d = Some r" "is_owner_or_admin (prod_owner r) (Some u)"
    using assms(1) by (auto simp: create_version_def raise_def split: if_splits option.splits)
  obtain body r0 where "insert_version (new_version env now vid pid i body) d = (r0, d')"
    using assms(1) False r
    by (auto simp: create_version_def raise_def ret_def try_catch_def bnd_def gets_def from_result_def
        split: if_splits prod.splits sum.splits)
  then show ?thesis
  proof (rule keep_others)
    show "owns_product d (Some u) (ver_product (new_version env now vid pid i body))"
      using owner_not_admin [OF r(2) assms(2)] find_product_Some [OF r(1)]
      by (auto simp: owns_product_def list_ex_iff new_version_def)
  qed
qed simp

lemma update_version_others:
  assumes "update_version env vid i u d = (res, d')" "au_role u \<noteq> ADMIN" "catalog_typed d"
  shows "others_kept (Some u) d d'"
proof (cases "d' = d")
  case False
  then obtain v r where vr: "find_version vid d = Some (v, r)" "is_owner_or_admin (prod_owner r) (Some u)"
    using assms(1) by (auto simp: update_version_def raise_def split: if_splits option.splits)
  note found = find_version_Some [OF vr(1)]
  have same: "v' = v" if "v' \<in> set (versions d)" "ver_id v' = vid" for v'
    using col_unique_row [of "\<lambda>v. Some (ver_id v)" "versions d" v' v] assms(3) found that by (auto simp: catalog_typed_def)
  obtain fetched r0 where "modify_version vid (version_update env (uv_status i) fetched) d = (r0, d')"
    using assms(1) False vr
    by (auto simp: update_version_def raise_def ret_def bnd_def gets_def from_result_def
        split: if_splits prod.splits sum.splits option.splits)
  then show ?thesis
  proof (rule keep_others_modify_version)
    fix v' assume "v' \<in> set (versions d)" "ver_id v' = vid"
    then show "owns_product d (Some u) (ver_product v')"
      using owner_not_admin [OF vr(2) assms(2)] found same by (auto simp: owns_product_def list_ex_iff)
  qed simp
qed simp

lemma create_plan_others:
  assumes "create_plan now plid i u d = (res, d')" "au_role u \<noteq> ADMIN"
  shows "others_kept (Some u) d d'"
proof (cases "d' = d")
  case False
  then obtain r where r: "find_product (pi_product i) d = Some r" "prod_owner r = au_id u"
    using assms by (auto simp: create_plan_def raise_def split: if_splits option.splits)
  obtain ov r0 where "insert_plan (new_plan now plid i ov) d = (r0, d')"
    using assms(1) False r
    by (auto simp: create_plan_def raise_def ret_def bnd_def gets_def from_result_def split: if_splits prod.splits sum.splits)
  then show ?thesis
    by (rule keep_others_plan)
      (use r find_product_Some [OF r(1)] in \<open>auto simp: owns_product_def owns_def list_ex_iff new_plan_def\<close>)
qed simp

lemma create_key_others: "create_key sha cfg now kid rnd l u d = (res, d') \<Longrightarrow> others_kept (Some u) d d'"
  unfolding create_key_def Let_def
  by (erule bnd_ret_state, erule keep_others) (simp add: new_key_def owns_def)

lemma revoke_key_others:
  assumes "revoke_key now kid u d = (res, d')" "au_role u \<noteq> ADMIN" "catalog_typed d"
  shows "others_kept (Some u) d d'"
proof (cases "d' = d")
  case False
  then obtain k x where k: "find_key kid d = Some k" "key_user k = au_id u"
    "bnd (modify_key kid (revoked now)) (\<lambda>_. ret x) d = (res, d')"
    using assms by (auto simp: revoke_key_def raise_def ret_def split: if_splits option.splits)
  obtain r0 where "modify_key kid (revoked now) d = (r0, d')" using k(3) by (rule bnd_ret_state)
  then show ?thesis
  proof (rule keep_others_modify_key)
    fix k' assume "k' \<in> set (api_keys d)" "key_id k' = kid"
    then have "k' = k" using col_unique_row [of "\<lambda>k. Some (key_id k)" "api_keys d" k' k] assms(3) find_key_Some [OF k(1)]
      by (auto simp: catalog_typed_def)
    then show "owns (Some u) (key_user k')" using k(2) by (simp add: owns_def)
  qed simp
qed simp

section \<open>Requests that leave the catalog alone\<close>

definition catalog_frame :: "db \<Rightarrow> db \<Rightarrow> bool" where
  "catalog_frame d d' \<longleftrightarrow> products d' = products d \<and> versions d' = versions d \<and> plans d' = plans d"

definition account_frame :: "db \<Rightarrow> db \<Rightarrow> bool" where
  "account_frame d d' \<longleftrightarrow> catalog_frame d d' \<and> api_keys d' = api_keys d"

lemma frame_steps: "account_frame\<^sup>*\<^sup>* d d' \<Longrightarrow> account_frame d d'"
  by (induction rule: rtranclp_induct) (auto simp: account_frame_def catalog_frame_def)

lemma account_frame_others: "account_frame d d' \<Longrightarrow> others_kept c d d'"
  by (simp add: account_frame_def catalog_frame_def others_kept_def)

lemma frame_writes [steps_intros]:
  "by_steps account_frame (create_user ur)" "by_steps account_frame (update_user uid g)"
  "by_steps account_frame (create_refresh_token t)" "by_steps account_frame (delete_refresh_tokens p)"
  "by_steps account_frame (insert_view v)"
  unfolding create_user_def update_user_def create_refresh_token_def
  by (rule by_steps_step, erule insert_row_cases update_row_cases, simp_all add: account_frame_def catalog_frame_def)+
    (rule by_steps_step, auto simp: account_frame_def catalog_frame_def delete_refresh_tokens_run insert_view_def
       writes_def split: if_splits option.splits)+

lemma frame_accounts:
  "by_steps account_frame (update_my_role uid r)" "by_steps account_frame (change_password pf ae uid cw)"
  "by_steps account_frame (login pf ae li)" "by_steps account_frame (refresh pf ae tok)"
  "by_steps account_frame (logout pf ae t)" "by_steps account_frame (register pf ae ri)"
  "by_steps account_frame (get_product_by_id now pid u)"
  unfolding update_my_role_def change_password_def login_def refresh_def logout_def register_def
    get_product_by_id_def record_product_view_def open_session_def Let_def
  by (intro steps_intros)+

lemma frameD: "by_steps account_frame m \<Longrightarrow> m d = (r, d') \<Longrightarrow> account_frame d d'"
  by (rule frame_steps) (rule by_stepsD)

lemma key_frame:
  "create_key sha cfg now kid rnd l u d = (res, d') \<Longrightarrow> catalog_frame d d'"
  "revoke_key now kid u d = (res', d') \<Longrightarrow> catalog_frame d d'"
proof -
  assume "create_key sha cfg now kid rnd l u d = (res, d')"
  then show "catalog_frame d d'" unfolding create_key_def Let_def insert_key_def
    by (elim bnd_ret_state insert_row_cases) (simp_all add: catalog_frame_def)
next
  assume *: "revoke_key now kid u d = (res', d')"
  show "catalog_frame d d'"
  proof (cases "d' = d")
    case False
    then obtain x where "bnd (modify_key kid (revoked now)) (\<lambda>_. ret x) d = (res', d')"
      using * by (auto simp: revoke_key_def raise_def ret_def split: if_splits option.splits)
    then show ?thesis unfolding modify_key_def
      by (elim bnd_ret_state update_row_cases) (simp_all add: catalog_frame_def)
  qed (simp add: catalog_frame_def)
qed

section \<open>Requests\<close>

lemma as_user_cases:
  assumes "as_user env h roles f d = (res, d')"
  obtains "d' = d"
  | u where "caller env h = Some u" "roles = [] \<or> au_role u \<in> set roles" "f u d = (res, d')"
  using assms unfolding as_user_def caller_def
  by (auto simp: bnd_def from_result_def roles_guard_def split: sum.splits if_splits)

lemma validated_cases:
  assumes "validated schema body f d = (res, d')"
  obtains "d' = d" | i where "schema body = Some i" "f i d = (res, d')"
  using assms unfolding validated_def
  by (auto simp: bnd_def from_result_def zod_pipe_def split: option.splits)

lemma no_answer_cases:
  assumes "no_answer m d = (res, d')"
  obtains r where "m d = (r, d')"
  using assms unfolding no_answer_def by (rule bnd_ret_state)

lemma public_request_frame:
  assumes "serve env h req d = (r, d')"
    and "case req of Register _ \<Rightarrow> True | Login _ \<Rightarrow> True | Refresh _ \<Rightarrow> True | Logout _ \<Rightarrow> True
         | ListProducts _ \<Rightarrow> True | MyProducts _ \<Rightarrow> True | ReadProduct _ \<Rightarrow> True | ReadVersions _ \<Rightarrow> True
         | ReadSchema _ \<Rightarrow> True | ReadPlans _ \<Rightarrow> True | ReadKeys \<Rightarrow> True | ReadMe \<Rightarrow> True | ReadProfile \<Rightarrow> True
         | ReadAuditLogs _ \<Rightarrow> True | UpdateRole _ \<Rightarrow> True | ChangePassword _ \<Rightarrow> True | _ \<Rightarrow> False"
  shows "account_frame d d'"
proof -
  have "by_steps account_frame (serve env h req)"
    using assms(2) by (cases req) (auto intro!: steps_intros keep_validated frame_accounts)
  then show ?thesis using assms(1) by (rule frameD)
qed

text \<open>What a request of one of the three groups does: nothing, or the work of an allowed caller.\<close>

definition done_by :: "role list \<Rightarrow> http_env \<Rightarrow> string option \<Rightarrow> (auth_user \<Rightarrow> bool) \<Rightarrow> bool" where
  "done_by roles env h p \<longleftrightarrow> (\<exists>u. caller env h = Some u \<and> (roles = [] \<or> au_role u \<in> set roles) \<and> p u)"

lemma seller_requests:
  assumes "serve env h req d = (r, d')" "catalog_typed d"
    and "case req of CreateProduct _ \<Rightarrow> True | UpdateProduct _ _ \<Rightarrow> True | CreateVersion _ _ \<Rightarrow> True
         | UpdateVersion _ _ \<Rightarrow> True | CreatePlan _ \<Rightarrow> True | _ \<Rightarrow> False"
  shows "d' = d \<or> done_by [SELLER, ADMIN] env h (\<lambda>u. au_role u \<noteq> ADMIN \<longrightarrow> others_kept (Some u) d d')"
  using assms
  by (cases req)
    (auto simp: done_by_def elim!: as_user_cases validated_cases no_answer_cases
      dest: create_product_others update_product_others create_version_others update_version_others create_plan_others)

lemma key_requests:
  assumes "serve env h req d = (r, d')" "catalog_typed d"
    and "case req of CreateKey _ \<Rightarrow> True | RevokeKey _ \<Rightarrow> True | _ \<Rightarrow> False"
  shows "d' = d \<or> done_by [] env h (\<lambda>u. (au_role u \<noteq> ADMIN \<longrightarrow> others_kept (Some u) d d') \<and> catalog_frame d d')"
  using assms
  by (cases req)
    (auto simp: done_by_def elim!: as_user_cases validated_cases no_answer_cases
      dest: create_key_others revoke_key_others key_frame)

lemma admin_requests:
  assumes "serve env h req d = (r, d')"
    and "case req of HideProduct _ \<Rightarrow> True | HideVersion _ \<Rightarrow> True | AdminRevokeKey _ \<Rightarrow> True | _ \<Rightarrow> False"
  shows "d' = d \<or> done_by [ADMIN] env h (\<lambda>u. True)"
  using assms by (cases req) (auto simp: done_by_def elim!: as_user_cases)

text \<open>C19: Ownership. A request of a caller who is not an administrator (or of nobody) leaves the products,
  versions, plans and API keys of everybody else untouched, and only a seller changes products,
  versions or plans at all.\<close>

theorem requests_touch_own_rows:
  assumes "catalog_typed d" "serve env h req d = (r, d')"
    and "\<forall>u. caller env h = Some u \<longrightarrow> au_role u \<noteq> ADMIN"
  shows "others_kept (caller env h) d d'
    \<and> ((\<exists>u. caller env h = Some u \<and> au_role u = SELLER)
       \<or> (products d' = products d \<and> versions d' = versions d \<and> plans d' = plans d))"
proof (cases "d' = d")
  case False
  note seller = seller_requests [OF assms(2,1)] and key = key_requests [OF assms(2,1)]
    and admin = admin_requests [OF assms(2)] and public = public_request_frame [OF assms(2)]
  consider "done_by [SELLER, ADMIN] env h (\<lambda>u. au_role u \<noteq> ADMIN \<longrightarrow> others_kept (Some u) d d')"
    | "done_by [] env h (\<lambda>u. (au_role u \<noteq> ADMIN \<longrightarrow> others_kept (Some u) d d') \<and> catalog_frame d d')"
    | "done_by [ADMIN] env h (\<lambda>u. True)" | "account_frame d d'"
    using False seller key admin public by (cases req) simp_all
  then show ?thesis
  proof cases
    case 4
    then show ?thesis using account_frame_others by (simp add: account_frame_def catalog_frame_def)
  qed (use assms(3) in \<open>auto simp: done_by_def catalog_frame_def\<close>)
qed simp

end
