(* ===== verification/Credentials.thy ===== *)
theory Credentials
  imports Ownership
begin

text \<open>
  Credentials over runs of requests: a revoked API key never works again, a refresh token is good for
  one refresh, a change of the password ends the sessions, and no request makes an administrator.
\<close>

section \<open>Revoked keys\<close>

definition dead_key :: "string \<Rightarrow> db \<Rightarrow> bool" where
  "dead_key kid d \<longleftrightarrow> (\<exists>k \<in> set (api_keys d). key_id k = kid \<and> key_revoked k \<noteq> None)"

definition keys_step :: "db \<Rightarrow> db \<Rightarrow> bool" where
  "keys_step d d' \<longleftrightarrow> (\<forall>kid. dead_key kid d \<longrightarrow> dead_key kid d')"

lemma keys_steps: "keys_step\<^sup>*\<^sup>* d d' \<Longrightarrow> dead_key kid d \<Longrightarrow> dead_key kid d'"
  by (induction rule: rtranclp_induct) (auto simp: keys_step_def)

lemma keys_frame: "api_keys d' = api_keys d \<Longrightarrow> keys_step d d'"
  by (simp add: keys_step_def dead_key_def)

lemma keys_account: "by_steps account_frame m \<Longrightarrow> by_steps keys_step m"
  unfolding by_steps_def using frame_steps keys_frame by (metis account_frame_def r_into_rtranclp)

lemma keys_catalog_writes [steps_intros]:
  "by_steps keys_step (insert_product r)" "by_steps keys_step (modify_product now pid g)"
  "by_steps keys_step (insert_version v)" "by_steps keys_step (modify_version vid vg)"
  unfolding insert_product_def modify_product_def insert_version_def modify_version_def
  by (rule by_steps_step, erule insert_row_cases update_row_cases, simp_all add: keys_frame)+

lemma keys_insert_plan [steps_intros]: "by_steps keys_step (insert_plan p)"
  by (rule by_steps_step) (auto simp: insert_plan_def raise_def keys_frame elim!: insert_row_cases split: if_splits)

lemma keys_audit [steps_intros]: "by_steps keys_step (admin_audit now rid u a res i details)"
  by (rule by_steps_step)
    (auto simp: admin_audit_def record_with_client_def insert_audit_def writes_def keys_frame)

lemma keys_insert_key [steps_intros]: "by_steps keys_step (insert_key k)"
  unfolding insert_key_def
  by (rule by_steps_step, erule insert_row_cases) (auto simp: keys_step_def dead_key_def)

lemma dead_key_revoked:
  "dead_key kid' (d\<lparr>api_keys := map (\<lambda>r. if key_id r = kid then revoked now r else r) (api_keys d)\<rparr>)
   \<longleftrightarrow> dead_key kid' d \<or> (kid' = kid \<and> kid \<in> key_id ` set (api_keys d))"
  by (auto simp: dead_key_def simp del: if_image_distrib)

lemma keys_revoke [steps_intros]: "by_steps keys_step (modify_key kid (revoked now))"
  unfolding modify_key_def
  by (rule by_steps_step, erule update_row_cases) (auto simp: keys_step_def dead_key_revoked)

lemma serve_keeps_dead_keys: "by_steps keys_step (serve env h req)"
  by (cases req)
    (auto simp: create_product_def update_product_def create_version_def update_version_def create_plan_def
       create_key_def revoke_key_def hide_product_def hide_version_def admin_revoke_key_def Let_def
     intro!: steps_intros keep_validated keys_account [OF frame_accounts(1)] keys_account [OF frame_accounts(2)]
       keys_account [OF frame_accounts(3)] keys_account [OF frame_accounts(4)] keys_account [OF frame_accounts(5)]
       keys_account [OF frame_accounts(6)] keys_account [OF frame_accounts(7)])

lemma serve_all_keeps_dead: "dead_key kid d \<Longrightarrow> dead_key kid (serve_all rs d)"
proof (induction rs d rule: serve_all.induct)
  case (2 env h req rs d)
  then show ?case using keys_steps [OF by_stepsD [OF serve_keeps_dead_keys prod.collapse [symmetric]]] by simp
qed simp

lemma dead_key_inactive:
  assumes "dead_key kid d" "catalog_typed d" "find_active_key x d = Some k"
  shows "key_id k \<noteq> kid"
proof
  assume id: "key_id k = kid"
  obtain k' where k': "k' \<in> set (api_keys d)" "key_id k' = kid" "key_revoked k' \<noteq> None"
    using assms(1) by (auto simp: dead_key_def)
  have k: "k \<in> set (api_keys d)" "key_revoked k = None"
    using find_active_key_Some [OF assms(3)] by auto
  have "k = k'" using col_unique_row [of "\<lambda>k. Some (key_id k)" "api_keys d" k k'] assms(2) k k' id
    by (simp add: catalog_typed_def)
  then show False using k k' by simp
qed

lemma revoke_key_kills:
  assumes "revoke_key now kid u d = (Inr x, d')" "catalog_typed d"
  shows "dead_key kid d'"
proof -
  obtain k where k: "find_key kid d = Some k"
    using assms(1) by (auto simp: revoke_key_def raise_def split: option.splits)
  note found = find_key_Some [OF k]
  show ?thesis
  proof (cases "\<not> key_active k \<or> key_revoked k \<noteq> None")
    case True
    then have "key_revoked k \<noteq> None" using assms(2) found by (auto simp: catalog_typed_def list_all_iff key_typed_def)
    moreover have "d' = d" using assms(1) k True by (auto simp: revoke_key_def raise_def ret_def split: if_splits)
    ultimately show ?thesis using found by (auto simp: dead_key_def)
  next
    case False
    then obtain r0 where "modify_key kid (revoked now) d = (r0, d')" "r0 = Inr ()"
      using assms(1) k by (auto simp: revoke_key_def raise_def ret_def bnd_def gets_def split: if_splits prod.splits sum.splits)
    then show ?thesis unfolding modify_key_def
      by (elim update_row_cases) (use found in \<open>auto simp: dead_key_revoked\<close>)
  qed
qed

lemma find_active_key_new:
  assumes "\<forall>k' \<in> set ks. key_hash k' \<noteq> key_hash k" "key_active k" "key_revoked k = None"
  shows "find_active_key (key_hash k) (d\<lparr>api_keys := ks @ [k]\<rparr>) = Some k"
proof -
  have "filter (\<lambda>k'. key_hash k' = key_hash k \<and> key_active k' \<and> key_revoked k' = None) ks = []"
    using assms(1) by (simp add: filter_empty_conv)
  then show ?thesis using assms(2,3) by (simp add: find_active_key_def find_first_def find_many_def)
qed

text \<open>C21: The life of an API key. A created key authorizes its user at once (unless another stored key has
  the same hash); once anybody entitled to has revoked it, after any requests, no request ever makes it
  work again.\<close>

theorem key_lifecycle:
  assumes "catalog_typed d" "create_key sha cfg now kid random label u d = (Inr c, d1)"
    and "\<forall>k \<in> set (api_keys d). key_hash k \<noteq> hash_incoming_api_key sha cfg (ck_raw c)"
    and "label = js_trim label" "text_ok 1 60 label"
  shows "(\<exists>k. find_active_key (hash_incoming_api_key sha cfg (ck_raw c)) d1 = Some k
            \<and> key_id k = ck_id c \<and> key_user k = au_id u)
    \<and> (revoke_key now' (ck_id c) v (serve_all rs1 d1) = (Inr x, d2) \<longrightarrow>
         find_active_key y (serve_all rs2 d2) = Some k2 \<longrightarrow> key_id k2 \<noteq> ck_id c)"
proof -
  let ?k = "new_key sha cfg now kid (generate_raw_api_key random) label u"
  have c: "c = \<lparr>ck_id = kid, ck_label = label, ck_raw = generate_raw_api_key random, ck_created = now\<rparr>"
    and ins: "insert_key ?k d = (Inr (), d1)"
    using assms(2) by (auto simp: create_key_def Let_def bnd_def ret_def split: prod.splits sum.splits)
  then have d1: "d1 = d\<lparr>api_keys := api_keys d @ [?k]\<rparr>"
    unfolding insert_key_def by (auto elim: insert_row_cases)
  have hash: "hash_incoming_api_key sha cfg (ck_raw c) = key_hash ?k"
    by (simp add: c hash_incoming_api_key_def new_key_def)
  have "find_active_key (key_hash ?k) d1 = Some ?k"
    unfolding d1 by (rule find_active_key_new) (use assms(3) hash in \<open>simp_all add: new_key_def\<close>)
  then have works: "\<exists>k. find_active_key (hash_incoming_api_key sha cfg (ck_raw c)) d1 = Some k
      \<and> key_id k = ck_id c \<and> key_user k = au_id u"
    unfolding hash by (simp add: c new_key_def)
  have "create_key_schema label = Some label" using assms(4,5) by (simp add: create_key_schema_def zod_text_Some text_ok_def)
  from typed_steps [OF by_stepsD [OF keep_create_key [OF this] assms(2)] assms(1)] have t1: "catalog_typed d1" .
  have "key_id k2 \<noteq> ck_id c"
    if "revoke_key now' (ck_id c) v (serve_all rs1 d1) = (Inr x, d2)" "find_active_key y (serve_all rs2 d2) = Some k2"
  proof -
    have t: "catalog_typed (serve_all rs1 d1)" using t1 by (rule serve_all_typed)
    have "catalog_typed d2" using typed_steps [OF by_stepsD [OF keep_revoke that(1)] t] .
    then show ?thesis
      using dead_key_inactive [OF serve_all_keeps_dead [OF revoke_key_kills [OF that(1) t]] serve_all_typed that(2)] by simp
  qed
  then show ?thesis using works by simp
qed

section \<open>Sessions\<close>

definition session_gone :: "string \<Rightarrow> db \<Rightarrow> bool" where
  "session_gone tid d \<longleftrightarrow> tid \<notin> rt_id ` set (refresh_tokens d)"

definition session_step :: "string \<Rightarrow> db \<Rightarrow> db \<Rightarrow> bool" where
  "session_step tid d d' \<longleftrightarrow> (session_gone tid d \<longrightarrow> session_gone tid d')"

lemma session_steps: "(session_step tid)\<^sup>*\<^sup>* d d' \<Longrightarrow> session_gone tid d \<Longrightarrow> session_gone tid d'"
  by (induction rule: rtranclp_induct) (auto simp: session_step_def)

lemma session_frame: "refresh_tokens d' = refresh_tokens d \<Longrightarrow> session_step tid d d'"
  by (simp add: session_step_def session_gone_def)

lemma session_writes [steps_intros]:
  "by_steps (session_step tid) (create_user ur)" "by_steps (session_step tid) (update_user uid ug)"
  "by_steps (session_step tid) (insert_product r)" "by_steps (session_step tid) (modify_product now pid g)"
  "by_steps (session_step tid) (insert_version v)" "by_steps (session_step tid) (modify_version vid vg)"
  "by_steps (session_step tid) (insert_key k)" "by_steps (session_step tid) (modify_key kid kg)"
  unfolding row_writes
  by (rule by_steps_step, erule insert_row_cases update_row_cases, simp_all add: session_frame)+

lemma session_other_writes [steps_intros]:
  "by_steps (session_step tid) (insert_plan p)" "by_steps (session_step tid) (insert_view w)"
  "by_steps (session_step tid) (admin_audit now rid u a res i details)"
  by (rule by_steps_step, auto simp: insert_plan_def raise_def admin_audit_def record_with_client_def insert_audit_def
      insert_view_def writes_def session_frame elim!: insert_row_cases split: if_splits option.splits)+

lemma session_delete [steps_intros]: "by_steps (session_step tid) (delete_refresh_tokens p)"
  by (rule by_steps_step) (auto simp: delete_refresh_tokens_run session_step_def session_gone_def)

lemma session_create [steps_intros]:
  assumes "rt_id t \<noteq> tid"
  shows "by_steps (session_step tid) (create_refresh_token t)"
  unfolding create_refresh_token_def
  by (rule by_steps_step, erule insert_row_cases) (use assms in \<open>auto simp: session_step_def session_gone_def\<close>)

lemma serve_keeps_gone:
  assumes "ae_token_id (he_auth_env env) \<noteq> tid"
  shows "by_steps (session_step tid) (serve env h req)"
  using assms
  by (cases req)
    (auto simp: create_product_def update_product_def get_product_by_id_def record_product_view_def create_version_def
       update_version_def create_plan_def create_key_def revoke_key_def hide_product_def hide_version_def
       admin_revoke_key_def update_my_role_def change_password_def register_def login_def refresh_def logout_def
       open_session_def Let_def
     intro!: steps_intros keep_validated)

lemma serve_all_keeps_gone:
  assumes "session_gone tid d" "list_all (\<lambda>(env, h, req). ae_token_id (he_auth_env env) \<noteq> tid) rs"
  shows "session_gone tid (serve_all rs d)"
  using assms
proof (induction rs d rule: serve_all.induct)
  case (2 env h req rs d)
  then show ?case
    using session_steps [OF by_stepsD [OF serve_keeps_gone prod.collapse [symmetric]]] by simp
qed simp

lemma refresh_gone:
  assumes "au_verify_refresh pf token (ae_now env) = Some p" "rp_rtid p = Some tid" "session_gone tid d"
  shows "refresh pf env token d = (Inl (unauthorized_error ''UNAUTHORIZED''), d)"
proof -
  have "find_refresh_token tid d = None"
    using assms(3) by (auto simp: find_refresh_token_def session_gone_def find_unique_None split: option.splits dest: find_unique_Some)
  then show ?thesis using assms(1,2)
    by (simp add: refresh_def raise_def verify_refresh_token_def bnd_def gets_def from_result_def)
qed

lemma prog_run: "raise e d = (Inl e, d)" "ret x d = (Inr x, d)" "from_result r d = (r, d)" "gets f d = (Inr (f d), d)"
  by (simp_all add: raise_def ret_def from_result_def gets_def)

lemma refresh_Inr:
  assumes "refresh pf env token d = (Inr x, d')" "au_verify_refresh pf token (ae_now env) = Some p"
    and "rp_rtid p = Some tid"
  obtains t u where "find_refresh_token tid d = Some (t, u)" "open_session pf env u d = (Inr x, d')"
    "ae_now env < rt_expires t" "au_compare pf token (rt_hash t)"
proof -
  have "token \<noteq> []" using assms(1) by (auto simp: refresh_def raise_def)
  then have run: "(case find_refresh_token tid d of None \<Rightarrow> raise (unauthorized_error ''UNAUTHORIZED'')
      | Some (t, u) \<Rightarrow> if rt_expires t \<le> ae_now env
          then bnd (delete_refresh_tokens (\<lambda>t'. rt_id t' = rt_id t)) (\<lambda>_. raise (unauthorized_error ''UNAUTHORIZED''))
          else if \<not> au_compare pf token (rt_hash t)
          then bnd (delete_refresh_tokens (\<lambda>t'. rt_user t' = rt_user t)) (\<lambda>_. raise (unauthorized_error ''UNAUTHORIZED''))
          else open_session pf env u) d = (Inr x, d')"
    using assms by (simp add: refresh_def verify_refresh_token_def bnd_def prog_run split: if_splits)
  show ?thesis
  proof (cases "find_refresh_token tid d")
    case None
    then show ?thesis using run by (simp add: raise_def)
  next
    case (Some tu)
    obtain t u where tu: "tu = (t, u)" by (cases tu)
    show ?thesis using run unfolding Some tu
      by (intro that [OF Some [unfolded tu]]) (simp_all add: bnd_def raise_def delete_refresh_tokens_run split: if_splits)
  qed
qed

lemma refresh_spends:
  assumes "refresh pf env token d = (Inr x, d')" "au_verify_refresh pf token (ae_now env) = Some p"
    and "rp_rtid p = Some tid" "ae_token_id env \<noteq> tid" "catalog_typed d"
  shows "session_gone tid d'"
proof -
  obtain t u where t: "find_refresh_token tid d = Some (t, u)" "open_session pf env u d = (Inr x, d')"
    by (rule refresh_Inr [OF assms(1-3)])
  note found = find_refresh_token_Some [OF t(1)]
  have other: "rt_id t' \<noteq> tid" if "t' \<in> set (refresh_tokens d)" "rt_user t' \<noteq> usr_id u" for t'
    using col_unique_row [of "\<lambda>t. Some (rt_id t)" "refresh_tokens d" t' t] assms(5) that found
    by (auto simp: catalog_typed_def)
  from t(2) show ?thesis
  proof (cases rule: open_session_cases)
    case 2
    then show ?thesis using other assms(4) by (auto simp: session_gone_def)
  qed simp
qed

text \<open>C22: A refresh token is good for one refresh. After a successful refresh, and any further requests that
  draw other token ids, presenting the same token again is refused and changes nothing (the signature
  fixes the payload of a token at any time).\<close>

theorem refresh_token_single_use:
  assumes "catalog_typed d" "refresh pf env token d = (Inr x, d')"
    and "au_verify_refresh pf token (ae_now env) = Some p" "rp_rtid p = Some tid" "ae_token_id env \<noteq> tid"
    and "list_all (\<lambda>(env, h, req). ae_token_id (he_auth_env env) \<noteq> tid) rs"
    and "\<forall>t q. au_verify_refresh pf token t = Some q \<longrightarrow> q = p"
  shows "refresh pf env' token (serve_all rs d')
    = (Inl (unauthorized_error ''UNAUTHORIZED''), serve_all rs d')"
proof (cases "au_verify_refresh pf token (ae_now env')")
  case None
  then show ?thesis by (simp add: refresh_def raise_def verify_refresh_token_def bnd_def from_result_def)
next
  case (Some q)
  then have "q = p" using assms(7) by blast
  then show ?thesis
    using refresh_gone [OF Some] assms(4) serve_all_keeps_gone [OF refresh_spends [OF assms(2-5,1)] assms(6)] by simp
qed

text \<open>A change of the password ends every session of the user.\<close>

lemma change_password_ends_sessions:
  assumes "change_password pf env uid i d = (Inr y, d')"
  shows "\<forall>t \<in> set (refresh_tokens d'). rt_user t \<noteq> uid"
proof -
  obtain u where "find_user uid d = Some u" "tx (bnd (update_user uid (\<lambda>u. u\<lparr>usr_password := au_hash pf (ae_salt env) (cw_new i)\<rparr>))
      (\<lambda>_. delete_refresh_tokens (\<lambda>t. rt_user t = uid))) d = (Inr y, d')"
    using assms by (auto simp: change_password_def raise_def split: option.splits if_splits)
  then obtain d1 where "delete_refresh_tokens (\<lambda>t. rt_user t = uid) d1 = (Inr y, d')"
    by (auto simp: tx_Inr bnd_Inr)
  then show ?thesis by (auto simp: delete_refresh_tokens_run)
qed

section \<open>Roles\<close>

definition admin_ids :: "db \<Rightarrow> string set" where
  "admin_ids d = set (map usr_id (filter (\<lambda>u. usr_role u = ADMIN) (users d)))"

lemma admin_ids_map:
  assumes "\<And>u. usr_id (g u) = usr_id u" "\<And>u. usr_role (g u) = usr_role u"
  shows "map usr_id (filter (\<lambda>u. usr_role u = ADMIN) (map (\<lambda>r. if usr_id r = uid then g r else r) us))
    = map usr_id (filter (\<lambda>u. usr_role u = ADMIN) us)"
  using assms by (induction us) simp_all

definition users_step :: "db \<Rightarrow> db \<Rightarrow> bool" where
  "users_step d d' \<longleftrightarrow> admin_ids d' = admin_ids d"

lemma users_steps: "users_step\<^sup>*\<^sup>* d d' \<Longrightarrow> admin_ids d' = admin_ids d"
  by (induction rule: rtranclp_induct) (auto simp: users_step_def)

lemma users_frame: "users d' = users d \<Longrightarrow> users_step d d'"
  by (simp add: users_step_def admin_ids_def)

lemma users_writes [steps_intros]:
  "by_steps users_step (insert_product r)" "by_steps users_step (modify_product now pid g)"
  "by_steps users_step (insert_version v)" "by_steps users_step (modify_version vid vg)"
  "by_steps users_step (insert_key k)" "by_steps users_step (modify_key kid kg)"
  "by_steps users_step (create_refresh_token t)"
  unfolding row_writes
  by (rule by_steps_step, erule insert_row_cases update_row_cases, simp_all add: users_frame)+

lemma users_other_writes [steps_intros]:
  "by_steps users_step (insert_plan p)" "by_steps users_step (insert_view w)"
  "by_steps users_step (admin_audit now rid u a res i details)" "by_steps users_step (delete_refresh_tokens q)"
  by (rule by_steps_step, auto simp: insert_plan_def raise_def admin_audit_def record_with_client_def insert_audit_def
      insert_view_def writes_def users_frame delete_refresh_tokens_run elim!: insert_row_cases split: if_splits option.splits)+

lemma users_create [steps_intros]:
  assumes "usr_role u \<noteq> ADMIN"
  shows "by_steps users_step (create_user u)"
  unfolding create_user_def
  by (rule by_steps_step, erule insert_row_cases) (use assms in \<open>auto simp: users_step_def admin_ids_def\<close>)

lemma users_update [steps_intros]:
  assumes "\<And>u. usr_id (g u) = usr_id u" "\<And>u. usr_role (g u) = usr_role u"
  shows "by_steps users_step (update_user uid g)"
  unfolding update_user_def
  by (rule by_steps_step, erule update_row_cases)
    (simp_all add: users_frame users_step_def admin_ids_def admin_ids_map [OF assms] del: set_map)

lemma promote_keeps_admins:
  assumes "\<And>u. u \<in> set us \<Longrightarrow> usr_id u = uid \<Longrightarrow> usr_role u \<noteq> ADMIN"
  shows "map usr_id (filter (\<lambda>u. usr_role u = ADMIN)
      (map (\<lambda>r. if usr_id r = uid then r\<lparr>usr_role := SELLER\<rparr> else r) us))
    = map usr_id (filter (\<lambda>u. usr_role u = ADMIN) us)"
  using assms by (induction us) auto

lemma update_my_role_admins:
  assumes "update_my_role uid r d = (res, d')" "catalog_typed d"
  shows "admin_ids d' = admin_ids d"
proof (cases "d' = d")
  case False
  then obtain u x where u: "find_user uid d = Some u" "usr_role u = BUYER"
    "bnd (update_user uid (\<lambda>u. u\<lparr>usr_role := SELLER\<rparr>)) (\<lambda>_. ret x) d = (res, d')"
    using assms(1) by (cases "find_user uid d")
      (auto simp: update_my_role_def prog_run split: if_splits role.splits intro: role.exhaust)
  have only: "usr_role v \<noteq> ADMIN" if "v \<in> set (users d)" "usr_id v = uid" for v
    using col_unique_row [of "\<lambda>u. Some (usr_id u)" "users d" v u] assms(2) that find_user_Some [OF u(1)] u(2)
    by (auto simp: catalog_typed_def)
  obtain r0 where "update_user uid (\<lambda>u. u\<lparr>usr_role := SELLER\<rparr>) d = (r0, d')" using u(3) by (rule bnd_ret_state)
  then show ?thesis unfolding update_user_def
  proof (cases rule: update_row_cases)
    case 2
    then show ?thesis using promote_keeps_admins [of "users d" uid, OF only] by (simp add: admin_ids_def del: set_map)
  qed simp
qed simp

lemma users_register: "by_steps users_step (register pf ae ri)"
  unfolding register_def
  by (intro steps_intros by_steps_result)
    (auto simp: new_user_def zod_pipe_Inr register_schema_def split: option.splits if_splits)

lemma serve_keeps_admins:
  assumes "catalog_typed d" "serve env h req d = (r, d')"
  shows "admin_ids d' = admin_ids d"
proof (cases "\<exists>x. req = UpdateRole x")
  case True
  then obtain x where "as_user env h [] (\<lambda>u. validated (\<lambda>r. if r = SELLER then Some r else None) x
      (\<lambda>r. no_answer (update_my_role (au_id u) r))) d = (r, d')" using assms(2) by auto
  then show ?thesis
    by (elim as_user_cases validated_cases no_answer_cases) (use update_my_role_admins assms(1) in auto)
next
  case False
  then have steps: "by_steps users_step (serve env h req)"
    by (cases req)
      (auto simp: create_product_def update_product_def get_product_by_id_def record_product_view_def create_version_def
         update_version_def create_plan_def create_key_def revoke_key_def hide_product_def hide_version_def
         admin_revoke_key_def change_password_def login_def refresh_def logout_def open_session_def Let_def
       intro!: steps_intros keep_validated users_register)
  show ?thesis by (rule users_steps [OF by_stepsD [OF steps assms(2)]])
qed

text \<open>C23: No request, by anybody, makes an administrator or removes one: over any run the administrators are
  the same users (a registration asks for the roles buyer or seller, a user can only become a seller).\<close>

theorem no_request_makes_admins:
  assumes "catalog_typed d"
  shows "admin_ids (serve_all rs d) = admin_ids d"
  using assms
proof (induction rs d rule: serve_all.induct)
  case (2 env h req rs d)
  then show ?case
    using serve_typed [OF _ prod.collapse [symmetric]] serve_keeps_admins [OF _ prod.collapse [symmetric]] by simp
qed simp

section \<open>A fresh token works\<close>

lemma open_session_succeeds:
  assumes "usr_id u \<in> usr_id ` set (users d)"
    and "\<forall>t \<in> set (refresh_tokens d). rt_user t \<noteq> usr_id u \<longrightarrow> rt_id t \<noteq> ae_token_id env"
  shows "\<exists>x d'. open_session pf env u d = (Inr x, d')"
proof -
  let ?row = "\<lparr>rt_id = ae_token_id env, rt_user = usr_id u,
    rt_hash = au_hash pf (ae_salt env) (refresh_token_text pf env u),
    rt_expires = ae_now env + au_refresh_ttl pf * 1000\<rparr>"
  let ?others = "filter (\<lambda>t. rt_user t \<noteq> usr_id u) (refresh_tokens d)"
  have "insert_unique token_viol ?row ?others = Inr (?others @ [?row])"
    unfolding insert_unique_Inr using assms(2) by (auto simp: token_viol_def)
  moreover have "user_exists d (usr_id u)" using assms(1) by (simp add: user_exists_iff)
  ultimately show ?thesis
    by (simp add: open_session_def bnd_def delete_refresh_tokens_run Let_def prog_run create_refresh_token_def
        insert_row_def writes_def user_exists_def)
qed

text \<open>The token of a session that was just opened is accepted until it expires.\<close>

lemma fresh_token_refreshes:
  assumes "sound_platform pf" "open_session pf env u d = (Inr (a, token), d1)" "u \<in> set (users d)"
    and "ae_token_id env \<noteq> []" "ae_now env' < ae_now env + au_refresh_ttl pf * 1000"
    and "\<forall>t \<in> set (refresh_tokens d1). rt_user t \<noteq> usr_id u \<longrightarrow> rt_id t \<noteq> ae_token_id env'"
  shows "\<exists>x d2. refresh pf env' token d1 = (Inr x, d2)"
  using assms(2)
proof (cases rule: open_session_cases)
  case 2
  let ?p = "\<lparr>rp_rtid = Some (ae_token_id env), rp_sub = Some (usr_id u)\<rparr>"
  obtain t where t: "find_unique (\<lambda>t. rt_id t = ae_token_id env) (refresh_tokens d1) = Some t"
    "t = \<lparr>rt_id = ae_token_id env, rt_user = usr_id u, rt_hash = au_hash pf (ae_salt env) (refresh_token_text pf env u),
      rt_expires = ae_now env + au_refresh_ttl pf * 1000\<rparr>"
  proof -
    have "find_unique (\<lambda>t. rt_id t = ae_token_id env) (refresh_tokens d1) \<noteq> None"
      using 2(2) by (auto simp: find_unique_None)
    then obtain t where f: "find_unique (\<lambda>t. rt_id t = ae_token_id env) (refresh_tokens d1) = Some t" by blast
    from find_unique_Some [OF f] 2(2,3) show ?thesis by (intro that [OF f]) auto
  qed
  have "users d1 = users d" using 2(2) by simp
  then obtain w where w: "find_user (usr_id u) d1 = Some w"
    using assms(3) by (cases "find_user (usr_id u) d1") (auto simp: find_user_def find_unique_None)
  then have id: "usr_id w = usr_id u" using find_user_Some by blast
  have token: "token = au_sign_refresh pf ?p (ae_now env)" using 2(1) by (simp add: refresh_token_text_def)
  have laws: "token \<noteq> []" "au_verify_refresh pf token (ae_now env') = Some ?p"
    "au_compare pf token (au_hash pf (ae_salt env) token)"
    using assms(1,5) unfolding token sound_platform_def by blast+
  have "refresh pf env' token d1 = open_session pf env' w d1"
    using laws t w 2(1) assms(4,5)
    by (simp add: refresh_def verify_refresh_token_def bnd_def prog_run find_refresh_token_def js_truthy_str_def)
  moreover have "\<exists>x d2. open_session pf env' w d1 = (Inr x, d2)"
    using open_session_succeeds [of w d1 env' pf] id assms(3,6) \<open>users d1 = users d\<close> by auto
  ultimately show ?thesis by simp
qed simp

end
