(* ===== verification/CatalogFacts.thy ===== *)
theory CatalogFacts
  imports Visibility Credentials
begin

text \<open>
  A concrete catalog: a seller and a buyer register, log in, publish, create a key; the instances of
  the properties of the catalog and of the credentials.
\<close>

section \<open>A concrete service\<close>

text \<open>Tokens of the examples: the access token names the role by its first letter; the refresh token is
  the token id after an \<open>r\<close>; a password is its own hash.\<close>

definition sample_verify :: "string \<Rightarrow> access_payload option" where
  "sample_verify token =
     (if token = ''seller'' then Some \<lparr>ap_sub = Some ''u1'', ap_email = Some ''s@x.y'', ap_role = Some SELLER\<rparr>
      else if token = ''buyer'' then Some \<lparr>ap_sub = Some ''u2'', ap_email = Some ''b@x.y'', ap_role = Some BUYER\<rparr>
      else None)"

definition sample_platform_auth :: auth_platform where
  "sample_platform_auth = \<lparr>au_hash = (\<lambda>salt p. p), au_compare = (\<lambda>p h. p = h),
     au_sign_access = (\<lambda>p t. ''access''), au_sign_refresh = (\<lambda>p t. CHR ''r'' # the (rp_rtid p)),
     au_verify_refresh = (\<lambda>token t. if take 1 token = ''r''
        then Some \<lparr>rp_rtid = Some (tl token), rp_sub = None\<rparr> else None),
     au_valid_email = (\<lambda>e. True), au_refresh_ttl = 3600\<rparr>"

definition sample_version_env :: version_env where
  "sample_version_env = \<lparr>ve_new_url = (\<lambda>s. Some (sample_url ''api.example.org'')),
     ve_dns = (\<lambda>h. Some [''93.184.216.34'']),
     ve_fetch = (\<lambda>u. Some \<lparr>or_ok = True, or_status = 200, or_body = Some ''openapi: 3.0.0''\<rparr>),
     ve_allow_private = False, ve_now = 1000\<rparr>"

definition sample_env :: "string \<Rightarrow> http_env" where
  "sample_env fresh = \<lparr>he_verify = sample_verify, he_auth = sample_platform_auth,
     he_auth_env = \<lparr>ae_now = 1000, ae_token_id = fresh, ae_user_id = fresh, ae_salt = []\<rparr>,
     he_version = sample_version_env, he_sha256 = (\<lambda>s. s), he_contains = (\<lambda>a b. a = b), he_usage = sample_usage_config,
     he_now = 1000, he_id = fresh, he_random = fresh, he_request_id = None,
     he_cookie_secure = True, he_cookie_domain = None\<rparr>"

definition sample_session :: "(http_env \<times> string option \<times> catalog_request) list" where
  "sample_session =
     [(sample_env ''u1'', None, Register \<lparr>rg_email = '' S@x.y'', rg_password = ''secret12'', rg_role = Some SELLER\<rparr>),
      (sample_env ''u2'', None, Register \<lparr>rg_email = ''b@x.y'', rg_password = ''secret12'', rg_role = None\<rparr>),
      (sample_env ''p1'', Some ''Bearer seller'', CreateProduct \<lparr>np_title = ''Weather'',
         np_description = ''Weather of the world'', np_category = ''Data'', np_tags = [''maps'']\<rparr>),
      (sample_env ''v1'', Some ''Bearer seller'', CreateVersion ''p1''
         \<lparr>cv_version = ''1.0'', cv_openapi_url = ''https://api.example.org/doc''\<rparr>),
      (sample_env ''x'', Some ''Bearer seller'', UpdateVersion ''v1''
         \<lparr>uv_status = Some VPublished, uv_openapi_url = None\<rparr>),
      (sample_env ''x'', Some ''Bearer seller'', UpdateProduct ''p1'' \<lparr>up_title = None, up_description = None,
         up_category = None, up_tags = None, up_status = Some PPublished\<rparr>),
      (sample_env ''pl1'', Some ''Bearer seller'', CreatePlan \<lparr>pi_product = ''p1'', pi_name = ''Basic'', pi_price = 1000,
         pi_currency = None, pi_period = None, pi_quota = 100, pi_rpm = None, pi_allow_overage = Some True,
         pi_overage_unit = Some 10, pi_overage_price = Some 5, pi_active = None\<rparr>),
      (sample_env ''t1'', None, Login \<lparr>lg_email = ''s@X.y'', lg_password = ''secret12''\<rparr>)]"

definition sample_catalog :: db where
  "sample_catalog = serve_all sample_session empty_db"

lemma empty_typed: "catalog_typed empty_db"
  by code_simp

text \<open>The session did what it should: all rows are there, published.\<close>

lemma sample_catalog_rows:
  "map usr_email (users sample_catalog) = [''s@x.y'', ''b@x.y'']
   \<and> map (\<lambda>r. (prod_id r, prod_owner r, prod_status r)) (products sample_catalog) = [(''p1'', ''u1'', PPublished)]
   \<and> map (\<lambda>v. (ver_id v, ver_status v)) (versions sample_catalog) = [(''v1'', VPublished)]
   \<and> map (\<lambda>p. (plan_id p, plan_overage_unit p)) (plans sample_catalog) = [(''pl1'', Some 10)]
   \<and> map rt_id (refresh_tokens sample_catalog) = [''t1'']"
  by code_simp

theorem catalog_stays_typed_witness: "catalog_typed sample_catalog"
  unfolding sample_catalog_def by (rule catalog_stays_typed [OF empty_typed])

lemma sample_catalog_typed: "catalog_typed sample_catalog"
  unfolding sample_catalog_def by (rule serve_all_typed [OF empty_typed])

section \<open>Instances\<close>

theorem requests_touch_own_rows_witness:
  "others_kept (caller (sample_env ''k1'') (Some ''Bearer buyer'')) sample_catalog
     (snd (serve (sample_env ''k1'') (Some ''Bearer buyer'') (CreateKey ''mine'') sample_catalog))"
proof -
  have "\<forall>u. caller (sample_env ''k1'') (Some ''Bearer buyer'') = Some u \<longrightarrow> au_role u \<noteq> ADMIN"
  proof -
    have "map_option au_role (caller (sample_env ''k1'') (Some ''Bearer buyer'')) = Some BUYER" by code_simp
    then show ?thesis by auto
  qed
  from requests_touch_own_rows [OF sample_catalog_typed prod.collapse [symmetric] this] show ?thesis by (rule conjunct1)
qed

text \<open>The same catalog with a draft product that nobody else may see.\<close>

definition draft_catalog :: db where
  "draft_catalog = serve_all [(sample_env ''p2'', Some ''Bearer seller'', CreateProduct \<lparr>np_title = ''Secret'',
     np_description = ''Not published yet'', np_category = ''Data'', np_tags = []\<rparr>)] sample_catalog"


theorem key_lifecycle_witness:
  "let (r, d1) = create_key (\<lambda>s. s) sample_usage_config 1000 ''k1'' ''random'' ''mine''
         \<lparr>au_id = ''u2'', au_email = ''b@x.y'', au_role = BUYER\<rparr> sample_catalog
   in \<exists>c k. r = Inr c \<and> find_active_key (hash_incoming_api_key (\<lambda>s. s) sample_usage_config (ck_raw c)) d1 = Some k
      \<and> key_user k = ''u2''"
proof -
  let ?u = "\<lparr>au_id = ''u2'', au_email = ''b@x.y'', au_role = BUYER\<rparr>"
  let ?run = "create_key (\<lambda>s. s) sample_usage_config 1000 ''k1'' ''random'' ''mine'' ?u sample_catalog"
  have none: "api_keys sample_catalog = []" and user: "user_exists sample_catalog ''u2''" by code_simp+
  obtain c d1 where run: "?run = (Inr c, d1)"
    by (rule create_key_succeeds [of sample_catalog ?u]) (simp_all add: user none)
  have label: "''mine'' = js_trim ''mine''" "text_ok 1 60 ''mine''" by code_simp+
  have fresh: "\<forall>k \<in> set (api_keys sample_catalog). key_hash k \<noteq> hash_incoming_api_key (\<lambda>s. s) sample_usage_config (ck_raw c)"
    unfolding none by simp
  from key_lifecycle [OF sample_catalog_typed run fresh label, THEN conjunct1]
  obtain k where k: "find_active_key (hash_incoming_api_key (\<lambda>s. s) sample_usage_config (ck_raw c)) d1 = Some k"
    "key_user k = au_id ?u" by blast
  show ?thesis unfolding run Let_def prod.case
    by (rule exI [of _ c], rule exI [of _ k], intro conjI refl, rule k(1)) (use k(2) in simp)
qed

theorem refresh_token_single_use_witness:
  "let d1 = snd (refresh sample_platform_auth (he_auth_env (sample_env ''t2'')) ''rt1'' sample_catalog)
   in map rt_id (refresh_tokens d1) = [''t2'']
      \<and> refresh sample_platform_auth (he_auth_env (sample_env ''t3'')) ''rt1'' d1
        = (Inl (unauthorized_error ''UNAUTHORIZED''), d1)"
proof -
  let ?env = "he_auth_env (sample_env ''t2'')"
  let ?run = "refresh sample_platform_auth ?env ''rt1'' sample_catalog"
  obtain r d1 where run: "?run = (r, d1)" by (rule prod.exhaust)
  have "case fst ?run of Inr x \<Rightarrow> True | Inl e \<Rightarrow> False" by code_simp
  from this [unfolded run fst_conv] obtain x where x: "r = Inr x" by (cases r) auto
  have "map rt_id (refresh_tokens (snd ?run)) = [''t2'']" by code_simp
  note ids = this [unfolded run snd_conv]
  let ?p = "\<lparr>rp_rtid = Some ''t1'', rp_sub = None\<rparr>"
  have verify: "au_verify_refresh sample_platform_auth ''rt1'' t = Some ?p" for t
    by (simp add: sample_platform_auth_def)
  have "ae_token_id ?env \<noteq> ''t1''" by (simp add: sample_env_def)
  have same: "\<forall>t q. au_verify_refresh sample_platform_auth ''rt1'' t = Some q \<longrightarrow> q = ?p"
    using verify by simp
  have fresh: "list_all (\<lambda>(env, h, req). ae_token_id (he_auth_env env) \<noteq> ''t1'') []" by simp
  have tid: "rp_rtid ?p = Some ''t1''" by simp
  note spent = refresh_token_single_use [OF sample_catalog_typed run [unfolded x] verify tid
    \<open>ae_token_id ?env \<noteq> ''t1''\<close> fresh same, unfolded serve_all.simps]
  show ?thesis unfolding run snd_conv Let_def using ids spent by blast
qed

theorem no_request_makes_admins_witness: "admin_ids draft_catalog = {}"
proof -
  have "admin_ids draft_catalog = admin_ids sample_catalog"
    unfolding draft_catalog_def by (rule no_request_makes_admins [OF sample_catalog_typed])
  moreover have "admin_ids sample_catalog = {}" by code_simp
  ultimately show ?thesis by simp
qed

end
