(* ===== verification/Monitoring.thy ===== *)
theory Monitoring
  imports Lease JsString
begin

text \<open>
  \<open>src/common/observability/operational-monitoring.service.ts\<close>: the operational metrics read from the
  tables and the alerts derived from them. The queries of a snapshot read one state. Ages in whole
  seconds are exact divisions: the differences of two times are integers far below the
  precision of a double.
\<close>

section \<open>Metrics\<close>

definition past_due_warning_threshold :: int where
  "past_due_warning_threshold = 10"

definition backlog_warning_threshold :: int where
  "backlog_warning_threshold = 100"

definition oldest_pending_age :: "date \<Rightarrow> db \<Rightarrow> int" where
  "oldest_pending_age now d = (case find_first job_created (\<lambda>j. job_stat j = JPending) (jobs d) of
     None \<Rightarrow> 0
   | Some j \<Rightarrow> max 0 ((now - job_created j) div 1000))"

definition seconds_until_expiry :: "date \<Rightarrow> lease_row option \<Rightarrow> int" where
  "seconds_until_expiry now lease = (case lease of None \<Rightarrow> 0 | Some l \<Rightarrow> (lease_expires l - now) div 1000)"

text \<open>The leases are read only when their worker is configured to run.\<close>

definition read_lease :: "bool \<Rightarrow> string \<Rightarrow> db \<Rightarrow> lease_row option" where
  "read_lease enabled name d = (if enabled then find_lease name d else None)"

definition get_metrics_snapshot :: "usage_config \<Rightarrow> billing_config \<Rightarrow> date \<Rightarrow> db \<Rightarrow> metrics_snapshot" where
  "get_metrics_snapshot uc bc now d =
     (let stripe = (payment_provider bc = STRIPE);
          usage = read_lease (queue_enabled uc) usage_ingest_lease_name d;
          reconciliation = read_lease (stripe \<and> reconciliation_enabled bc) reconciliation_lease_name d;
          overage = read_lease (stripe \<and> overage_enabled bc) overage_lease_name d in
      \<lparr>ms_pending = int (length (filter (\<lambda>j. job_stat j = JPending) (jobs d))),
       ms_failed = int (length (filter (\<lambda>j. job_stat j = JFailed) (jobs d))),
       ms_oldest_age = oldest_pending_age now d,
       ms_usage_lease = (usage \<noteq> None), ms_usage_expiry = seconds_until_expiry now usage,
       ms_reconciliation_lease = (reconciliation \<noteq> None),
       ms_reconciliation_expiry = seconds_until_expiry now reconciliation,
       ms_overage_lease = (overage \<noteq> None), ms_overage_expiry = seconds_until_expiry now overage,
       ms_past_due = int (length (filter (\<lambda>s. sub_status s = PAST_DUE) (subs d))),
       ms_audit_logs = int (length (filter (\<lambda>r. now - 24 * 60 * 60 * 1000 \<le> log_created r) (audit_logs d)))\<rparr>)"

section \<open>Alerts\<close>

datatype alert_severity = AlertWarning | AlertDanger

record op_alert =
  oa_kind :: string
  oa_severity :: alert_severity
  oa_title :: string
  oa_message :: string
  oa_details :: "(string \<times> scalar) list option"

definition failed_jobs_alert :: "metrics_snapshot \<Rightarrow> op_alert" where
  "failed_jobs_alert s = \<lparr>oa_kind = ''USAGE_INGEST_FAILED_JOBS'', oa_severity = AlertDanger,
     oa_title = ''Usage ingest has failed jobs'',
     oa_message = js_int_to_string (ms_failed s) @ '' usage ingest job(s) are currently in FAILED state.'',
     oa_details = Some [(''failedJobs'', SNum (ms_failed s))]\<rparr>"

definition backlog_alert :: "metrics_snapshot \<Rightarrow> op_alert" where
  "backlog_alert s = \<lparr>oa_kind = ''USAGE_INGEST_BACKLOG'', oa_severity = AlertWarning,
     oa_title = ''Usage ingest backlog is growing'',
     oa_message = js_int_to_string (ms_pending s) @ '' usage ingest job(s) are waiting in the queue.'',
     oa_details = Some [(''pendingJobs'', SNum (ms_pending s))]\<rparr>"

definition worker_stale_alert :: "metrics_snapshot \<Rightarrow> op_alert" where
  "worker_stale_alert s = \<lparr>oa_kind = ''USAGE_INGEST_WORKER_STALE'', oa_severity = AlertDanger,
     oa_title = ''Usage ingest worker lease is stale'',
     oa_message = ''Queued usage jobs exist but the usage ingest worker lease is missing or expired.'',
     oa_details = Some [(''leasePresent'', SBool (ms_usage_lease s)),
       (''secondsUntilExpiry'', SNum (ms_usage_expiry s)), (''pendingJobs'', SNum (ms_pending s))]\<rparr>"

definition stale_threshold_seconds :: "usage_config \<Rightarrow> int" where
  "stale_threshold_seconds uc = max (queue_interval uc * 5) 300"

definition old_job_alert :: "usage_config \<Rightarrow> metrics_snapshot \<Rightarrow> op_alert" where
  "old_job_alert uc s = \<lparr>oa_kind = ''USAGE_INGEST_OLD_PENDING_JOB'', oa_severity = AlertWarning,
     oa_title = ''Usage ingest queue contains stale work'',
     oa_message = ''The oldest queued usage job is '' @ js_int_to_string (ms_oldest_age s) @ '' second(s) old.'',
     oa_details = Some [(''oldestPendingAgeSeconds'', SNum (ms_oldest_age s)),
       (''staleThresholdSeconds'', SNum (stale_threshold_seconds uc))]\<rparr>"

definition reconciliation_stale_alert :: "metrics_snapshot \<Rightarrow> op_alert" where
  "reconciliation_stale_alert s = \<lparr>oa_kind = ''BILLING_RECONCILIATION_STALE'', oa_severity = AlertWarning,
     oa_title = ''Billing reconciliation lease is stale'',
     oa_message = ''Stripe billing reconciliation is enabled but its worker lease is missing or expired.'',
     oa_details = Some [(''leasePresent'', SBool (ms_reconciliation_lease s)),
       (''secondsUntilExpiry'', SNum (ms_reconciliation_expiry s))]\<rparr>"

definition overage_stale_alert :: "metrics_snapshot \<Rightarrow> op_alert" where
  "overage_stale_alert s = \<lparr>oa_kind = ''BILLING_OVERAGE_COLLECTION_STALE'', oa_severity = AlertWarning,
     oa_title = ''Billing overage collection lease is stale'',
     oa_message = ''Automated overage collection is enabled but its worker lease is missing or expired.'',
     oa_details = Some [(''leasePresent'', SBool (ms_overage_lease s)),
       (''secondsUntilExpiry'', SNum (ms_overage_expiry s))]\<rparr>"

definition past_due_alert :: "metrics_snapshot \<Rightarrow> op_alert" where
  "past_due_alert s = \<lparr>oa_kind = ''SUBSCRIPTIONS_PAST_DUE_HIGH'', oa_severity = AlertWarning,
     oa_title = ''Past-due subscriptions exceed the warning threshold'',
     oa_message = js_int_to_string (ms_past_due s) @ '' subscription(s) are currently in PAST_DUE state.'',
     oa_details = Some [(''pastDueSubscriptions'', SNum (ms_past_due s)),
       (''warningThreshold'', SNum past_due_warning_threshold)]\<rparr>"

definition severity_order :: "alert_severity \<Rightarrow> nat" where
  "severity_order sev = (case sev of AlertDanger \<Rightarrow> 0 | AlertWarning \<Rightarrow> 1)"

definition push_if :: "bool \<Rightarrow> 'a \<Rightarrow> 'a list \<Rightarrow> 'a list" where
  "push_if b x xs = (if b then xs @ [x] else xs)"

definition lease_stale :: "bool \<Rightarrow> int \<Rightarrow> bool" where
  "lease_stale present expiry \<longleftrightarrow> \<not> present \<or> present \<and> expiry < 0"

definition derive_operational_alerts :: "usage_config \<Rightarrow> billing_config \<Rightarrow> metrics_snapshot \<Rightarrow> op_alert list" where
  "derive_operational_alerts uc bc s =
     (let stripe = (payment_provider bc = STRIPE);
          a1 = push_if (0 < ms_failed s) (failed_jobs_alert s) [];
          a2 = push_if (backlog_warning_threshold \<le> ms_pending s) (backlog_alert s) a1;
          a3 = push_if (queue_enabled uc \<and> 0 < ms_pending s \<and> lease_stale (ms_usage_lease s) (ms_usage_expiry s))
                 (worker_stale_alert s) a2;
          a4 = push_if (0 < ms_pending s \<and> stale_threshold_seconds uc \<le> ms_oldest_age s) (old_job_alert uc s) a3;
          a5 = push_if (stripe \<and> reconciliation_enabled bc
                 \<and> lease_stale (ms_reconciliation_lease s) (ms_reconciliation_expiry s))
                 (reconciliation_stale_alert s) a4;
          a6 = push_if (stripe \<and> overage_enabled bc \<and> lease_stale (ms_overage_lease s) (ms_overage_expiry s))
                 (overage_stale_alert s) a5;
          a7 = push_if (past_due_warning_threshold \<le> ms_past_due s) (past_due_alert s) a6
      in sort_key (\<lambda>a. severity_order (oa_severity a)) a7)"

definition list_operational_alerts :: "usage_config \<Rightarrow> billing_config \<Rightarrow> date \<Rightarrow> db \<Rightarrow> op_alert list" where
  "list_operational_alerts uc bc now d = derive_operational_alerts uc bc (get_metrics_snapshot uc bc now d)"

section \<open>The alerts of a state\<close>

lemmas alert_defs = failed_jobs_alert_def backlog_alert_def worker_stale_alert_def old_job_alert_def
  reconciliation_stale_alert_def overage_stale_alert_def past_due_alert_def

lemma mem_push_if: "y \<in> set (push_if b x xs) \<longleftrightarrow> y = x \<and> b \<or> y \<in> set xs"
  by (simp add: push_if_def)

lemma map_push_if: "map f (push_if b x xs) = push_if b (f x) (map f xs)"
  by (simp add: push_if_def)

lemma distinct_push_if: "distinct (push_if b x xs) \<longleftrightarrow> distinct xs \<and> (b \<longrightarrow> x \<notin> set xs)"
  by (auto simp: push_if_def)

text \<open>Every kind of alert is raised at most once.\<close>

lemma alert_kinds_distinct: "distinct (map oa_kind (derive_operational_alerts uc bc s))"
  unfolding derive_operational_alerts_def Let_def
  unfolding distinct_map distinct_sort set_sort unfolding distinct_map [symmetric] map_push_if
  by (simp only: distinct_push_if mem_push_if list.map list.set empty_iff alert_defs op_alert.simps distinct.simps) simp

lemma derived_kinds:
  "k \<in> set (map oa_kind (derive_operational_alerts uc bc s)) \<longleftrightarrow>
     k = ''SUBSCRIPTIONS_PAST_DUE_HIGH'' \<and> past_due_warning_threshold \<le> ms_past_due s
   \<or> k = ''BILLING_OVERAGE_COLLECTION_STALE''
       \<and> (payment_provider bc = STRIPE \<and> overage_enabled bc \<and> lease_stale (ms_overage_lease s) (ms_overage_expiry s))
   \<or> k = ''BILLING_RECONCILIATION_STALE'' \<and> (payment_provider bc = STRIPE \<and> reconciliation_enabled bc
       \<and> lease_stale (ms_reconciliation_lease s) (ms_reconciliation_expiry s))
   \<or> k = ''USAGE_INGEST_OLD_PENDING_JOB'' \<and> (0 < ms_pending s \<and> stale_threshold_seconds uc \<le> ms_oldest_age s)
   \<or> k = ''USAGE_INGEST_WORKER_STALE''
       \<and> (queue_enabled uc \<and> 0 < ms_pending s \<and> lease_stale (ms_usage_lease s) (ms_usage_expiry s))
   \<or> k = ''USAGE_INGEST_BACKLOG'' \<and> backlog_warning_threshold \<le> ms_pending s
   \<or> k = ''USAGE_INGEST_FAILED_JOBS'' \<and> 0 < ms_failed s"
  unfolding derive_operational_alerts_def Let_def set_map set_sort unfolding set_map [symmetric] map_push_if
  by (simp only: mem_push_if list.map list.set empty_iff alert_defs op_alert.simps simp_thms)

text \<open>A worker's lease is stale when it is missing or ran out at least a second ago, in whole seconds.\<close>

lemma lease_stale_iff:
  "lease_stale (l \<noteq> None) (seconds_until_expiry now l) \<longleftrightarrow> (case l of None \<Rightarrow> True | Some r \<Rightarrow> lease_expires r < now)"
  by (auto simp: lease_stale_def seconds_until_expiry_def split: option.splits)

lemma filter_pos: "0 < length (filter P xs) \<longleftrightarrow> list_ex P xs"
  by (auto simp: list_ex_iff filter_empty_conv)

lemma oldest_age_ge:
  assumes "0 < t"
  shows "t \<le> oldest_pending_age now d
    \<longleftrightarrow> list_ex (\<lambda>j. job_stat j = JPending \<and> job_created j \<le> now - t * 1000) (jobs d)"
proof (cases "find_first job_created (\<lambda>j. job_stat j = JPending) (jobs d)")
  case None
  have "oldest_pending_age now d = 0" "\<forall>j \<in> set (jobs d). job_stat j \<noteq> JPending"
    using None [unfolded find_first_None] by (simp_all add: oldest_pending_age_def None)
  then show ?thesis using assms by (auto simp: list_ex_iff)
next
  case (Some j)
  note j = find_first_Some [OF Some]
  have "t \<le> oldest_pending_age now d \<longleftrightarrow> job_created j \<le> now - t * 1000"
    using assms Some by (simp add: oldest_pending_age_def) linarith
  also have "\<dots> \<longleftrightarrow> list_ex (\<lambda>j. job_stat j = JPending \<and> job_created j \<le> now - t * 1000) (jobs d)"
    using j by (fastforce simp: list_ex_iff)
  finally show ?thesis .
qed

definition lease_expired :: "string \<Rightarrow> date \<Rightarrow> db \<Rightarrow> bool" where
  "lease_expired name now d = (case find_lease name d of None \<Rightarrow> True | Some l \<Rightarrow> lease_expires l < now)"

text \<open>The condition of every kind of alert, in terms of the tables.\<close>

definition alert_conditions :: "usage_config \<Rightarrow> billing_config \<Rightarrow> date \<Rightarrow> db \<Rightarrow> (string \<times> bool) list" where
  "alert_conditions uc bc now d =
     (let waiting = (\<lambda>j. job_stat j = JPending); stripe = (payment_provider bc = STRIPE) in
     [(''SUBSCRIPTIONS_PAST_DUE_HIGH'', 10 \<le> length (filter (\<lambda>s. sub_status s = PAST_DUE) (subs d))),
      (''BILLING_OVERAGE_COLLECTION_STALE'', stripe \<and> overage_enabled bc \<and> lease_expired ''billing:overage-collection'' now d),
      (''BILLING_RECONCILIATION_STALE'',
         stripe \<and> reconciliation_enabled bc \<and> lease_expired ''billing:stripe-reconciliation'' now d),
      (''USAGE_INGEST_OLD_PENDING_JOB'',
         list_ex (\<lambda>j. waiting j \<and> job_created j \<le> now - max (queue_interval uc * 5) 300 * 1000) (jobs d)),
      (''USAGE_INGEST_WORKER_STALE'', queue_enabled uc \<and> list_ex waiting (jobs d) \<and> lease_expired ''usage:ingest-queue'' now d),
      (''USAGE_INGEST_BACKLOG'', 100 \<le> length (filter waiting (jobs d))),
      (''USAGE_INGEST_FAILED_JOBS'', list_ex (\<lambda>j. job_stat j = JFailed) (jobs d))])"

lemma read_lease_stale:
  "lease_stale (read_lease b name d \<noteq> None) (seconds_until_expiry now (read_lease b name d))
   \<longleftrightarrow> (b \<longrightarrow> lease_expired name now d)"
  unfolding lease_stale_iff by (simp add: read_lease_def lease_expired_def)

lemma state_conditions:
  fixes uc bc now d
  defines "s \<equiv> get_metrics_snapshot uc bc now d"
  shows "0 < ms_failed s \<longleftrightarrow> list_ex (\<lambda>j. job_stat j = JFailed) (jobs d)"
    and "backlog_warning_threshold \<le> ms_pending s \<longleftrightarrow> 100 \<le> length (filter (\<lambda>j. job_stat j = JPending) (jobs d))"
    and "queue_enabled uc \<and> 0 < ms_pending s \<and> lease_stale (ms_usage_lease s) (ms_usage_expiry s)
      \<longleftrightarrow> queue_enabled uc \<and> list_ex (\<lambda>j. job_stat j = JPending) (jobs d) \<and> lease_expired ''usage:ingest-queue'' now d"
    and "payment_provider bc = STRIPE \<and> reconciliation_enabled bc \<and> lease_stale (ms_reconciliation_lease s) (ms_reconciliation_expiry s)
      \<longleftrightarrow> payment_provider bc = STRIPE \<and> reconciliation_enabled bc \<and> lease_expired ''billing:stripe-reconciliation'' now d"
    and "payment_provider bc = STRIPE \<and> overage_enabled bc \<and> lease_stale (ms_overage_lease s) (ms_overage_expiry s)
      \<longleftrightarrow> payment_provider bc = STRIPE \<and> overage_enabled bc \<and> lease_expired ''billing:overage-collection'' now d"
    and "0 < ms_pending s \<and> stale_threshold_seconds uc \<le> ms_oldest_age s
      \<longleftrightarrow> list_ex (\<lambda>j. job_stat j = JPending \<and> job_created j \<le> now - max (queue_interval uc * 5) 300 * 1000) (jobs d)"
    and "past_due_warning_threshold \<le> ms_past_due s \<longleftrightarrow> 10 \<le> length (filter (\<lambda>s. sub_status s = PAST_DUE) (subs d))"
proof -
  have pending: "0 < ms_pending s \<longleftrightarrow> list_ex (\<lambda>j. job_stat j = JPending) (jobs d)"
    by (simp add: s_def get_metrics_snapshot_def Let_def filter_pos del: length_greater_0_conv)
  have "0 < stale_threshold_seconds uc" by (simp add: stale_threshold_seconds_def)
  from oldest_age_ge [OF this, of now d]
  have "stale_threshold_seconds uc \<le> ms_oldest_age s
    \<longleftrightarrow> list_ex (\<lambda>j. job_stat j = JPending \<and> job_created j \<le> now - max (queue_interval uc * 5) 300 * 1000) (jobs d)"
    by (simp add: s_def get_metrics_snapshot_def Let_def stale_threshold_seconds_def)
  then show "0 < ms_pending s \<and> stale_threshold_seconds uc \<le> ms_oldest_age s
      \<longleftrightarrow> list_ex (\<lambda>j. job_stat j = JPending \<and> job_created j \<le> now - max (queue_interval uc * 5) 300 * 1000) (jobs d)"
    unfolding pending by (auto simp: list_ex_iff)
  have "lease_stale (ms_usage_lease s) (ms_usage_expiry s) \<longleftrightarrow> (queue_enabled uc \<longrightarrow> lease_expired usage_ingest_lease_name now d)"
    by (simp add: s_def get_metrics_snapshot_def Let_def read_lease_stale del: not_None_eq)
  then show "queue_enabled uc \<and> 0 < ms_pending s \<and> lease_stale (ms_usage_lease s) (ms_usage_expiry s)
      \<longleftrightarrow> queue_enabled uc \<and> list_ex (\<lambda>j. job_stat j = JPending) (jobs d) \<and> lease_expired ''usage:ingest-queue'' now d"
    unfolding pending usage_ingest_lease_name_def by blast
  have "lease_stale (ms_reconciliation_lease s) (ms_reconciliation_expiry s)
      \<longleftrightarrow> (payment_provider bc = STRIPE \<and> reconciliation_enabled bc \<longrightarrow> lease_expired reconciliation_lease_name now d)"
    by (simp add: s_def get_metrics_snapshot_def Let_def read_lease_stale del: not_None_eq)
  then show "payment_provider bc = STRIPE \<and> reconciliation_enabled bc \<and> lease_stale (ms_reconciliation_lease s) (ms_reconciliation_expiry s)
      \<longleftrightarrow> payment_provider bc = STRIPE \<and> reconciliation_enabled bc \<and> lease_expired ''billing:stripe-reconciliation'' now d"
    unfolding reconciliation_lease_name_def by blast
  have "lease_stale (ms_overage_lease s) (ms_overage_expiry s)
      \<longleftrightarrow> (payment_provider bc = STRIPE \<and> overage_enabled bc \<longrightarrow> lease_expired overage_lease_name now d)"
    by (simp add: s_def get_metrics_snapshot_def Let_def read_lease_stale del: not_None_eq)
  then show "payment_provider bc = STRIPE \<and> overage_enabled bc \<and> lease_stale (ms_overage_lease s) (ms_overage_expiry s)
      \<longleftrightarrow> payment_provider bc = STRIPE \<and> overage_enabled bc \<and> lease_expired ''billing:overage-collection'' now d"
    unfolding overage_lease_name_def by blast
qed (simp_all add: s_def get_metrics_snapshot_def Let_def filter_pos backlog_warning_threshold_def
      past_due_warning_threshold_def del: length_greater_0_conv)


end
