(* ===== verification/AlertDelivery.thy ===== *)
theory AlertDelivery
  imports Monitoring ExternalUrl
begin

text \<open>
  \<open>src/common/observability/operational-alert-delivery.service.ts\<close>: the current alerts are compared with
  the stored states, sent to every target that is due (new, changed, never delivered, or past the
  cooldown), and states whose alert is gone are resolved. SHA-256, the URL parser, the name
  resolution and the HTTP client are parameters. The counters of a row are not bounded by their
  column here.
\<close>

section \<open>Configuration and outside\<close>

record alert_target =
  at_key :: string
  at_url :: string
  at_host :: string

record alert_config =
  ac_enabled :: bool
  ac_targets :: "alert_target list"
  ac_interval :: int
  ac_cooldown :: int
  ac_allow_private :: bool

text \<open>The body of a notification and the answer to it; no text when reading it fails.\<close>

record delivery =
  dl_event :: string
  dl_source :: string
  dl_target :: string
  dl_generated :: string
  dl_alert :: op_alert
  dl_first :: string
  dl_last :: string

record delivery_response =
  dr_ok :: bool
  dr_status :: int
  dr_text :: "string option"

record alert_platform =
  ap_sha256 :: "string \<Rightarrow> string"
  ap_new_url :: "string \<Rightarrow> url option"
  ap_dns :: "string \<Rightarrow> string list option"
  ap_post :: "url \<Rightarrow> delivery \<Rightarrow> exn + delivery_response"

section \<open>Fingerprints\<close>

text \<open>\<open>JSON.stringify\<close> of texts, scalars and the object of an alert.\<close>

definition json_char :: "char \<Rightarrow> string" where
  "json_char c =
     (if c = CHR ''\"'' then [CHR 92, CHR ''\"'']
      else if c = CHR 92 then [CHR 92, CHR 92]
      else if c = CHR 8 then [CHR 92, CHR ''b''] else if c = CHR 12 then [CHR 92, CHR ''f'']
      else if c = CHR 10 then [CHR 92, CHR ''n''] else if c = CHR 13 then [CHR 92, CHR ''r'']
      else if c = CHR 9 then [CHR 92, CHR ''t'']
      else if (of_char c :: nat) < 32
      then CHR 92 # ''u00'' @ [if (of_char c :: nat) < 16 then CHR ''0'' else CHR ''1'',
             ''0123456789abcdef'' ! (of_char c mod 16)]
      else [c])"

definition json_text :: "string \<Rightarrow> string" where
  "json_text s = CHR ''\"'' # concat (map json_char s) @ [CHR ''\"'']"

fun json_scalar :: "scalar \<Rightarrow> string" where
  "json_scalar (SNum n) = js_int_to_string n"
| "json_scalar (SStr s) = json_text s"
| "json_scalar (SBool b) = (if b then ''true'' else ''false'')"
| "json_scalar SNull = ''null''"

fun json_fields :: "(string \<times> scalar) list \<Rightarrow> string" where
  "json_fields [] = []"
| "json_fields [(k, v)] = json_text k @ '':'' @ json_scalar v"
| "json_fields ((k, v) # f # fs) = json_text k @ '':'' @ json_scalar v @ '','' @ json_fields (f # fs)"

definition severity_text :: "alert_severity \<Rightarrow> string" where
  "severity_text sev = (case sev of AlertWarning \<Rightarrow> ''WARNING'' | AlertDanger \<Rightarrow> ''DANGER'')"

definition fingerprint_text :: "op_alert \<Rightarrow> string" where
  "fingerprint_text a =
     ''{'' @ json_text ''severity'' @ '':'' @ json_text (severity_text (oa_severity a))
     @ '','' @ json_text ''title'' @ '':'' @ json_text (oa_title a)
     @ '','' @ json_text ''message'' @ '':'' @ json_text (oa_message a)
     @ '','' @ json_text ''details'' @ '':''
     @ (case oa_details a of None \<Rightarrow> ''null'' | Some fs \<Rightarrow> ''{'' @ json_fields fs @ ''}'') @ ''}''"

definition build_fingerprint :: "alert_platform \<Rightarrow> op_alert \<Rightarrow> string" where
  "build_fingerprint pf a = ap_sha256 pf (fingerprint_text a)"

section \<open>When to send\<close>

text \<open>What both kinds of state rows have: the time of resolution, the fingerprint, the last delivery.\<close>

type_synonym sent_state = "date option \<times> string \<times> date option"

definition alert_sent :: "alert_row \<Rightarrow> sent_state" where
  "alert_sent r = (al_resolved r, al_fingerprint r, al_delivered r)"

definition target_sent :: "target_row \<Rightarrow> sent_state" where
  "target_sent r = (tg_resolved r, tg_fingerprint r, tg_delivered r)"

definition should_send_notification :: "alert_config \<Rightarrow> sent_state option \<Rightarrow> string \<Rightarrow> date \<Rightarrow> bool" where
  "should_send_notification cfg state fp now =
     (case state of None \<Rightarrow> True
      | Some (resolved, old, delivered) \<Rightarrow>
          if resolved \<noteq> None then True
          else if old \<noteq> fp then True
          else case delivered of None \<Rightarrow> True | Some t \<Rightarrow> ac_cooldown cfg * 1000 \<le> now - t)"

definition resolve_first_observed_at :: "alert_row option \<Rightarrow> string \<Rightarrow> date \<Rightarrow> date" where
  "resolve_first_observed_at state fp now =
     (case state of None \<Rightarrow> now
      | Some r \<Rightarrow> if al_resolved r \<noteq> None then now else if al_fingerprint r \<noteq> fp then now else al_first r)"

section \<open>State rows\<close>

definition upsert_rows :: "('r \<Rightarrow> bool) \<Rightarrow> 'r \<Rightarrow> ('r \<Rightarrow> 'r) \<Rightarrow> 'r list \<Rightarrow> 'r list" where
  "upsert_rows hit new upd rows =
     (if list_ex hit rows then map (\<lambda>r. if hit r then upd r else r) rows else rows @ [new])"

definition observed_row :: "date \<Rightarrow> op_alert \<Rightarrow> string \<Rightarrow> date \<Rightarrow> date \<Rightarrow> alert_row \<Rightarrow> alert_row" where
  "observed_row stamp a fp first now r = r\<lparr>al_fingerprint := fp, al_severity := severity_text (oa_severity a),
     al_title := oa_title a, al_message := oa_message a, al_details := oa_details a, al_first := first,
     al_last := now, al_resolved := None, al_updated := stamp\<rparr>"

definition new_alert_row :: "date \<Rightarrow> op_alert \<Rightarrow> string \<Rightarrow> date \<Rightarrow> date \<Rightarrow> alert_row" where
  "new_alert_row stamp a fp first now = \<lparr>al_kind = oa_kind a, al_fingerprint = fp,
     al_severity = severity_text (oa_severity a), al_title = oa_title a, al_message = oa_message a,
     al_details = oa_details a, al_first = first, al_last = now, al_resolved = None, al_delivered = None,
     al_attempt = None, al_count = 0, al_failures = 0, al_error = None, al_updated = stamp\<rparr>"

definition upsert_observed_state :: "date \<Rightarrow> op_alert \<Rightarrow> string \<Rightarrow> date \<Rightarrow> date \<Rightarrow> (db, unit) prog" where
  "upsert_observed_state stamp a fp first now = writes (\<lambda>d.
     Inr (d\<lparr>alert_states := upsert_rows (\<lambda>r. al_kind r = oa_kind a) (new_alert_row stamp a fp first now)
              (observed_row stamp a fp first now) (alert_states d)\<rparr>))"

text \<open>\<open>operationalAlertState.update\<close> of the row of a kind, which must exist.\<close>

definition update_alert :: "string \<Rightarrow> (alert_row \<Rightarrow> alert_row) \<Rightarrow> (db, unit) prog" where
  "update_alert kind g = writes (\<lambda>d.
     if list_ex (\<lambda>r. al_kind r = kind) (alert_states d)
     then Inr (d\<lparr>alert_states := map (\<lambda>r. if al_kind r = kind then g r else r) (alert_states d)\<rparr>)
     else Inl record_missing)"

definition alert_delivered :: "date \<Rightarrow> date \<Rightarrow> alert_row \<Rightarrow> alert_row" where
  "alert_delivered stamp now r = r\<lparr>al_delivered := Some now, al_attempt := Some now, al_error := None,
     al_count := al_count r + 1, al_updated := stamp\<rparr>"

definition alert_failed :: "date \<Rightarrow> date \<Rightarrow> string \<Rightarrow> alert_row \<Rightarrow> alert_row" where
  "alert_failed stamp now err r = r\<lparr>al_attempt := Some now, al_failures := al_failures r + 1,
     al_error := Some (take 1000 err), al_updated := stamp\<rparr>"

definition mark_delivery_success :: "date \<Rightarrow> string \<Rightarrow> date \<Rightarrow> (db, unit) prog" where
  "mark_delivery_success stamp kind now = update_alert kind (alert_delivered stamp now)"

definition mark_delivery_failure :: "date \<Rightarrow> string \<Rightarrow> date \<Rightarrow> string \<Rightarrow> (db, unit) prog" where
  "mark_delivery_failure stamp kind now err = update_alert kind (alert_failed stamp now err)"

definition is_target_row :: "string \<Rightarrow> string \<Rightarrow> target_row \<Rightarrow> bool" where
  "is_target_row kind key r \<longleftrightarrow> tg_kind r = kind \<and> tg_key r = key"

definition new_delivered_target :: "date \<Rightarrow> string \<Rightarrow> string \<Rightarrow> string \<Rightarrow> date \<Rightarrow> target_row" where
  "new_delivered_target stamp kind key fp now = \<lparr>tg_kind = kind, tg_key = key, tg_fingerprint = fp,
     tg_resolved = None, tg_delivered = Some now, tg_attempt = Some now, tg_count = 1, tg_failures = 0,
     tg_error = None, tg_updated = stamp\<rparr>"

definition target_delivered :: "date \<Rightarrow> string \<Rightarrow> date \<Rightarrow> target_row \<Rightarrow> target_row" where
  "target_delivered stamp fp now r = r\<lparr>tg_fingerprint := fp, tg_resolved := None, tg_delivered := Some now,
     tg_attempt := Some now, tg_error := None, tg_count := tg_count r + 1, tg_updated := stamp\<rparr>"

definition new_failed_target :: "date \<Rightarrow> string \<Rightarrow> string \<Rightarrow> string \<Rightarrow> date \<Rightarrow> string \<Rightarrow> target_row" where
  "new_failed_target stamp kind key fp now err = \<lparr>tg_kind = kind, tg_key = key, tg_fingerprint = fp,
     tg_resolved = None, tg_delivered = None, tg_attempt = Some now, tg_count = 0, tg_failures = 1,
     tg_error = Some (take 1000 err), tg_updated = stamp\<rparr>"

definition target_failed :: "date \<Rightarrow> string \<Rightarrow> date \<Rightarrow> string \<Rightarrow> target_row \<Rightarrow> target_row" where
  "target_failed stamp fp now err r = r\<lparr>tg_fingerprint := fp, tg_resolved := None, tg_attempt := Some now,
     tg_failures := tg_failures r + 1, tg_error := Some (take 1000 err), tg_updated := stamp\<rparr>"

definition upsert_target :: "string \<Rightarrow> string \<Rightarrow> target_row \<Rightarrow> (target_row \<Rightarrow> target_row) \<Rightarrow> (db, unit) prog" where
  "upsert_target kind key new upd = writes (\<lambda>d.
     Inr (d\<lparr>target_states := upsert_rows (is_target_row kind key) new upd (target_states d)\<rparr>))"

definition mark_target_delivery_success :: "date \<Rightarrow> string \<Rightarrow> string \<Rightarrow> string \<Rightarrow> date \<Rightarrow> (db, unit) prog" where
  "mark_target_delivery_success stamp kind key fp now =
     upsert_target kind key (new_delivered_target stamp kind key fp now) (target_delivered stamp fp now)"

definition mark_target_delivery_failure ::
  "date \<Rightarrow> string \<Rightarrow> string \<Rightarrow> string \<Rightarrow> date \<Rightarrow> string \<Rightarrow> (db, unit) prog" where
  "mark_target_delivery_failure stamp kind key fp now err =
     upsert_target kind key (new_failed_target stamp kind key fp now err) (target_failed stamp fp now err)"

section \<open>Delivery\<close>

definition describe_error :: "exn \<Rightarrow> string" where
  "describe_error e = (if js_trim (exn_message e) \<noteq> [] then exn_message e else ''Unknown alert delivery error'')"

definition deliver_alert ::
  "alert_config \<Rightarrow> alert_platform \<Rightarrow> alert_target \<Rightarrow> op_alert \<Rightarrow> date \<Rightarrow> date \<Rightarrow> bool \<Rightarrow> exn + unit" where
  "deliver_alert cfg pf t a first now reminder =
     (case assert_safe_external_http_url (ap_new_url pf) (ap_dns pf) (at_url t)
             \<lparr>so_allow_private = ac_allow_private cfg, so_message = ''ALERT_DELIVERY_WEBHOOK_URL_NOT_ALLOWED'', so_status = 500\<rparr> of
        Inl e \<Rightarrow> Inl e
      | Inr safe \<Rightarrow>
          (case ap_post pf safe \<lparr>dl_event = (if reminder then ''ALERT_REMINDER'' else ''ALERT_ACTIVE''),
                   dl_source = ''hivepoint-backend'', dl_target = at_key t, dl_generated = to_iso_string now,
                   dl_alert = a, dl_first = to_iso_string first, dl_last = to_iso_string now\<rparr> of
             Inl e \<Rightarrow> Inl e
           | Inr r \<Rightarrow>
               if dr_ok r then Inr ()
               else let detail = take 300 (js_trim (case dr_text r of None \<Rightarrow> [] | Some b \<Rightarrow> b)) in
                 Inl (OtherError (''Webhook responded with '' @ js_int_to_string (dr_status r)
                   @ (if detail = [] then [] else '': '' @ detail)))))"

text \<open>The maps of the loaded rows: by kind, and by the text \<open>kind:key\<close>; later rows win.\<close>

definition state_of_kind :: "string \<Rightarrow> alert_row list \<Rightarrow> alert_row option" where
  "state_of_kind kind rows = find_unique (\<lambda>r. al_kind r = kind) (rev rows)"

definition to_target_state_map_key :: "string \<Rightarrow> string \<Rightarrow> string" where
  "to_target_state_map_key kind key = kind @ '':'' @ key"

definition state_of_target :: "string \<Rightarrow> string \<Rightarrow> target_row list \<Rightarrow> target_row option" where
  "state_of_target kind key rows = find_unique
     (\<lambda>r. to_target_state_map_key (tg_kind r) (tg_key r) = to_target_state_map_key kind key) (rev rows)"

definition is_reminder :: "target_row option \<Rightarrow> string \<Rightarrow> bool" where
  "is_reminder state fp = (case state of None \<Rightarrow> False
     | Some r \<Rightarrow> tg_resolved r = None \<and> tg_fingerprint r = fp \<and> tg_delivered r \<noteq> None)"

text \<open>One pass of the inner loop; the answer counts deliveries and failures.\<close>

definition notify_target ::
  "alert_config \<Rightarrow> alert_platform \<Rightarrow> date \<Rightarrow> date \<Rightarrow> target_row list \<Rightarrow> op_alert \<Rightarrow> date \<Rightarrow> alert_target \<Rightarrow> (db, int \<times> int) prog" where
  "notify_target cfg pf stamp now loaded a first t =
     (let fp = build_fingerprint pf a; state = state_of_target (oa_kind a) (at_key t) loaded in
      if \<not> should_send_notification cfg (map_option target_sent state) fp now then ret (0, 0)
      else try_catch
        (bnd (from_result (deliver_alert cfg pf t a first now (is_reminder state fp))) (\<lambda>_.
         bnd (mark_delivery_success stamp (oa_kind a) now) (\<lambda>_.
         bnd (mark_target_delivery_success stamp (oa_kind a) (at_key t) fp now) (\<lambda>_.
         ret (1, 0)))))
        (\<lambda>e.
         bnd (mark_delivery_failure stamp (oa_kind a) now (describe_error e)) (\<lambda>_.
         bnd (mark_target_delivery_failure stamp (oa_kind a) (at_key t) fp now (describe_error e)) (\<lambda>_.
         ret (0, 1)))))"

definition add_counts :: "int \<times> int \<Rightarrow> int \<times> int \<Rightarrow> int \<times> int" where
  "add_counts a b = (fst a + fst b, snd a + snd b)"

fun sum_counts :: "('x \<Rightarrow> (db, int \<times> int) prog) \<Rightarrow> 'x list \<Rightarrow> (db, int \<times> int) prog" where
  "sum_counts f [] = ret (0, 0)"
| "sum_counts f (x # xs) = bnd (f x) (\<lambda>a. bnd (sum_counts f xs) (\<lambda>b. ret (add_counts a b)))"

definition observe_alert ::
  "alert_config \<Rightarrow> alert_platform \<Rightarrow> date \<Rightarrow> date \<Rightarrow> alert_row list \<Rightarrow> target_row list \<Rightarrow> op_alert \<Rightarrow> (db, int \<times> int) prog" where
  "observe_alert cfg pf stamp now states loaded a =
     (let fp = build_fingerprint pf a; existing = state_of_kind (oa_kind a) states;
          first = resolve_first_observed_at existing fp now in
      bnd (upsert_observed_state stamp a fp first now) (\<lambda>_.
      if \<not> should_send_notification cfg (map_option alert_sent existing) fp now \<and> ac_targets cfg = []
      then ret (0, 0)
      else sum_counts (notify_target cfg pf stamp now loaded a first) (ac_targets cfg)))"

section \<open>Resolution\<close>

definition resolve_alert :: "date \<Rightarrow> date \<Rightarrow> string \<Rightarrow> (db, unit) prog" where
  "resolve_alert stamp now kind =
     bnd (update_alert kind (\<lambda>r. r\<lparr>al_resolved := Some now, al_updated := stamp\<rparr>)) (\<lambda>_.
     writes (\<lambda>d. Inr (d\<lparr>target_states := map (\<lambda>r. if tg_kind r = kind \<and> tg_resolved r = None
        then r\<lparr>tg_resolved := Some now, tg_updated := stamp\<rparr> else r) (target_states d)\<rparr>)))"

fun resolve_cleared_alerts :: "date \<Rightarrow> date \<Rightarrow> string list \<Rightarrow> alert_row list \<Rightarrow> (db, int) prog" where
  "resolve_cleared_alerts stamp now active [] = ret 0"
| "resolve_cleared_alerts stamp now active (r # rs) =
     (if al_resolved r \<noteq> None \<or> al_kind r \<in> set active then resolve_cleared_alerts stamp now active rs
      else bnd (resolve_alert stamp now (al_kind r)) (\<lambda>_.
           bnd (resolve_cleared_alerts stamp now active rs) (\<lambda>n. ret (n + 1))))"

section \<open>The cycle\<close>

definition load_relevant_states :: "string list \<Rightarrow> db \<Rightarrow> alert_row list" where
  "load_relevant_states kinds d = filter (\<lambda>r. al_resolved r = None \<or> al_kind r \<in> set kinds) (alert_states d)"

definition load_relevant_target_states :: "string list \<Rightarrow> string list \<Rightarrow> db \<Rightarrow> target_row list" where
  "load_relevant_target_states kinds keys d =
     filter (\<lambda>r. tg_resolved r = None \<or> tg_kind r \<in> set kinds \<or> tg_key r \<in> set keys) (target_states d)"

definition alert_delivery_lease_name :: string where
  "alert_delivery_lease_name = ''observability:alert-delivery''"

definition alert_try_acquire_lease :: "alert_config \<Rightarrow> string \<Rightarrow> date \<Rightarrow> exn option \<Rightarrow> (db, bool) prog" where
  "alert_try_acquire_lease cfg owner now fault =
     lease_transaction alert_delivery_lease_name owner now (now + lease_duration (ac_interval cfg)) fault"

definition alert_should_run :: "alert_config \<Rightarrow> bool" where
  "alert_should_run cfg \<longleftrightarrow> ac_enabled cfg \<and> ac_targets cfg \<noteq> []"

definition sync_alerts ::
  "usage_config \<Rightarrow> billing_config \<Rightarrow> alert_config \<Rightarrow> alert_platform \<Rightarrow> date \<Rightarrow> date \<Rightarrow> (db, int \<times> int \<times> int) prog" where
  "sync_alerts uc bc cfg pf stamp now =
     bnd (gets (list_operational_alerts uc bc now)) (\<lambda>alerts.
     let kinds = map oa_kind alerts in
     bnd (gets (load_relevant_states kinds)) (\<lambda>states.
     bnd (gets (load_relevant_target_states kinds (map at_key (ac_targets cfg)))) (\<lambda>loaded.
     bnd (sum_counts (observe_alert cfg pf stamp now states loaded) alerts) (\<lambda>c.
     bnd (resolve_cleared_alerts stamp now kinds states) (\<lambda>n.
     ret (fst c, snd c, n))))))"

definition sync_operational_alerts ::
  "usage_config \<Rightarrow> billing_config \<Rightarrow> alert_config \<Rightarrow> alert_platform \<Rightarrow> string \<Rightarrow> date \<Rightarrow> exn option \<Rightarrow> date \<Rightarrow> date
   \<Rightarrow> (db, int \<times> int \<times> int) prog" where
  "sync_operational_alerts uc bc cfg pf owner lease_now fault stamp now =
     (if \<not> alert_should_run cfg then ret (0, 0, 0)
      else bnd (alert_try_acquire_lease cfg owner lease_now fault) (\<lambda>acquired.
        if \<not> acquired then ret (0, 0, 0) else sync_alerts uc bc cfg pf stamp now))"

definition run_alert_cycle ::
  "usage_config \<Rightarrow> billing_config \<Rightarrow> alert_config \<Rightarrow> alert_platform \<Rightarrow> string \<Rightarrow> date \<Rightarrow> exn option \<Rightarrow> date \<Rightarrow> date
   \<Rightarrow> (db, unit) prog" where
  "run_alert_cycle uc bc cfg pf owner lease_now fault stamp now =
     try_catch (bnd (sync_operational_alerts uc bc cfg pf owner lease_now fault stamp now) (\<lambda>_. ret ())) (\<lambda>e. ret ())"

text \<open>\<open>getStatusSummary\<close>: unresolved rows come last (ascending with nulls last), newest update first.\<close>

record alert_summary =
  as_enabled :: bool
  as_webhook_configured :: bool
  as_targets :: "(string \<times> string) list"
  as_interval :: int
  as_cooldown :: int
  as_items :: "alert_row list"
  as_target_items :: "target_row list"

definition get_status_summary :: "alert_config \<Rightarrow> int \<Rightarrow> db \<Rightarrow> alert_summary" where
  "get_status_summary cfg limit d =
     (let n = nat (max 1 (min limit 100)) in
      \<lparr>as_enabled = ac_enabled cfg, as_webhook_configured = (ac_targets cfg \<noteq> []),
       as_targets = map (\<lambda>t. (at_key t, at_host t)) (ac_targets cfg),
       as_interval = ac_interval cfg, as_cooldown = ac_cooldown cfg,
       as_items = take n (sort_key (\<lambda>r. asc_nulls_last (al_resolved r)) (sort_key (\<lambda>r. - al_updated r) (alert_states d))),
       as_target_items = take n (sort_key (\<lambda>r. asc_nulls_last (tg_resolved r)) (sort_key (\<lambda>r. - tg_updated r) (target_states d)))\<rparr>)"

end
