(* ===== verification/AlertFacts.thy ===== *)
theory AlertFacts
  imports AlertDelivery
begin

text \<open>
  What a cycle of the alert delivery does: the open states are the current alerts, every target that is
  due is notified once, and the state of every other pair of alert and target stays.
\<close>

section \<open>Upserts\<close>

lemma find_upsert_same:
  assumes "\<And>r. hit r \<Longrightarrow> hit (upd r)" "hit new"
  shows "find_unique hit (upsert_rows hit new upd rows)
    = Some (case find_unique hit rows of None \<Rightarrow> new | Some r \<Rightarrow> upd r)"
proof (cases "list_ex hit rows")
  case True
  then show ?thesis using assms(1)
    by (induction rows) (auto simp: upsert_rows_def find_unique_def list_ex_iff)
next
  case False
  then show ?thesis using assms(2)
    by (induction rows) (auto simp: upsert_rows_def find_unique_def)
qed

lemma find_upsert_other:
  assumes "\<And>r. hit r \<Longrightarrow> \<not> p r \<and> \<not> p (upd r)" "\<not> p new"
  shows "find_unique p (upsert_rows hit new upd rows) = find_unique p rows"
proof -
  have "find_unique p (map (\<lambda>r. if hit r then upd r else r) rows) = find_unique p rows"
    using assms(1) by (induction rows) (auto simp: find_unique_def)
  moreover have "find_unique p (rows @ [new]) = find_unique p rows"
    using assms(2) by (induction rows) (auto simp: find_unique_def)
  ultimately show ?thesis by (simp add: upsert_rows_def)
qed

lemma upsert_keys:
  assumes "\<And>r. hit r \<longleftrightarrow> key r = key new" "\<And>r. key (upd r) = key r"
  shows "map key (upsert_rows hit new upd rows)
    = (if key new \<in> set (map key rows) then map key rows else map key rows @ [key new])"
proof -
  have "list_ex hit rows \<longleftrightarrow> key new \<in> set (map key rows)" by (auto simp: list_ex_iff assms(1) intro: rev_image_eqI)
  then show ?thesis using assms(2) by (simp add: upsert_rows_def)
qed

lemma set_upsert:
  assumes "r \<in> set (upsert_rows hit new upd rows)"
  shows "r = new \<or> (\<exists>r0 \<in> set rows. hit r0 \<and> r = upd r0) \<or> (r \<in> set rows \<and> \<not> hit r)
     \<or> (r \<in> set rows \<and> \<not> list_ex hit rows)"
  using assms by (auto simp: upsert_rows_def split: if_splits)

section \<open>The state of a pair\<close>

definition target_at :: "string \<Rightarrow> string \<Rightarrow> db \<Rightarrow> target_row option" where
  "target_at kind key d = find_unique (is_target_row kind key) (target_states d)"

definition open_kinds :: "db \<Rightarrow> string set" where
  "open_kinds d = al_kind ` set (filter (\<lambda>r. al_resolved r = None) (alert_states d))"

definition alerts_ok :: "db \<Rightarrow> bool" where
  "alerts_ok d \<longleftrightarrow> distinct (map al_kind (alert_states d))
     \<and> distinct (map (\<lambda>r. (tg_kind r, tg_key r)) (target_states d))
     \<and> list_all (\<lambda>r. CHR '':'' \<notin> set (tg_kind r)) (target_states d)"

text \<open>The row of a pair of alert and target after a cycle, and what it adds to the counters.\<close>

definition send_due :: "alert_config \<Rightarrow> alert_platform \<Rightarrow> date \<Rightarrow> op_alert \<Rightarrow> target_row option \<Rightarrow> bool" where
  "send_due cfg pf now a old = should_send_notification cfg (map_option target_sent old) (build_fingerprint pf a) now"

definition outcome ::
  "alert_config \<Rightarrow> alert_platform \<Rightarrow> date \<Rightarrow> op_alert \<Rightarrow> date \<Rightarrow> alert_target \<Rightarrow> target_row option \<Rightarrow> exn + unit" where
  "outcome cfg pf now a first t old = deliver_alert cfg pf t a first now (is_reminder old (build_fingerprint pf a))"

definition notified_row ::
  "alert_config \<Rightarrow> alert_platform \<Rightarrow> date \<Rightarrow> date \<Rightarrow> op_alert \<Rightarrow> date \<Rightarrow> alert_target \<Rightarrow> target_row option \<Rightarrow> target_row option" where
  "notified_row cfg pf stamp now a first t old =
     (if \<not> send_due cfg pf now a old then old
      else Some (case outcome cfg pf now a first t old of
        Inr _ \<Rightarrow> (case old of
            None \<Rightarrow> new_delivered_target stamp (oa_kind a) (at_key t) (build_fingerprint pf a) now
          | Some r \<Rightarrow> target_delivered stamp (build_fingerprint pf a) now r)
      | Inl e \<Rightarrow> (case old of
            None \<Rightarrow> new_failed_target stamp (oa_kind a) (at_key t) (build_fingerprint pf a) now (describe_error e)
          | Some r \<Rightarrow> target_failed stamp (build_fingerprint pf a) now (describe_error e) r)))"

definition notified_count ::
  "alert_config \<Rightarrow> alert_platform \<Rightarrow> date \<Rightarrow> op_alert \<Rightarrow> date \<Rightarrow> alert_target \<Rightarrow> target_row option \<Rightarrow> int \<times> int" where
  "notified_count cfg pf now a first t old =
     (if \<not> send_due cfg pf now a old then (0, 0)
      else case outcome cfg pf now a first t old of Inr _ \<Rightarrow> (1, 0) | Inl e \<Rightarrow> (0, 1))"

text \<open>Kinds and resolutions of the alert states.\<close>

definition alert_shape :: "db \<Rightarrow> (string \<times> date option) list" where
  "alert_shape d = map (\<lambda>r. (al_kind r, al_resolved r)) (alert_states d)"

definition only_alerts :: "db \<Rightarrow> db \<Rightarrow> bool" where
  "only_alerts d d' \<longleftrightarrow>
     d'\<lparr>alert_states := [], target_states := []\<rparr> = d\<lparr>alert_states := [], target_states := []\<rparr>"

lemma only_alerts_refl [simp]: "only_alerts d d"
  by (simp add: only_alerts_def)

lemma only_alerts_trans: "only_alerts d d' \<Longrightarrow> only_alerts d' d'' \<Longrightarrow> only_alerts d d''"
  by (simp add: only_alerts_def)

lemma kinds_of_shape: "map al_kind (alert_states d) = map fst (alert_shape d)"
  by (simp add: alert_shape_def)

lemma open_of_shape: "open_kinds d = {k. (k, None) \<in> set (alert_shape d)}"
  by (force simp: alert_shape_def open_kinds_def)

section \<open>One notification\<close>

lemma update_alert_run:
  assumes "kind \<in> al_kind ` set (alert_states d)" "\<And>r. al_kind (g r) = al_kind r" "\<And>r. al_resolved (g r) = al_resolved r"
  obtains as where "update_alert kind g d = (Inr (), d\<lparr>alert_states := as\<rparr>)"
    "alert_shape (d\<lparr>alert_states := as\<rparr>) = alert_shape d"
proof -
  have "update_alert kind g d = (Inr (), d\<lparr>alert_states := map (\<lambda>r. if al_kind r = kind then g r else r) (alert_states d)\<rparr>)"
    using assms(1) by (auto simp: update_alert_def writes_def list_ex_iff)
  then show ?thesis by (rule that) (simp add: alert_shape_def assms(2,3))
qed

lemma upsert_target_run:
  assumes "tg_kind new = kind" "tg_key new = key" "\<And>r. tg_kind (upd r) = tg_kind r" "\<And>r. tg_key (upd r) = tg_key r"
    and "CHR '':'' \<notin> set kind"
  obtains ts where "upsert_target kind key new upd d = (Inr (), d\<lparr>target_states := ts\<rparr>)"
    "target_at kind key (d\<lparr>target_states := ts\<rparr>) = Some (case target_at kind key d of None \<Rightarrow> new | Some r \<Rightarrow> upd r)"
    "\<forall>k q. (k, q) \<noteq> (kind, key) \<longrightarrow> target_at k q (d\<lparr>target_states := ts\<rparr>) = target_at k q d"
    "alerts_ok d \<longrightarrow> alerts_ok (d\<lparr>target_states := ts\<rparr>)"
proof -
  let ?ts = "upsert_rows (is_target_row kind key) new upd (target_states d)"
  have run: "upsert_target kind key new upd d = (Inr (), d\<lparr>target_states := ?ts\<rparr>)"
    by (simp add: upsert_target_def writes_def)
  have same: "target_at kind key (d\<lparr>target_states := ?ts\<rparr>) = Some (case target_at kind key d of None \<Rightarrow> new | Some r \<Rightarrow> upd r)"
    using find_upsert_same [of "is_target_row kind key" upd new "target_states d"] assms(1-4)
    by (simp add: target_at_def is_target_row_def)
  have other: "target_at k q (d\<lparr>target_states := ?ts\<rparr>) = target_at k q d" if "(k, q) \<noteq> (kind, key)" for k q
    using find_upsert_other [of "is_target_row kind key" "is_target_row k q" upd new "target_states d"] assms(1-4) that
    by (auto simp: target_at_def is_target_row_def)
  have "map (\<lambda>r. (tg_kind r, tg_key r)) ?ts = (if (kind, key) \<in> set (map (\<lambda>r. (tg_kind r, tg_key r)) (target_states d))
      then map (\<lambda>r. (tg_kind r, tg_key r)) (target_states d) else map (\<lambda>r. (tg_kind r, tg_key r)) (target_states d) @ [(kind, key)])"
    using upsert_keys [of "is_target_row kind key" "\<lambda>r. (tg_kind r, tg_key r)" new upd "target_states d"] assms(1-4)
    by (auto simp: is_target_row_def)
  moreover have "CHR '':'' \<notin> set (tg_kind r)"
    if "r \<in> set ?ts" "list_all (\<lambda>r. CHR '':'' \<notin> set (tg_kind r)) (target_states d)" for r
    using set_upsert [OF that(1)] that(2) assms(1,3,5) by (auto simp: list_all_iff)
  ultimately have "alerts_ok d \<longrightarrow> alerts_ok (d\<lparr>target_states := ?ts\<rparr>)"
    by (simp add: alerts_ok_def list_all_iff)
  with that run same other show ?thesis by blast
qed

lemma notify_target_run:
  assumes "oa_kind a \<in> al_kind ` set (alert_states d)" "CHR '':'' \<notin> set (oa_kind a)"
    and "state_of_target (oa_kind a) (at_key t) loaded = target_at (oa_kind a) (at_key t) d"
  obtains d' where
    "notify_target cfg pf stamp now loaded a first t d
      = (Inr (notified_count cfg pf now a first t (target_at (oa_kind a) (at_key t) d)), d')"
    "target_at (oa_kind a) (at_key t) d' = notified_row cfg pf stamp now a first t (target_at (oa_kind a) (at_key t) d)"
    "\<forall>k q. (k, q) \<noteq> (oa_kind a, at_key t) \<longrightarrow> target_at k q d' = target_at k q d"
    "alert_shape d' = alert_shape d" "alerts_ok d \<longrightarrow> alerts_ok d'" "only_alerts d d'"
proof (cases "send_due cfg pf now a (target_at (oa_kind a) (at_key t) d)")
  case False
  then show ?thesis
    by (intro that [of d]) (simp_all add: notify_target_def Let_def assms(3) send_due_def notified_count_def notified_row_def ret_def)
next
  case True
  let ?fp = "build_fingerprint pf a" and ?old = "target_at (oa_kind a) (at_key t) d"
  show ?thesis
  proof (cases "outcome cfg pf now a first t ?old")
    case (Inr u)
    obtain as where a: "mark_delivery_success stamp (oa_kind a) now d = (Inr (), d\<lparr>alert_states := as\<rparr>)"
      "alert_shape (d\<lparr>alert_states := as\<rparr>) = alert_shape d"
      unfolding mark_delivery_success_def by (rule update_alert_run [OF assms(1), of "alert_delivered stamp now"]) (auto simp: alert_delivered_def)
    obtain ts where t: "mark_target_delivery_success stamp (oa_kind a) (at_key t) ?fp now (d\<lparr>alert_states := as\<rparr>)
        = (Inr (), d\<lparr>alert_states := as, target_states := ts\<rparr>)"
      and at: "target_at (oa_kind a) (at_key t) (d\<lparr>alert_states := as, target_states := ts\<rparr>)
        = Some (case target_at (oa_kind a) (at_key t) (d\<lparr>alert_states := as\<rparr>) of
            None \<Rightarrow> new_delivered_target stamp (oa_kind a) (at_key t) ?fp now | Some r \<Rightarrow> target_delivered stamp ?fp now r)"
      and other: "\<forall>k q. (k, q) \<noteq> (oa_kind a, at_key t) \<longrightarrow> target_at k q (d\<lparr>alert_states := as, target_states := ts\<rparr>) = target_at k q (d\<lparr>alert_states := as\<rparr>)"
      and ok: "alerts_ok (d\<lparr>alert_states := as\<rparr>) \<longrightarrow> alerts_ok (d\<lparr>alert_states := as, target_states := ts\<rparr>)"
      unfolding mark_target_delivery_success_def
      by (rule upsert_target_run [where d = "d\<lparr>alert_states := as\<rparr>" and upd = "target_delivered stamp ?fp now"
            and new = "new_delivered_target stamp (oa_kind a) (at_key t) ?fp now" and kind = "oa_kind a" and key = "at_key t"])
        (auto simp: new_delivered_target_def target_delivered_def assms(2))
    have keep: "target_at k q (d\<lparr>alert_states := as\<rparr>) = target_at k q d" for k q by (simp add: target_at_def)
    have "alerts_ok d \<longrightarrow> alerts_ok (d\<lparr>alert_states := as\<rparr>)"
      using kinds_of_shape [of d] kinds_of_shape [of "d\<lparr>alert_states := as\<rparr>"] a(2) by (simp add: alerts_ok_def)
    then show ?thesis
      using True Inr a t at other ok assms(3)
      by (intro that [of "d\<lparr>alert_states := as, target_states := ts\<rparr>"])
        (auto simp: notify_target_def Let_def send_due_def outcome_def notified_count_def notified_row_def keep
          try_catch_def bnd_def from_result_def ret_def alert_shape_def only_alerts_def split: option.splits)
  next
    case (Inl e)
    obtain as where a: "mark_delivery_failure stamp (oa_kind a) now (describe_error e) d = (Inr (), d\<lparr>alert_states := as\<rparr>)"
      "alert_shape (d\<lparr>alert_states := as\<rparr>) = alert_shape d"
      unfolding mark_delivery_failure_def by (rule update_alert_run [OF assms(1), of "alert_failed stamp now (describe_error e)"]) (auto simp: alert_failed_def)
    obtain ts where t: "mark_target_delivery_failure stamp (oa_kind a) (at_key t) ?fp now (describe_error e) (d\<lparr>alert_states := as\<rparr>)
        = (Inr (), d\<lparr>alert_states := as, target_states := ts\<rparr>)"
      and at: "target_at (oa_kind a) (at_key t) (d\<lparr>alert_states := as, target_states := ts\<rparr>)
        = Some (case target_at (oa_kind a) (at_key t) (d\<lparr>alert_states := as\<rparr>) of
            None \<Rightarrow> new_failed_target stamp (oa_kind a) (at_key t) ?fp now (describe_error e)
          | Some r \<Rightarrow> target_failed stamp ?fp now (describe_error e) r)"
      and other: "\<forall>k q. (k, q) \<noteq> (oa_kind a, at_key t) \<longrightarrow> target_at k q (d\<lparr>alert_states := as, target_states := ts\<rparr>) = target_at k q (d\<lparr>alert_states := as\<rparr>)"
      and ok: "alerts_ok (d\<lparr>alert_states := as\<rparr>) \<longrightarrow> alerts_ok (d\<lparr>alert_states := as, target_states := ts\<rparr>)"
      unfolding mark_target_delivery_failure_def
      by (rule upsert_target_run [where d = "d\<lparr>alert_states := as\<rparr>" and upd = "target_failed stamp ?fp now (describe_error e)"
            and new = "new_failed_target stamp (oa_kind a) (at_key t) ?fp now (describe_error e)" and kind = "oa_kind a" and key = "at_key t"])
        (auto simp: new_failed_target_def target_failed_def assms(2))
    have keep: "target_at k q (d\<lparr>alert_states := as\<rparr>) = target_at k q d" for k q by (simp add: target_at_def)
    have "alerts_ok d \<longrightarrow> alerts_ok (d\<lparr>alert_states := as\<rparr>)"
      using kinds_of_shape [of d] kinds_of_shape [of "d\<lparr>alert_states := as\<rparr>"] a(2) by (simp add: alerts_ok_def)
    then show ?thesis
      using True Inl a t at other ok assms(3)
      by (intro that [of "d\<lparr>alert_states := as, target_states := ts\<rparr>"])
        (auto simp: notify_target_def Let_def send_due_def outcome_def notified_count_def notified_row_def keep
          try_catch_def bnd_def from_result_def ret_def alert_shape_def only_alerts_def split: option.splits)
  qed
qed

section \<open>The loops\<close>

text \<open>The sum over the targets of an alert, and over the alerts.\<close>

definition sum_pairs :: "(int \<times> int) list \<Rightarrow> int \<times> int" where
  "sum_pairs xs = foldr add_counts xs (0, 0)"

lemma sum_pairs_simps [simp]: "sum_pairs [] = (0, 0)" "sum_pairs (x # xs) = add_counts x (sum_pairs xs)"
  by (simp_all add: sum_pairs_def)

lemma notify_targets_run:
  assumes "oa_kind a \<in> al_kind ` set (alert_states d)" "CHR '':'' \<notin> set (oa_kind a)" "distinct (map at_key ts)"
    and "\<And>t. t \<in> set ts \<Longrightarrow> state_of_target (oa_kind a) (at_key t) loaded = target_at (oa_kind a) (at_key t) d"
  obtains d' where
    "sum_counts (notify_target cfg pf stamp now loaded a first) ts d
      = (Inr (sum_pairs (map (\<lambda>t. notified_count cfg pf now a first t (target_at (oa_kind a) (at_key t) d)) ts)), d')"
    "\<forall>t \<in> set ts. target_at (oa_kind a) (at_key t) d'
      = notified_row cfg pf stamp now a first t (target_at (oa_kind a) (at_key t) d)"
    "\<forall>k q. k \<noteq> oa_kind a \<or> q \<notin> at_key ` set ts \<longrightarrow> target_at k q d' = target_at k q d"
    "alert_shape d' = alert_shape d" "alerts_ok d \<longrightarrow> alerts_ok d'" "only_alerts d d'"
  using assms
proof (induction ts arbitrary: d thesis)
  case Nil
  show ?case by (rule Nil.prems(1)) (simp_all add: ret_def only_alerts_def)
next
  case (Cons t ts)
  obtain d1 where one: "notify_target cfg pf stamp now loaded a first t d
      = (Inr (notified_count cfg pf now a first t (target_at (oa_kind a) (at_key t) d)), d1)"
    "target_at (oa_kind a) (at_key t) d1 = notified_row cfg pf stamp now a first t (target_at (oa_kind a) (at_key t) d)"
    "\<forall>k q. (k, q) \<noteq> (oa_kind a, at_key t) \<longrightarrow> target_at k q d1 = target_at k q d"
    "alert_shape d1 = alert_shape d" "alerts_ok d \<longrightarrow> alerts_ok d1" "only_alerts d d1"
    by (rule notify_target_run [OF Cons.prems(2,3) Cons.prems(5) [OF list.set_intros(1)]])
  have fresh: "at_key t \<notin> at_key ` set ts" using Cons.prems(4) by simp
  have others: "at_key t' \<noteq> at_key t" if "t' \<in> set ts" for t' using fresh that by (metis imageI)
  have known: "oa_kind a \<in> al_kind ` set (alert_states d1)"
    using Cons.prems(2) kinds_of_shape [of d] kinds_of_shape [of d1] one(4) by (metis list.set_map)
  have still: "target_at (oa_kind a) (at_key t') d1 = target_at (oa_kind a) (at_key t') d" if "t' \<in> set ts" for t'
    using one(3) others [OF that] by simp
  obtain d2 where rest: "sum_counts (notify_target cfg pf stamp now loaded a first) ts d1
      = (Inr (sum_pairs (map (\<lambda>t. notified_count cfg pf now a first t (target_at (oa_kind a) (at_key t) d1)) ts)), d2)"
    "\<forall>t \<in> set ts. target_at (oa_kind a) (at_key t) d2
      = notified_row cfg pf stamp now a first t (target_at (oa_kind a) (at_key t) d1)"
    "\<forall>k q. k \<noteq> oa_kind a \<or> q \<notin> at_key ` set ts \<longrightarrow> target_at k q d2 = target_at k q d1"
    "alert_shape d2 = alert_shape d1" "alerts_ok d1 \<longrightarrow> alerts_ok d2" "only_alerts d1 d2"
  proof (rule Cons.IH [OF _ known Cons.prems(3)])
    show "distinct (map at_key ts)" using Cons.prems(4) by simp
    show "state_of_target (oa_kind a) (at_key t') loaded = target_at (oa_kind a) (at_key t') d1" if "t' \<in> set ts" for t'
      using Cons.prems(5) still that by simp
  qed
  show ?case
  proof (rule Cons.prems(1))
    have eq: "map (\<lambda>t. notified_count cfg pf now a first t (target_at (oa_kind a) (at_key t) d1)) ts
      = map (\<lambda>t. notified_count cfg pf now a first t (target_at (oa_kind a) (at_key t) d)) ts"
      using still by simp
    show "sum_counts (notify_target cfg pf stamp now loaded a first) (t # ts) d
      = (Inr (sum_pairs (map (\<lambda>t. notified_count cfg pf now a first t (target_at (oa_kind a) (at_key t) d)) (t # ts))), d2)"
      using one(1) rest(1) [unfolded eq] by (simp add: bnd_def ret_def)
    show "\<forall>t' \<in> set (t # ts).
      target_at (oa_kind a) (at_key t') d2 = notified_row cfg pf stamp now a first t' (target_at (oa_kind a) (at_key t') d)"
      using rest(2,3) still fresh one(2) by simp
    show "\<forall>k q. k \<noteq> oa_kind a \<or> q \<notin> at_key ` set (t # ts) \<longrightarrow> target_at k q d2 = target_at k q d"
      using rest(3) one(3) by simp
    show "alert_shape d2 = alert_shape d" using one(4) rest(4) by simp
    show "alerts_ok d \<longrightarrow> alerts_ok d2" using one(5) rest(5) by blast
    show "only_alerts d d2" using one(6) rest(6) only_alerts_trans by blast
  qed
qed

definition first_observed :: "alert_platform \<Rightarrow> alert_row list \<Rightarrow> date \<Rightarrow> op_alert \<Rightarrow> date" where
  "first_observed pf states now a =
     resolve_first_observed_at (state_of_kind (oa_kind a) states) (build_fingerprint pf a) now"

lemma upsert_observed_run:
  obtains as where "upsert_observed_state stamp a fp first now d = (Inr (), d\<lparr>alert_states := as\<rparr>)"
    "al_kind ` set as = insert (oa_kind a) (al_kind ` set (alert_states d))"
    "open_kinds (d\<lparr>alert_states := as\<rparr>) = insert (oa_kind a) (open_kinds d)"
    "alerts_ok d \<longrightarrow> alerts_ok (d\<lparr>alert_states := as\<rparr>)"
proof -
  let ?as = "upsert_rows (\<lambda>r. al_kind r = oa_kind a) (new_alert_row stamp a fp first now)
    (observed_row stamp a fp first now) (alert_states d)"
  have run: "upsert_observed_state stamp a fp first now d = (Inr (), d\<lparr>alert_states := ?as\<rparr>)"
    by (simp add: upsert_observed_state_def writes_def)
  have keys: "map al_kind ?as = (if oa_kind a \<in> set (map al_kind (alert_states d)) then map al_kind (alert_states d)
      else map al_kind (alert_states d) @ [oa_kind a])"
    using upsert_keys [of "\<lambda>r. al_kind r = oa_kind a" al_kind "new_alert_row stamp a fp first now"
        "observed_row stamp a fp first now" "alert_states d"]
    by (simp add: new_alert_row_def observed_row_def)
  then have kinds: "al_kind ` set ?as = insert (oa_kind a) (al_kind ` set (alert_states d))"
    unfolding list.set_map [symmetric] by auto
  have opened: "open_kinds (d\<lparr>alert_states := ?as\<rparr>) = insert (oa_kind a) (open_kinds d)"
  proof (cases "list_ex (\<lambda>r. al_kind r = oa_kind a) (alert_states d)")
    case True
    let ?g = "\<lambda>s. if fst s = oa_kind a then (oa_kind a, None) else s"
    have shape: "alert_shape (d\<lparr>alert_states := ?as\<rparr>) = map ?g (alert_shape d)"
      using True by (simp add: alert_shape_def upsert_rows_def observed_row_def)
    obtain v where "(oa_kind a, v) \<in> set (alert_shape d)" using True by (force simp: list_ex_iff alert_shape_def)
    then have here: "(oa_kind a, None) \<in> ?g ` set (alert_shape d)" by force
    have others: "(k, None) \<in> ?g ` set (alert_shape d) \<longleftrightarrow> (k, None) \<in> set (alert_shape d)" if "k \<noteq> oa_kind a" for k
      using that by force
    show ?thesis
    proof (rule set_eqI)
      fix k show "k \<in> open_kinds (d\<lparr>alert_states := ?as\<rparr>) \<longleftrightarrow> k \<in> insert (oa_kind a) (open_kinds d)"
        using here others [of k] by (cases "k = oa_kind a") (simp_all only: open_of_shape shape list.set_map mem_Collect_eq insert_iff simp_thms)
    qed
  next
    case False
    then have "alert_shape (d\<lparr>alert_states := ?as\<rparr>) = alert_shape d @ [(oa_kind a, None)]"
      by (simp add: alert_shape_def upsert_rows_def new_alert_row_def)
    then show ?thesis by (auto simp: open_of_shape)
  qed
  have ok: "alerts_ok d \<longrightarrow> alerts_ok (d\<lparr>alert_states := ?as\<rparr>)"
    using keys by (simp add: alerts_ok_def)
  show ?thesis by (rule that [OF run kinds opened ok])
qed

lemma observe_alert_run:
  assumes "CHR '':'' \<notin> set (oa_kind a)" "distinct (map at_key (ac_targets cfg))"
    and "\<And>t. t \<in> set (ac_targets cfg) \<Longrightarrow>
      state_of_target (oa_kind a) (at_key t) loaded = target_at (oa_kind a) (at_key t) d"
  obtains d' where
    "observe_alert cfg pf stamp now states loaded a d
      = (Inr (sum_pairs (map (\<lambda>t. notified_count cfg pf now a (first_observed pf states now a) t
            (target_at (oa_kind a) (at_key t) d)) (ac_targets cfg))), d')"
    "\<forall>t \<in> set (ac_targets cfg). target_at (oa_kind a) (at_key t) d'
      = notified_row cfg pf stamp now a (first_observed pf states now a) t (target_at (oa_kind a) (at_key t) d)"
    "\<forall>k q. k \<noteq> oa_kind a \<longrightarrow> target_at k q d' = target_at k q d"
    "al_kind ` set (alert_states d') = insert (oa_kind a) (al_kind ` set (alert_states d))"
    "open_kinds d' = insert (oa_kind a) (open_kinds d)" "alerts_ok d \<longrightarrow> alerts_ok d'" "only_alerts d d'"
proof -
  let ?first = "first_observed pf states now a"
  obtain as where up: "upsert_observed_state stamp a (build_fingerprint pf a) ?first now d = (Inr (), d\<lparr>alert_states := as\<rparr>)"
    "al_kind ` set as = insert (oa_kind a) (al_kind ` set (alert_states d))"
    "open_kinds (d\<lparr>alert_states := as\<rparr>) = insert (oa_kind a) (open_kinds d)"
    "alerts_ok d \<longrightarrow> alerts_ok (d\<lparr>alert_states := as\<rparr>)"
    by (rule upsert_observed_run [of stamp a "build_fingerprint pf a" ?first now d])
  have keep: "target_at k q (d\<lparr>alert_states := as\<rparr>) = target_at k q d" for k q by (simp add: target_at_def)
  have known: "oa_kind a \<in> al_kind ` set (alert_states (d\<lparr>alert_states := as\<rparr>))" using up(2) by simp
  have same: "state_of_target (oa_kind a) (at_key t) loaded = target_at (oa_kind a) (at_key t) (d\<lparr>alert_states := as\<rparr>)"
    if "t \<in> set (ac_targets cfg)" for t using assms(3) [OF that] by (simp add: keep)
  obtain d' where loop: "sum_counts (notify_target cfg pf stamp now loaded a ?first) (ac_targets cfg) (d\<lparr>alert_states := as\<rparr>)
      = (Inr (sum_pairs (map (\<lambda>t. notified_count cfg pf now a ?first t (target_at (oa_kind a) (at_key t) d)) (ac_targets cfg))), d')"
    "\<forall>t \<in> set (ac_targets cfg). target_at (oa_kind a) (at_key t) d'
      = notified_row cfg pf stamp now a ?first t (target_at (oa_kind a) (at_key t) d)"
    "\<forall>k q. k \<noteq> oa_kind a \<or> q \<notin> at_key ` set (ac_targets cfg) \<longrightarrow> target_at k q d' = target_at k q d"
    "alert_shape d' = alert_shape (d\<lparr>alert_states := as\<rparr>)" "alerts_ok (d\<lparr>alert_states := as\<rparr>) \<longrightarrow> alerts_ok d'"
    "only_alerts (d\<lparr>alert_states := as\<rparr>) d'"
    by (rule notify_targets_run [where ts = "ac_targets cfg" and loaded = loaded, OF known assms(1,2) same, unfolded keep])
  have run: "observe_alert cfg pf stamp now states loaded a d
      = (Inr (sum_pairs (map (\<lambda>t. notified_count cfg pf now a ?first t (target_at (oa_kind a) (at_key t) d)) (ac_targets cfg))), d')"
    using up(1) loop(1)
    by (cases "ac_targets cfg = []") (simp_all add: observe_alert_def Let_def first_observed_def bnd_def ret_def)
  have kinds: "al_kind ` set (alert_states d') = insert (oa_kind a) (al_kind ` set (alert_states d))"
    using kinds_of_shape [of d'] kinds_of_shape [of "d\<lparr>alert_states := as\<rparr>"] loop(4) up(2)
    unfolding list.set_map [symmetric] by simp
  show ?thesis
  proof (rule that [OF run loop(2)])
    show "\<forall>k q. k \<noteq> oa_kind a \<longrightarrow> target_at k q d' = target_at k q d" using loop(3) by blast
    show "open_kinds d' = insert (oa_kind a) (open_kinds d)" using up(3) loop(4) by (simp add: open_of_shape)
    show "alerts_ok d \<longrightarrow> alerts_ok d'" using up(4) loop(5) by blast
    show "only_alerts d d'" using loop(6) by (simp add: only_alerts_def)
  qed (rule kinds)
qed

lemma observe_alerts_run:
  assumes "distinct (map oa_kind alerts)" "\<forall>a \<in> set alerts. CHR '':'' \<notin> set (oa_kind a)"
    and "distinct (map at_key (ac_targets cfg))"
    and "\<And>a t. a \<in> set alerts \<Longrightarrow> t \<in> set (ac_targets cfg) \<Longrightarrow>
      state_of_target (oa_kind a) (at_key t) loaded = target_at (oa_kind a) (at_key t) d"
  obtains d' where
    "sum_counts (observe_alert cfg pf stamp now states loaded) alerts d
      = (Inr (sum_pairs (map (\<lambda>a. sum_pairs (map (\<lambda>t. notified_count cfg pf now a (first_observed pf states now a) t
            (target_at (oa_kind a) (at_key t) d)) (ac_targets cfg))) alerts)), d')"
    "\<forall>a \<in> set alerts. \<forall>t \<in> set (ac_targets cfg). target_at (oa_kind a) (at_key t) d'
      = notified_row cfg pf stamp now a (first_observed pf states now a) t (target_at (oa_kind a) (at_key t) d)"
    "\<forall>k q. k \<notin> oa_kind ` set alerts \<longrightarrow> target_at k q d' = target_at k q d"
    "al_kind ` set (alert_states d') = oa_kind ` set alerts \<union> al_kind ` set (alert_states d)"
    "open_kinds d' = oa_kind ` set alerts \<union> open_kinds d" "alerts_ok d \<longrightarrow> alerts_ok d'" "only_alerts d d'"
  using assms
proof (induction alerts arbitrary: d thesis)
  case Nil
  show ?case by (rule Nil.prems(1)) (simp_all add: ret_def only_alerts_def)
next
  case (Cons a alerts)
  have fresh: "oa_kind a \<notin> oa_kind ` set alerts" using Cons.prems(2) by simp
  have others: "oa_kind a' \<noteq> oa_kind a" if "a' \<in> set alerts" for a' using fresh that by (metis imageI)
  have colon: "CHR '':'' \<notin> set (oa_kind a)" "\<forall>a \<in> set alerts. CHR '':'' \<notin> set (oa_kind a)" using Cons.prems(3) by simp_all
  obtain d1 where one: "observe_alert cfg pf stamp now states loaded a d
      = (Inr (sum_pairs (map (\<lambda>t. notified_count cfg pf now a (first_observed pf states now a) t
            (target_at (oa_kind a) (at_key t) d)) (ac_targets cfg))), d1)"
    "\<forall>t \<in> set (ac_targets cfg). target_at (oa_kind a) (at_key t) d1
      = notified_row cfg pf stamp now a (first_observed pf states now a) t (target_at (oa_kind a) (at_key t) d)"
    "\<forall>k q. k \<noteq> oa_kind a \<longrightarrow> target_at k q d1 = target_at k q d"
    "al_kind ` set (alert_states d1) = insert (oa_kind a) (al_kind ` set (alert_states d))"
    "open_kinds d1 = insert (oa_kind a) (open_kinds d)" "alerts_ok d \<longrightarrow> alerts_ok d1" "only_alerts d d1"
    by (rule observe_alert_run [OF colon(1) Cons.prems(4) Cons.prems(5) [OF list.set_intros(1)]])
  have still: "target_at (oa_kind a') q d1 = target_at (oa_kind a') q d" if "a' \<in> set alerts" for a' q
    using one(3) others [OF that] by simp
  obtain d2 where rest: "sum_counts (observe_alert cfg pf stamp now states loaded) alerts d1
      = (Inr (sum_pairs (map (\<lambda>a. sum_pairs (map (\<lambda>t. notified_count cfg pf now a (first_observed pf states now a) t
            (target_at (oa_kind a) (at_key t) d1)) (ac_targets cfg))) alerts)), d2)"
    "\<forall>a \<in> set alerts. \<forall>t \<in> set (ac_targets cfg). target_at (oa_kind a) (at_key t) d2
      = notified_row cfg pf stamp now a (first_observed pf states now a) t (target_at (oa_kind a) (at_key t) d1)"
    "\<forall>k q. k \<notin> oa_kind ` set alerts \<longrightarrow> target_at k q d2 = target_at k q d1"
    "al_kind ` set (alert_states d2) = oa_kind ` set alerts \<union> al_kind ` set (alert_states d1)"
    "open_kinds d2 = oa_kind ` set alerts \<union> open_kinds d1" "alerts_ok d1 \<longrightarrow> alerts_ok d2" "only_alerts d1 d2"
  proof (rule Cons.IH [OF _ _ colon(2) Cons.prems(4)])
    show "distinct (map oa_kind alerts)" using Cons.prems(2) by simp
    show "state_of_target (oa_kind a') (at_key t) loaded = target_at (oa_kind a') (at_key t) d1"
      if "a' \<in> set alerts" "t \<in> set (ac_targets cfg)" for a' t
      using Cons.prems(5) [of a' t] still that by simp
  qed
  show ?case
  proof (rule Cons.prems(1))
    have eq: "map (\<lambda>a. sum_pairs (map (\<lambda>t. notified_count cfg pf now a (first_observed pf states now a) t
            (target_at (oa_kind a) (at_key t) d1)) (ac_targets cfg))) alerts
      = map (\<lambda>a. sum_pairs (map (\<lambda>t. notified_count cfg pf now a (first_observed pf states now a) t
            (target_at (oa_kind a) (at_key t) d)) (ac_targets cfg))) alerts"
      using still by simp
    show "sum_counts (observe_alert cfg pf stamp now states loaded) (a # alerts) d
      = (Inr (sum_pairs (map (\<lambda>a. sum_pairs (map (\<lambda>t. notified_count cfg pf now a (first_observed pf states now a) t
            (target_at (oa_kind a) (at_key t) d)) (ac_targets cfg))) (a # alerts))), d2)"
      using one(1) rest(1) [unfolded eq] by (simp add: bnd_def ret_def)
    show "\<forall>a' \<in> set (a # alerts). \<forall>t \<in> set (ac_targets cfg). target_at (oa_kind a') (at_key t) d2
      = notified_row cfg pf stamp now a' (first_observed pf states now a') t (target_at (oa_kind a') (at_key t) d)"
      using rest(2,3) still fresh one(2) by simp
    show "\<forall>k q. k \<notin> oa_kind ` set (a # alerts) \<longrightarrow> target_at k q d2 = target_at k q d"
      using rest(3) one(3) by simp
    show "al_kind ` set (alert_states d2) = oa_kind ` set (a # alerts) \<union> al_kind ` set (alert_states d)"
      using one(4) rest(4) by simp
    show "open_kinds d2 = oa_kind ` set (a # alerts) \<union> open_kinds d" using one(5) rest(5) by simp
    show "alerts_ok d \<longrightarrow> alerts_ok d2" using one(6) rest(6) by blast
    show "only_alerts d d2" using one(7) rest(7) only_alerts_trans by blast
  qed
qed

section \<open>Resolution\<close>

lemma find_map_other:
  assumes "\<And>r. P r \<Longrightarrow> \<not> p r \<and> \<not> p (g r)"
  shows "find_unique p (map (\<lambda>r. if P r then g r else r) rows) = find_unique p rows"
  using assms by (induction rows) (auto simp: find_unique_def)

lemma resolve_alert_run:
  assumes "kind \<in> al_kind ` set (alert_states d)"
  obtains d' where "resolve_alert stamp now kind d = (Inr (), d')" "open_kinds d' = open_kinds d - {kind}"
    "al_kind ` set (alert_states d') = al_kind ` set (alert_states d)"
    "\<forall>k q. k \<noteq> kind \<longrightarrow> target_at k q d' = target_at k q d" "alerts_ok d \<longrightarrow> alerts_ok d'" "only_alerts d d'"
    "\<forall>r \<in> set (target_states d'). tg_resolved r = None \<longrightarrow> tg_kind r \<noteq> kind \<and> r \<in> set (target_states d)"
proof -
  let ?as = "map (\<lambda>r. if al_kind r = kind then r\<lparr>al_resolved := Some now, al_updated := stamp\<rparr> else r) (alert_states d)"
  let ?ts = "map (\<lambda>r. if tg_kind r = kind \<and> tg_resolved r = None
        then r\<lparr>tg_resolved := Some now, tg_updated := stamp\<rparr> else r) (target_states d)"
  let ?d = "d\<lparr>alert_states := ?as, target_states := ?ts\<rparr>"
  have run: "resolve_alert stamp now kind d = (Inr (), ?d)"
    using assms by (auto simp: resolve_alert_def update_alert_def bnd_def writes_def list_ex_iff)
  have shape: "alert_shape ?d = map (\<lambda>s. if fst s = kind then (kind, Some now) else s) (alert_shape d)"
    by (simp add: alert_shape_def)
  have opened: "open_kinds ?d = open_kinds d - {kind}"
    unfolding open_of_shape shape by (force split: if_splits)
  have kinds: "map al_kind ?as = map al_kind (alert_states d)" by simp
  then have kinds_set: "al_kind ` set (alert_states ?d) = al_kind ` set (alert_states d)"
    unfolding list.set_map [symmetric] by simp
  have other: "\<forall>k q. k \<noteq> kind \<longrightarrow> target_at k q ?d = target_at k q d"
    unfolding target_at_def select_convs
    by (intro allI impI) (simp, rule find_map_other, auto simp: is_target_row_def)
  have "map (\<lambda>r. (tg_kind r, tg_key r)) ?ts = map (\<lambda>r. (tg_kind r, tg_key r)) (target_states d)" by simp
  then have ok: "alerts_ok d \<longrightarrow> alerts_ok ?d"
    using kinds by (auto simp: alerts_ok_def list_all_iff simp del: map_map)
  have gone: "\<forall>r \<in> set (target_states ?d). tg_resolved r = None \<longrightarrow> tg_kind r \<noteq> kind \<and> r \<in> set (target_states d)"
    by auto
  show ?thesis by (rule that [OF run opened kinds_set other ok _ gone]) (simp add: only_alerts_def)
qed

definition cleared :: "string list \<Rightarrow> alert_row \<Rightarrow> bool" where
  "cleared active r \<longleftrightarrow> al_resolved r = None \<and> al_kind r \<notin> set active"

lemma resolve_cleared_run:
  assumes "\<forall>r \<in> set rs. al_kind r \<in> al_kind ` set (alert_states d)"
  obtains d' where
    "resolve_cleared_alerts stamp now active rs d = (Inr (int (length (filter (cleared active) rs))), d')"
    "open_kinds d' = open_kinds d - al_kind ` set (filter (cleared active) rs)"
    "\<forall>k q. k \<in> set active \<longrightarrow> target_at k q d' = target_at k q d" "alerts_ok d \<longrightarrow> alerts_ok d'" "only_alerts d d'"
    "\<forall>r \<in> set (target_states d'). tg_resolved r = None \<longrightarrow>
      tg_kind r \<notin> al_kind ` set (filter (cleared active) rs) \<and> r \<in> set (target_states d)"
  using assms
proof (induction rs arbitrary: d thesis)
  case Nil
  show ?case by (rule Nil.prems(1)) (auto simp: ret_def only_alerts_def)
next
  case (Cons r rs)
  have rest_known: "\<forall>r \<in> set rs. al_kind r \<in> al_kind ` set (alert_states d)" using Cons.prems(2) by simp
  show ?case
  proof (cases "cleared active r")
    case False
    then have skip: "resolve_cleared_alerts stamp now active (r # rs) = resolve_cleared_alerts stamp now active rs"
      by (auto simp: cleared_def)
    show ?thesis
      by (rule Cons.IH [OF _ rest_known], rule Cons.prems(1)) (use False skip in \<open>simp_all only: filter.simps if_False\<close>)
  next
    case True
    obtain d1 where one: "resolve_alert stamp now (al_kind r) d = (Inr (), d1)" "open_kinds d1 = open_kinds d - {al_kind r}"
      "al_kind ` set (alert_states d1) = al_kind ` set (alert_states d)"
      "\<forall>k q. k \<noteq> al_kind r \<longrightarrow> target_at k q d1 = target_at k q d" "alerts_ok d \<longrightarrow> alerts_ok d1" "only_alerts d d1"
      "\<forall>s \<in> set (target_states d1). tg_resolved s = None \<longrightarrow> tg_kind s \<noteq> al_kind r \<and> s \<in> set (target_states d)"
      by (rule resolve_alert_run [OF Cons.prems(2) [THEN bspec, OF list.set_intros(1)]])
    obtain d2 where rest:
      "resolve_cleared_alerts stamp now active rs d1 = (Inr (int (length (filter (cleared active) rs))), d2)"
      "open_kinds d2 = open_kinds d1 - al_kind ` set (filter (cleared active) rs)"
      "\<forall>k q. k \<in> set active \<longrightarrow> target_at k q d2 = target_at k q d1" "alerts_ok d1 \<longrightarrow> alerts_ok d2" "only_alerts d1 d2"
      "\<forall>s \<in> set (target_states d2). tg_resolved s = None \<longrightarrow>
        tg_kind s \<notin> al_kind ` set (filter (cleared active) rs) \<and> s \<in> set (target_states d1)"
      by (rule Cons.IH [OF _ rest_known [folded one(3)]])
    show ?thesis
    proof (rule Cons.prems(1))
      show "resolve_cleared_alerts stamp now active (r # rs) d = (Inr (int (length (filter (cleared active) (r # rs)))), d2)"
        using True one(1) rest(1) by (simp add: bnd_def ret_def cleared_def)
      show "open_kinds d2 = open_kinds d - al_kind ` set (filter (cleared active) (r # rs))"
        using True one(2) rest(2) by auto
      show "\<forall>k q. k \<in> set active \<longrightarrow> target_at k q d2 = target_at k q d"
        using True one(4) rest(3) unfolding cleared_def by metis
      show "alerts_ok d \<longrightarrow> alerts_ok d2" using one(5) rest(4) by blast
      show "only_alerts d d2" using one(6) rest(5) only_alerts_trans by blast
      show "\<forall>s \<in> set (target_states d2). tg_resolved s = None \<longrightarrow>
          tg_kind s \<notin> al_kind ` set (filter (cleared active) (r # rs)) \<and> s \<in> set (target_states d)"
        using True one(7) rest(6) by auto
    qed
  qed
qed

section \<open>The cycle\<close>

lemma colon_split:
  "CHR '':'' \<notin> set a \<Longrightarrow> CHR '':'' \<notin> set b \<Longrightarrow> a @ CHR '':'' # x = b @ CHR '':'' # y \<longleftrightarrow> a = b \<and> x = y"
proof (induction a arbitrary: b)
  case Nil
  then show ?case by (cases b) auto
next
  case (Cons c a)
  then show ?case by (cases b) auto
qed

lemma find_unique_set:
  assumes "\<And>r. r \<in> set xs \<and> p r \<longleftrightarrow> r \<in> set ys \<and> q r"
    and "\<And>r s. r \<in> set ys \<Longrightarrow> q r \<Longrightarrow> s \<in> set ys \<Longrightarrow> q s \<Longrightarrow> r = s"
  shows "find_unique p xs = find_unique q ys"
proof (cases "find_unique p xs")
  case None
  then have "find_unique q ys = None" using assms(1) by (auto simp: find_unique_None)
  then show ?thesis using None by simp
next
  case (Some r)
  then have r: "r \<in> set ys" "q r" using find_unique_Some [OF Some] assms(1) by auto
  then obtain s where s: "find_unique q ys = Some s" by (cases "find_unique q ys") (auto simp: find_unique_None)
  then show ?thesis using find_unique_Some [OF s] assms(2) [of r s] r Some by simp
qed

lemma loaded_target:
  assumes "alerts_ok d" "kind \<in> set kinds" "CHR '':'' \<notin> set kind"
  shows "state_of_target kind key (load_relevant_target_states kinds keys d) = target_at kind key d"
  unfolding state_of_target_def target_at_def
proof (rule find_unique_set)
  fix r
  have "r \<in> set (target_states d) \<Longrightarrow> CHR '':'' \<notin> set (tg_kind r)" using assms(1) by (simp add: alerts_ok_def list_all_iff)
  then show "r \<in> set (rev (load_relevant_target_states kinds keys d))
      \<and> to_target_state_map_key (tg_kind r) (tg_key r) = to_target_state_map_key kind key
    \<longleftrightarrow> r \<in> set (target_states d) \<and> is_target_row kind key r"
    using assms(2,3) by (auto simp: load_relevant_target_states_def to_target_state_map_key_def is_target_row_def colon_split)
next
  fix r s assume "r \<in> set (target_states d)" "is_target_row kind key r" "s \<in> set (target_states d)" "is_target_row kind key s"
  then show "r = s" using assms(1) by (auto simp: alerts_ok_def is_target_row_def distinct_map inj_on_def)
qed

lemma loaded_state:
  assumes "alerts_ok d" "kind \<in> set kinds"
  shows "state_of_kind kind (load_relevant_states kinds d) = state_of_kind kind (alert_states d)"
  unfolding state_of_kind_def
proof (rule find_unique_set)
  fix r s assume "r \<in> set (rev (alert_states d))" "al_kind r = kind" "s \<in> set (rev (alert_states d))" "al_kind s = kind"
  then show "r = s" using assms(1) by (auto simp: alerts_ok_def distinct_map inj_on_def)
qed (use assms(2) in \<open>auto simp: load_relevant_states_def\<close>)

lemma alert_kind_colon: "a \<in> set (list_operational_alerts uc bc now d) \<Longrightarrow> CHR '':'' \<notin> set (oa_kind a)"
proof -
  assume "a \<in> set (list_operational_alerts uc bc now d)"
  then have "oa_kind a \<in> set (map oa_kind (derive_operational_alerts uc bc (get_metrics_snapshot uc bc now d)))"
    by (simp add: list_operational_alerts_def)
  from this [unfolded derived_kinds] show ?thesis by (elim disjE conjE) simp_all
qed

lemma cleared_kinds: "al_kind ` set (filter (cleared active) (load_relevant_states active d)) = open_kinds d - set active"
  by (auto simp: open_kinds_def load_relevant_states_def cleared_def)

lemma cleared_count:
  assumes "alerts_ok d"
  shows "length (filter (cleared active) (load_relevant_states active d)) = card (open_kinds d - set active)"
proof -
  have "distinct (map al_kind (filter (cleared active) (load_relevant_states active d)))"
    using assms by (auto simp: alerts_ok_def load_relevant_states_def distinct_map inj_on_def)
  from distinct_card [OF this] show ?thesis unfolding list.set_map cleared_kinds by simp
qed

text \<open>A pair of alert and target, seen from the state before the cycle: its row after the cycle, what it
  counts, and the sums over all pairs.\<close>

definition pair_row ::
  "alert_config \<Rightarrow> alert_platform \<Rightarrow> date \<Rightarrow> date \<Rightarrow> db \<Rightarrow> op_alert \<Rightarrow> alert_target \<Rightarrow> target_row option" where
  "pair_row cfg pf stamp now d a t = notified_row cfg pf stamp now a (first_observed pf (alert_states d) now a) t
     (target_at (oa_kind a) (at_key t) d)"

definition pair_count :: "alert_config \<Rightarrow> alert_platform \<Rightarrow> date \<Rightarrow> db \<Rightarrow> op_alert \<Rightarrow> alert_target \<Rightarrow> int \<times> int" where
  "pair_count cfg pf now d a t = notified_count cfg pf now a (first_observed pf (alert_states d) now a) t
     (target_at (oa_kind a) (at_key t) d)"

definition all_counts :: "alert_config \<Rightarrow> alert_platform \<Rightarrow> date \<Rightarrow> db \<Rightarrow> op_alert list \<Rightarrow> int \<times> int" where
  "all_counts cfg pf now d alerts =
     sum_pairs (map (\<lambda>a. sum_pairs (map (pair_count cfg pf now d a) (ac_targets cfg))) alerts)"

lemma sync_alerts_run:
  fixes uc :: usage_config and bc :: billing_config and now :: date
  assumes "alerts_ok d" "distinct (map at_key (ac_targets cfg))"
  defines "alerts \<equiv> list_operational_alerts uc bc now d"
  obtains d' where "sync_alerts uc bc cfg pf stamp now d = (Inr (
      fst (all_counts cfg pf now d alerts), snd (all_counts cfg pf now d alerts), int (card (open_kinds d - oa_kind ` set alerts))), d')"
    "open_kinds d' = oa_kind ` set alerts" "alerts_ok d'" "only_alerts d d'"
    "\<forall>a \<in> set alerts. \<forall>t \<in> set (ac_targets cfg).
       target_at (oa_kind a) (at_key t) d' = pair_row cfg pf stamp now d a t"
    "\<forall>r \<in> set (target_states d'). tg_resolved r = None \<longrightarrow> tg_kind r \<notin> open_kinds d - oa_kind ` set alerts"
proof -
  let ?kinds = "map oa_kind alerts"
  let ?states = "load_relevant_states ?kinds d"
  let ?loaded = "load_relevant_target_states ?kinds (map at_key (ac_targets cfg)) d"
  have kinds: "distinct ?kinds" unfolding alerts_def list_operational_alerts_def by (rule alert_kinds_distinct)
  have colon: "\<forall>a \<in> set alerts. CHR '':'' \<notin> set (oa_kind a)" unfolding alerts_def using alert_kind_colon by blast
  have same: "state_of_target (oa_kind a) (at_key t) ?loaded = target_at (oa_kind a) (at_key t) d"
    if "a \<in> set alerts" "t \<in> set (ac_targets cfg)" for a t
    by (rule loaded_target [OF assms(1)]) (use that colon in auto)
  have first: "first_observed pf ?states now a = first_observed pf (alert_states d) now a" if "a \<in> set alerts" for a
    using loaded_state [OF assms(1), of "oa_kind a" ?kinds] that by (simp add: first_observed_def)
  obtain d1 where loop: "sum_counts (observe_alert cfg pf stamp now ?states ?loaded) alerts d
      = (Inr (sum_pairs (map (\<lambda>a. sum_pairs (map (\<lambda>t. notified_count cfg pf now a (first_observed pf ?states now a) t
            (target_at (oa_kind a) (at_key t) d)) (ac_targets cfg))) alerts)), d1)"
    "\<forall>a \<in> set alerts. \<forall>t \<in> set (ac_targets cfg). target_at (oa_kind a) (at_key t) d1
      = notified_row cfg pf stamp now a (first_observed pf ?states now a) t (target_at (oa_kind a) (at_key t) d)"
    "\<forall>k q. k \<notin> oa_kind ` set alerts \<longrightarrow> target_at k q d1 = target_at k q d"
    "al_kind ` set (alert_states d1) = oa_kind ` set alerts \<union> al_kind ` set (alert_states d)"
    "open_kinds d1 = oa_kind ` set alerts \<union> open_kinds d" "alerts_ok d \<longrightarrow> alerts_ok d1" "only_alerts d d1"
    by (rule observe_alerts_run [OF kinds colon assms(2) same])
  have known: "\<forall>r \<in> set ?states. al_kind r \<in> al_kind ` set (alert_states d1)"
    using loop(4) by (auto simp: load_relevant_states_def)
  obtain d2 where clear:
    "resolve_cleared_alerts stamp now ?kinds ?states d1 = (Inr (int (length (filter (cleared ?kinds) ?states))), d2)"
    "open_kinds d2 = open_kinds d1 - al_kind ` set (filter (cleared ?kinds) ?states)"
    "\<forall>k q. k \<in> set ?kinds \<longrightarrow> target_at k q d2 = target_at k q d1" "alerts_ok d1 \<longrightarrow> alerts_ok d2" "only_alerts d1 d2"
    "\<forall>r \<in> set (target_states d2). tg_resolved r = None \<longrightarrow>
      tg_kind r \<notin> al_kind ` set (filter (cleared ?kinds) ?states) \<and> r \<in> set (target_states d1)"
    by (rule resolve_cleared_run [OF known])
  have sums: "map (\<lambda>a. sum_pairs (map (\<lambda>t. notified_count cfg pf now a (first_observed pf ?states now a) t
            (target_at (oa_kind a) (at_key t) d)) (ac_targets cfg))) alerts
      = map (\<lambda>a. sum_pairs (map (pair_count cfg pf now d a) (ac_targets cfg))) alerts"
    using first by (simp add: pair_count_def cong: map_cong)
  show ?thesis
  proof (rule that)
    show "sync_alerts uc bc cfg pf stamp now d = (Inr (
      fst (all_counts cfg pf now d alerts), snd (all_counts cfg pf now d alerts), int (card (open_kinds d - oa_kind ` set alerts))), d2)"
      using loop(1) [unfolded sums] clear(1) cleared_count [OF assms(1), of ?kinds]
      by (simp add: sync_alerts_def Let_def bnd_def gets_def ret_def all_counts_def alerts_def [symmetric])
    show "open_kinds d2 = oa_kind ` set alerts" using clear(2) loop(5) unfolding cleared_kinds by auto
    show "alerts_ok d2" using assms(1) loop(6) clear(4) by blast
    show "only_alerts d d2" using loop(7) clear(5) only_alerts_trans by blast
    show "\<forall>a \<in> set alerts. \<forall>t \<in> set (ac_targets cfg).
       target_at (oa_kind a) (at_key t) d2 = pair_row cfg pf stamp now d a t"
      using loop(2) clear(3) first by (simp add: pair_row_def)
    show "\<forall>r \<in> set (target_states d2). tg_resolved r = None \<longrightarrow> tg_kind r \<notin> open_kinds d - oa_kind ` set alerts"
      using clear(6) unfolding cleared_kinds by simp
  qed
qed

lemma lease_only_leases:
  assumes "lease_transaction name owner now expires fault d = (r, d')"
  shows "d'\<lparr>leases := []\<rparr> = d\<lparr>leases := []\<rparr>"
proof -
  have "d'\<lparr>leases := []\<rparr> = d\<lparr>leases := []\<rparr>" if "lease_body name owner now expires d = (r, d')" for r d'
    using that by (auto simp: lease_body_def create_lease_def take_over_lease_def bnd_def gets_def ret_def Let_def
        split: option.splits sum.splits if_splits)
  then show ?thesis using lease_transaction_cases [OF assms] by blast
qed

text \<open>C6: What a cycle does that holds the lease. The open states are exactly the current alerts; every pair of
  a current alert and a configured target has the row of its outcome (one delivery or one failure when it
  was due, else unchanged); no target row of an alert that is gone stays open; the answer counts the
  deliveries, the failures and the alerts that were resolved.\<close>

theorem alert_sync_exact:
  assumes "alerts_ok d0" "distinct (map at_key (ac_targets cfg))" "alert_should_run cfg"
    and "alert_try_acquire_lease cfg owner lease_now fault d0 = (Inr True, d)"
    and "sync_operational_alerts uc bc cfg pf owner lease_now fault stamp now d0 = (res, d')"
  shows "open_kinds d' = oa_kind ` set (list_operational_alerts uc bc now d)
    \<and> (\<forall>a \<in> set (list_operational_alerts uc bc now d). \<forall>t \<in> set (ac_targets cfg).
         target_at (oa_kind a) (at_key t) d' = pair_row cfg pf stamp now d a t)
    \<and> (\<forall>r \<in> set (target_states d'). tg_resolved r = None \<longrightarrow> tg_kind r \<notin> open_kinds d - open_kinds d')
    \<and> res = Inr (fst (all_counts cfg pf now d (list_operational_alerts uc bc now d)),
        snd (all_counts cfg pf now d (list_operational_alerts uc bc now d)), int (card (open_kinds d - open_kinds d')))
    \<and> alerts_ok d'"
proof -
  have lease: "d\<lparr>leases := []\<rparr> = d0\<lparr>leases := []\<rparr>"
    by (rule lease_only_leases [OF assms(4) [unfolded alert_try_acquire_lease_def]])
  have "alert_states d = alert_states d0" "target_states d = target_states d0"
    using arg_cong [OF lease, of alert_states] arg_cong [OF lease, of target_states] by simp_all
  then have ok: "alerts_ok d" using assms(1) by (simp add: alerts_ok_def)
  obtain d2 where run: "sync_alerts uc bc cfg pf stamp now d = (Inr (
      fst (all_counts cfg pf now d (list_operational_alerts uc bc now d)),
      snd (all_counts cfg pf now d (list_operational_alerts uc bc now d)),
      int (card (open_kinds d - oa_kind ` set (list_operational_alerts uc bc now d)))), d2)"
    "open_kinds d2 = oa_kind ` set (list_operational_alerts uc bc now d)" "alerts_ok d2" "only_alerts d d2"
    "\<forall>a \<in> set (list_operational_alerts uc bc now d). \<forall>t \<in> set (ac_targets cfg).
       target_at (oa_kind a) (at_key t) d2 = pair_row cfg pf stamp now d a t"
    "\<forall>r \<in> set (target_states d2). tg_resolved r = None \<longrightarrow>
       tg_kind r \<notin> open_kinds d - oa_kind ` set (list_operational_alerts uc bc now d)"
    by (rule sync_alerts_run [OF ok assms(2)])
  have "(res, d') = sync_alerts uc bc cfg pf stamp now d"
    using assms(3,4,5) by (simp add: sync_operational_alerts_def bnd_def)
  then have "res = fst (sync_alerts uc bc cfg pf stamp now d)" "d' = d2" using run(1) by (simp_all del: prod.collapse)
  then show ?thesis using run by simp
qed

section \<open>Reminders\<close>

text \<open>A target that was notified is not notified again of the same alert before the cooldown has passed.\<close>

lemma cooldown_holds:
  assumes "pair_row cfg pf stamp now d a t = Some r" "tg_delivered r = Some now" "send_due cfg pf now a (target_at (oa_kind a) (at_key t) d)"
    and "target_at (oa_kind b) (at_key t) d' = Some r" "build_fingerprint pf b = build_fingerprint pf a"
    and "now' - now < ac_cooldown cfg * 1000"
  shows "pair_row cfg pf stamp' now' d' b t = target_at (oa_kind b) (at_key t) d'" "pair_count cfg pf now' d' b t = (0, 0)"
proof -
  have "tg_fingerprint r = build_fingerprint pf a" "tg_resolved r = None"
    using assms(1,3) by (auto simp: pair_row_def notified_row_def new_delivered_target_def target_delivered_def
        new_failed_target_def target_failed_def split: sum.splits option.splits)
  then have "\<not> send_due cfg pf now' b (Some r)"
    using assms(2,5,6) by (simp add: send_due_def should_send_notification_def target_sent_def)
  then show "pair_row cfg pf stamp' now' d' b t = target_at (oa_kind b) (at_key t) d'" "pair_count cfg pf now' d' b t = (0, 0)"
    by (simp_all add: pair_row_def notified_row_def pair_count_def notified_count_def assms(4))
qed

text \<open>When the delivery of a changed alert fails, the row already has the new fingerprint and still the time
  of the last delivery: the change is not sent again before the cooldown of the old alert.\<close>

lemma failed_change_waits:
  assumes "tg_delivered r = Some t0" "now' - t0 < ac_cooldown cfg * 1000"
  shows "\<not> should_send_notification cfg (Some (target_sent (target_failed stamp fp now err r))) fp now'"
  using assms by (simp add: should_send_notification_def target_sent_def target_failed_def)

section \<open>A concrete service\<close>

definition sample_alert_config :: alert_config where
  "sample_alert_config = \<lparr>ac_enabled = True,
     ac_targets = [\<lparr>at_key = ''ops'', at_url = ''https://ops.example.org/hook'', at_host = ''ops.example.org''\<rparr>],
     ac_interval = 60, ac_cooldown = 3600, ac_allow_private = False\<rparr>"

definition sample_alert_platform :: alert_platform where
  "sample_alert_platform = \<lparr>ap_sha256 = (\<lambda>s. s), ap_new_url = (\<lambda>s. Some (sample_url ''ops.example.org'')),
     ap_dns = (\<lambda>h. Some [''93.184.216.34'']), ap_post = (\<lambda>u b. Inr \<lparr>dr_ok = True, dr_status = 200, dr_text = None\<rparr>)\<rparr>"

definition failed_job :: job_row where
  "failed_job = \<lparr>job_id = ''j'', job_sub = ''s'', job_at = 0, job_endpoint = ''/'', job_count = 1, job_stat = JFailed,
     job_attempts = 5, job_available = 0, job_processed = None, job_error = None, job_created = 0\<rparr>"

definition sample_alert_db :: db where
  "sample_alert_db = empty_db\<lparr>jobs := [failed_job]\<rparr>"

definition sample_monitor_billing :: billing_config where
  "sample_monitor_billing = \<lparr>payment_provider = MOCK, grace_period_days = 3, reconciliation_enabled = True,
     reconciliation_interval = 60, reconciliation_batch = 10, retry_enabled = True, retry_interval = 60,
     retry_batch = 10, retry_delays = [60], overage_enabled = True, overage_interval = 60, overage_batch = 10\<rparr>"

theorem alert_sync_exact_witness:
  "open_kinds (snd (sync_operational_alerts sample_usage_config sample_monitor_billing sample_alert_config
      sample_alert_platform ''w'' 1000 None 1000 1000 sample_alert_db)) = {''USAGE_INGEST_FAILED_JOBS''}"
proof -
  have start: "alerts_ok sample_alert_db" "distinct (map at_key (ac_targets sample_alert_config))"
    "alert_should_run sample_alert_config" by code_simp+
  let ?lease = "alert_try_acquire_lease sample_alert_config ''w'' 1000 None sample_alert_db"
  have "fst ?lease = Inr True" by code_simp
  then have lease: "?lease = (Inr True, snd ?lease)" by (metis prod.collapse)
  have kinds: "map oa_kind (list_operational_alerts sample_usage_config sample_monitor_billing 1000 (snd ?lease))
    = [''USAGE_INGEST_FAILED_JOBS'']" by code_simp
  note exact = alert_sync_exact [OF start lease, where uc = sample_usage_config and bc = sample_monitor_billing
    and pf = sample_alert_platform and stamp = 1000 and now = 1000, OF prod.collapse [symmetric], THEN conjunct1]
  show ?thesis unfolding exact list.set_map [symmetric] kinds by simp
qed

text \<open>The message and the details of the alert for old work contain the age: a minute later it counts as a
  changed alert, whatever the cooldown.\<close>

lemma old_job_alert_changes:
  "fingerprint_text (old_job_alert sample_usage_config (get_metrics_snapshot sample_usage_config sample_monitor_billing 400000
      (empty_db\<lparr>jobs := [failed_job\<lparr>job_stat := JPending\<rparr>]\<rparr>)))
   \<noteq> fingerprint_text (old_job_alert sample_usage_config (get_metrics_snapshot sample_usage_config sample_monitor_billing 460000
      (empty_db\<lparr>jobs := [failed_job\<lparr>job_stat := JPending\<rparr>]\<rparr>)))"
  by code_simp

text \<open>The status summary lists resolved rows before open ones, so a limit can hide the open ones.\<close>

lemma summary_hides_open:
  "map al_kind (as_items (get_status_summary sample_alert_config 1 (empty_db\<lparr>alert_states :=
     [\<lparr>al_kind = ''OPEN'', al_fingerprint = [], al_severity = [], al_title = [], al_message = [], al_details = None,
        al_first = 9, al_last = 9, al_resolved = None, al_delivered = None, al_attempt = None, al_count = 0,
        al_failures = 0, al_error = None, al_updated = 9\<rparr>,
      \<lparr>al_kind = ''OLD'', al_fingerprint = [], al_severity = [], al_title = [], al_message = [], al_details = None,
        al_first = 1, al_last = 1, al_resolved = Some 2, al_delivered = None, al_attempt = None, al_count = 0,
        al_failures = 0, al_error = None, al_updated = 2\<rparr>]\<rparr>))) = [''OLD'']"
  by code_simp

end
