(* ===== verification/Spec2Isabelle.thy ===== *)
theory Spec2Isabelle
  imports IngestWorker BurstLimiter OverageCollection Reconciliation Gateway CatalogFacts AlertFacts
begin

text \<open>
  The backend of an API marketplace: verification of its usage accounting and billing core.
\<close>

end
